theory Spec2Isabelle
  imports Main
begin

section \<open>Strings, paths and the fixed partition set\<close>

text \<open>
  Go strings are byte strings; they are modelled as \<^typ>\<open>string\<close>.  The helpers of
  package \<open>strings\<close> that the sources call are written out on bytes.  \<open>TrimSpace\<close> and
  \<open>ToLower\<close> are the ASCII parts of the Go functions, which also trim Unicode white
  space (such as U+00A0) and lower-case Unicode letters (such as U+0130): they agree
  with the Go functions on ASCII strings only.  No general theorem below depends on
  what they do to a particular string.
\<close>

definition isSpace :: "char \<Rightarrow> bool" where
  "isSpace c = (c \<in> set [CHR '' '', CHR 0x09, CHR 0x0A, CHR 0x0B, CHR 0x0C, CHR 0x0D])"

definition TrimSpace :: "string \<Rightarrow> string" where
  "TrimSpace s = rev (dropWhile isSpace (rev (dropWhile isSpace s)))"

definition lowerChar :: "char \<Rightarrow> char" where
  "lowerChar c =
     (case map_of (zip ''ABCDEFGHIJKLMNOPQRSTUVWXYZ'' ''abcdefghijklmnopqrstuvwxyz'') c of
        Some d \<Rightarrow> d
      | None \<Rightarrow> c)"

definition ToLower :: "string \<Rightarrow> string" where
  "ToLower s = map lowerChar s"

definition HasSuffix :: "string \<Rightarrow> string \<Rightarrow> bool" where
  "HasSuffix s suf = (length suf \<le> length s \<and> drop (length s - length suf) s = suf)"

definition TrimPrefix :: "string \<Rightarrow> string \<Rightarrow> string" where
  "TrimPrefix s p = (if take (length p) s = p then drop (length p) s else s)"

text \<open>\<open>strings.Split(s, "\n")\<close>: the pieces between line feeds, at least one piece.\<close>

fun splitLines :: "string \<Rightarrow> string list" where
  "splitLines [] = [[]]"
| "splitLines (c # cs) =
     (if c = CHR 0x0A then [] # splitLines cs
      else (case splitLines cs of [] \<Rightarrow> [[c]] | l # ls \<Rightarrow> (c # l) # ls))"

text \<open>\<open>strings.Join(xs, sep)\<close>.\<close>

fun Join :: "string list \<Rightarrow> string \<Rightarrow> string" where
  "Join [] sep = []"
| "Join [x] sep = x"
| "Join (x # y # ys) sep = x @ sep @ Join (y # ys) sep"

text \<open>
  \<open>path.Join\<close>: the non-empty elements joined by a slash.  The final
  \<open>path.Clean\<close> of the Go function is left out: the elements joined in the sources
  are clean names.
\<close>

definition pathJoin :: "string list \<Rightarrow> string" where
  "pathJoin xs = Join (filter (\<lambda>x. x \<noteq> []) xs) ''/''"

text \<open>
  Modelled from the spec: \<open>fs.ChildDatasets\<close> (package \<open>lib/fs\<close> is not among the
  sources).  The spec fixes the ordered partition set \<open>{rootfs, home, var, opt}\<close>;
  \<open>install\<close> and \<open>Clone\<close> use the same four names in the same order.
\<close>

definition ChildDatasets :: "string list" where
  "ChildDatasets = [''rootfs'', ''home'', ''var'', ''opt'']"


section \<open>Host state, external calls and process outcomes\<close>

text \<open>
  Every call that leaves the agent (HTTP, the download client, IPFS, ZFS, LXC, the
  file system, the lock files, the log that the console reads) is an \<open>event\<close>; the
  events of a run are appended to the \<open>trace\<close> of the host state in program order.
\<close>

datatype event =
    EvHttpGet string
  | EvHttpHead string
  | EvGrabRequest string string
  | EvGrab string string
  | EvIpfs "string list"
  | EvLock string string
  | EvUnlock string string
  | EvCreateDataset string
  | EvRemoveDataset string bool
  | EvReceiveStream string string bool
  | EvSetDatasetReadOnly string
  | EvRollback string bool
  | EvListSnapshotNames string
  | EvCopy string string
  | EvDecompress string string
  | EvRemoveAll string
  | EvRemove string
  | EvRename string string
  | EvLxcStop string
  | EvLxcStart string
  | EvSetContainerConf string
  | EvInitManagement string
  | EvGpgExchange string string
  | EvNewContainer string
  | EvStart string
  | EvOpenFile string
  | EvWriteFile string
  | EvLxcUpdateConfig string
  | EvFindContainers string
  | EvSaveContainer string string
  | EvSleep nat
  | EvInfo string

datatype node = File string | Dir

text \<open>\<open>db.Container\<close>, the persisted record of a container.\<close>

record Container =
  Name' :: string
  State' :: string
  Ip :: string

record world =
  datasets :: "string list"
  readonly :: "string list"
  files :: "string \<rightharpoonup> node"
  lxc :: "string list"
  cstate :: "string \<Rightarrow> string"
  db :: "Container list"
  trace :: "event list"

text \<open>
  \<open>datasets\<close> lists the ZFS datasets and snapshots below the agent's root dataset by
  their names relative to it (the root itself is the empty name); \<open>readonly\<close> the
  datasets marked read-only; \<open>lxc\<close> is \<open>lxc.DefinedContainerNames\<close>; \<open>cstate\<close> the
  runtime state of each container; \<open>db\<close> the persisted desired-state records.
\<close>

record config =
  CacheDir :: string
  LxcPrefix :: string
  Dataset :: string
  CdnUrl :: string
  TemplateDownloadUrl :: string
  IpfsPath :: string

record Template =
  Id' :: string
  Name :: string
  Owner :: string
  Version :: string
  MD5 :: string
  DigestMethod :: string
  DigestHash :: string
  Parent :: string
  Size :: int
  FullRef :: string
  PrefSize :: string

text \<open>
  The environment: the configuration and the behaviour of the collaborators that are
  outside the sources.  \<open>failure tr ev\<close> is the error (if any) that the external call
  \<open>ev\<close> returns after the history \<open>tr\<close>, so the same call may fail once and succeed
  later.  \<open>http_status\<close> and \<open>http_body\<close> are the answer of the metadata service (the
  body already parsed, \<open>None\<close> when it is malformed) and of the gateway to a HEAD
  request; \<open>remote\<close> is what a download delivers (\<open>ipfs_dir\<close> the files inside, when IPFS
  delivers a directory); \<open>untar\<close> the members of an archive with the given bytes.  The
  three regular expressions of \<open>getTemplateInfo\<close> are not among the sources; they are the
  three matchers below.  \<open>validUrl\<close>, \<open>urlParses\<close> and \<open>urlWithPath\<close> stand for
  \<open>url.ParseRequestURI\<close>, \<open>url.Parse\<close> and the URL with one more path element.
\<close>

record env =
  cfg :: config
  failure :: "event list \<Rightarrow> event \<Rightarrow> string option"
  http_status :: "event list \<Rightarrow> string \<Rightarrow> nat"
  http_body :: "event list \<Rightarrow> string \<Rightarrow> Template option"
  remote :: "event list \<Rightarrow> string \<Rightarrow> node"
  untar :: "string \<Rightarrow> (string \<times> string) list"
  sha256_fn :: "string \<Rightarrow> string"
  md5_fn :: "string \<Rightarrow> string"
  rxNameOwnerVersion :: "string \<Rightarrow> (string \<times> string \<times> string) option"
  rxNameOwner :: "string \<Rightarrow> (string \<times> string) option"
  rxName :: "string \<Rightarrow> string option"
  ipfs_dir :: "event list \<Rightarrow> string \<Rightarrow> (string \<times> string) list"
  validUrl :: "string \<Rightarrow> bool"
  urlParses :: "string \<Rightarrow> bool"
  urlWithPath :: "string \<Rightarrow> string \<Rightarrow> string"
  majorVersion :: nat

text \<open>
  A run either returns to its caller, or the process exits (\<open>os.Exit\<close>, with the
  message logged), or it panics.  Deferred calls run when a function returns or
  panics; they do not run when the process exits.
\<close>

datatype 'a outcome = Return 'a world | Exit string world | Panic world

fun andThen :: "'a outcome \<Rightarrow> ('a \<Rightarrow> world \<Rightarrow> 'b outcome) \<Rightarrow> 'b outcome" where
  "andThen (Return x w) f = f x w"
| "andThen (Exit m w) f = Exit m w"
| "andThen (Panic w) f = Panic w"

fun final :: "'a outcome \<Rightarrow> world" where
  "final (Return x w) = w"
| "final (Exit m w) = w"
| "final (Panic w) = w"

text \<open>\<open>defer f()\<close>: \<open>f\<close> runs when the function returns or panics, not on exit.\<close>

fun deferred :: "(world \<Rightarrow> world) \<Rightarrow> 'a outcome \<Rightarrow> 'a outcome" where
  "deferred f (Return x w) = Return x (f w)"
| "deferred f (Exit m w) = Exit m w"
| "deferred f (Panic w) = Panic (f w)"

text \<open>
  Sequencing for runs that may not end within their fuel (\<open>None\<close>).
\<close>

fun bindO :: "'a outcome option \<Rightarrow> ('a \<Rightarrow> world \<Rightarrow> 'b outcome option) \<Rightarrow> 'b outcome option" where
  "bindO None f = None"
| "bindO (Some (Return x w)) f = f x w"
| "bindO (Some (Exit m w)) f = Some (Exit m w)"
| "bindO (Some (Panic w)) f = Some (Panic w)"

definition emit :: "event \<Rightarrow> world \<Rightarrow> world" where
  "emit ev w = w\<lparr>trace := trace w @ [ev]\<rparr>"

text \<open>An external call: the event is recorded, the environment decides its error.\<close>

definition call :: "env \<Rightarrow> event \<Rightarrow> world \<Rightarrow> string option \<times> world" where
  "call e ev w = (failure e (trace w) ev, emit ev w)"

subsection \<open>Package log\<close>

text \<open>
  Modelled from the spec: package \<open>log\<close> is not among the sources.  The spec has a
  failed operation abort "with a descriptive message and a non-zero outcome"; the
  sources agree: \<open>log.Error\<close> is followed by "should not reach here" in
  \<open>getTemplateUrl\<close>, the variant that returns is called \<open>log.ErrorNoExit\<close>, and
  \<open>log.Check\<close> is used as "an error was there" (\<open>getContainersSupposedToBeRunning\<close>).
  So \<open>log.Error\<close> and \<open>log.Fatal\<close> end the process; \<open>log.Check\<close> returns whether the
  error is set, after ending the process at the error and fatal levels.
  \<open>log.Info\<close> lines are events (the console reads them); warnings and debug lines
  are not recorded.
\<close>

datatype level = FatalLevel | ErrorLevel | WarnLevel | DebugLevel

definition log_Error :: "string \<Rightarrow> world \<Rightarrow> 'a outcome" where
  "log_Error msg w = Exit msg w"

definition log_Fatal :: "string \<Rightarrow> world \<Rightarrow> 'a outcome" where
  "log_Fatal msg w = Exit msg w"

definition log_Info :: "string \<Rightarrow> world \<Rightarrow> world" where
  "log_Info msg w = emit (EvInfo msg) w"

fun log_Check :: "level \<Rightarrow> string \<Rightarrow> string option \<Rightarrow> world \<Rightarrow> bool outcome" where
  "log_Check lv msg None w = Return False w"
| "log_Check FatalLevel msg (Some err) w = log_Fatal (msg @ '', '' @ err) w"
| "log_Check ErrorLevel msg (Some err) w = log_Error (msg @ '', '' @ err) w"
| "log_Check WarnLevel msg (Some err) w = Return True w"
| "log_Check DebugLevel msg (Some err) w = Return True w"

subsection \<open>The argument checks of package cli\<close>

text \<open>
  Modelled from the spec: \<open>checkCondition\<close>, \<open>checkArgument\<close> and \<open>checkState\<close> are not
  among the sources.  Validation errors are "rejected immediately at the call
  boundary"; the call sites fix the rest: the fallback of \<open>checkCondition\<close> runs
  exactly when the condition is false (it reads \<open>err.Error()\<close> there), and it may
  return (\<open>ReceiveContainerSnapshots\<close> goes on after it).
\<close>

definition checkCondition :: "bool \<Rightarrow> (world \<Rightarrow> unit outcome) \<Rightarrow> world \<Rightarrow> unit outcome" where
  "checkCondition condition fallback w = (if condition then Return () w else fallback w)"

definition checkArgument :: "bool \<Rightarrow> string \<Rightarrow> world \<Rightarrow> unit outcome" where
  "checkArgument condition errMsg w = checkCondition condition (log_Error errMsg) w"

definition checkState :: "bool \<Rightarrow> string \<Rightarrow> world \<Rightarrow> unit outcome" where
  "checkState condition errMsg w = checkCondition condition (log_Error errMsg) w"

subsection \<open>Package fs\<close>

text \<open>
  Modelled from the spec: package \<open>lib/fs\<close> is not among the sources.  These are
  the primitives of the spec's SnapshotStore and of the file system, on the
  \<^typ>\<open>world\<close>: a query reads the state, a command is an external call that changes the
  state when it does not fail.
\<close>

definition fs_DatasetExists :: "world \<Rightarrow> string \<Rightarrow> bool" where
  "fs_DatasetExists w name = (name \<in> set (datasets w))"

definition stripSlash :: "string \<Rightarrow> string" where
  "stripSlash s = (if s \<noteq> [] \<and> last s = CHR ''/'' then butlast s else s)"

definition fs_IsDatasetReadOnly :: "world \<Rightarrow> string \<Rightarrow> bool" where
  "fs_IsDatasetReadOnly w name = (stripSlash name \<in> set (readonly w))"

definition fs_FileExists :: "world \<Rightarrow> string \<Rightarrow> bool" where
  "fs_FileExists w p = (files w p \<noteq> None)"

definition fs_IsDir :: "world \<Rightarrow> string \<Rightarrow> bool" where
  "fs_IsDir w p = (files w p = Some Dir)"

definition fs_CreateDataset :: "env \<Rightarrow> string \<Rightarrow> world \<Rightarrow> string option \<times> world" where
  "fs_CreateDataset e name w =
     (case call e (EvCreateDataset name) w of
        (Some err, w1) \<Rightarrow> (Some err, w1)
      | (None, w1) \<Rightarrow> (None, w1\<lparr>datasets := datasets w1 @ [name]\<rparr>))"

definition fs_RemoveDataset :: "env \<Rightarrow> string \<Rightarrow> bool \<Rightarrow> world \<Rightarrow> string option \<times> world" where
  "fs_RemoveDataset e name recursive w =
     (case call e (EvRemoveDataset name recursive) w of
        (Some err, w1) \<Rightarrow> (Some err, w1)
      | (None, w1) \<Rightarrow>
          (None, w1\<lparr>datasets := filter (\<lambda>d. d \<noteq> name) (datasets w1),
                    readonly := filter (\<lambda>d. d \<noteq> name) (readonly w1)\<rparr>))"

definition fs_ReceiveStream ::
  "env \<Rightarrow> string \<Rightarrow> string \<Rightarrow> bool \<Rightarrow> world \<Rightarrow> string option \<times> world" where
  "fs_ReceiveStream e dataset delta appendMode w =
     (case call e (EvReceiveStream dataset delta appendMode) w of
        (Some err, w1) \<Rightarrow> (Some err, w1)
      | (None, w1) \<Rightarrow>
          (None, if dataset \<in> set (datasets w1) then w1
                 else w1\<lparr>datasets := datasets w1 @ [dataset]\<rparr>))"

definition fs_SetDatasetReadOnly :: "env \<Rightarrow> string \<Rightarrow> world \<Rightarrow> string option \<times> world" where
  "fs_SetDatasetReadOnly e name w =
     (case call e (EvSetDatasetReadOnly name) w of
        (Some err, w1) \<Rightarrow> (Some err, w1)
      | (None, w1) \<Rightarrow> (None, w1\<lparr>readonly := readonly w1 @ [name]\<rparr>))"

definition fs_RollbackToSnapshot :: "env \<Rightarrow> string \<Rightarrow> bool \<Rightarrow> world \<Rightarrow> string option \<times> world" where
  "fs_RollbackToSnapshot e snapshot force w = call e (EvRollback snapshot force) w"

definition isSnapshotUnder :: "string \<Rightarrow> string \<Rightarrow> bool" where
  "isSnapshotUnder name d =
     (CHR ''@'' \<in> set d \<and>
      (take (Suc (length name)) d = name @ ''@'' \<or> take (Suc (length name)) d = name @ ''/''))"

definition fs_ListSnapshotNamesOnly ::
  "env \<Rightarrow> string \<Rightarrow> world \<Rightarrow> (string \<times> string option) \<times> world" where
  "fs_ListSnapshotNamesOnly e name w =
     (case call e (EvListSnapshotNames name) w of
        (Some err, w1) \<Rightarrow> (([], Some err), w1)
      | (None, w1) \<Rightarrow>
          ((Join (map (\<lambda>d. Dataset (cfg e) @ d) (filter (isSnapshotUnder name) (datasets w1)))
              [CHR 0x0A], None), w1))"

definition fs_Copy :: "env \<Rightarrow> string \<Rightarrow> string \<Rightarrow> world \<Rightarrow> string option \<times> world" where
  "fs_Copy e src dst w =
     (case call e (EvCopy src dst) w of
        (Some err, w1) \<Rightarrow> (Some err, w1)
      | (None, w1) \<Rightarrow>
          (case files w1 src of
             Some (File c) \<Rightarrow> (None, w1\<lparr>files := (files w1)(dst \<mapsto> File c)\<rparr>)
           | _ \<Rightarrow> (Some ''no such file'', w1)))"

definition fs_Decompress :: "env \<Rightarrow> string \<Rightarrow> string \<Rightarrow> world \<Rightarrow> string option \<times> world" where
  "fs_Decompress e src dst w =
     (case call e (EvDecompress src dst) w of
        (Some err, w1) \<Rightarrow> (Some err, w1)
      | (None, w1) \<Rightarrow>
          (case files w1 src of
             Some (File c) \<Rightarrow>
               (None, w1\<lparr>files := (files w1)(dst \<mapsto> Dir) ++
                     map_of (map (\<lambda>(rel, body). (pathJoin [dst, rel], File body)) (untar e c))\<rparr>)
           | _ \<Rightarrow> (Some ''no such file'', w1)))"

definition isUnder :: "string \<Rightarrow> string \<Rightarrow> bool" where
  "isUnder dir p = (p = dir \<or> take (Suc (length dir)) p = dir @ ''/'')"

definition os_RemoveAll :: "env \<Rightarrow> string \<Rightarrow> world \<Rightarrow> string option \<times> world" where
  "os_RemoveAll e p w =
     (case call e (EvRemoveAll p) w of
        (Some err, w1) \<Rightarrow> (Some err, w1)
      | (None, w1) \<Rightarrow> (None, w1\<lparr>files := (\<lambda>q. if isUnder p q then None else files w1 q)\<rparr>))"

definition os_Remove :: "env \<Rightarrow> string \<Rightarrow> world \<Rightarrow> string option \<times> world" where
  "os_Remove e p w =
     (case call e (EvRemove p) w of
        (Some err, w1) \<Rightarrow> (Some err, w1)
      | (None, w1) \<Rightarrow>
          (if files w1 p = None then (Some ''no such file'', w1)
           else (None, w1\<lparr>files := (files w1)(p := None)\<rparr>)))"

definition os_Rename :: "env \<Rightarrow> string \<Rightarrow> string \<Rightarrow> world \<Rightarrow> string option \<times> world" where
  "os_Rename e old new w =
     (case call e (EvRename old new) w of
        (Some err, w1) \<Rightarrow> (Some err, w1)
      | (None, w1) \<Rightarrow>
          (if files w1 old = None then (Some ''no such file'', w1)
           else (None, w1\<lparr>files := (\<lambda>q. if isUnder new q then files w1 (old @ drop (length new) q)
                                         else if isUnder old q then None else files w1 q)\<rparr>)))"


section \<open>Package container\<close>

definition Running :: string where "Running = ''RUNNING''"
definition Stopped :: string where "Stopped = ''STOPPED''"
definition Management :: string where "Management = ''management''"

definition All :: "world \<Rightarrow> string list" where
  "All w = lxc w"

definition IsTemplate :: "world \<Rightarrow> string \<Rightarrow> bool" where
  "IsTemplate w name =
     (fs_DatasetExists w (name @ ''/rootfs'') \<and> fs_IsDatasetReadOnly w (name @ ''/rootfs/''))"

definition IsContainer :: "world \<Rightarrow> string \<Rightarrow> bool" where
  "IsContainer w name =
     (fs_DatasetExists w (name @ ''/rootfs'') \<and> \<not> fs_IsDatasetReadOnly w (name @ ''/rootfs/''))"

fun stringInList :: "string \<Rightarrow> string list \<Rightarrow> bool" where
  "stringInList s [] = False"
| "stringInList s (i # list) = (if s = i then True else stringInList s list)"

definition LxcInstanceExists :: "world \<Rightarrow> string \<Rightarrow> bool" where
  "LxcInstanceExists w name = stringInList name (All w)"

definition State :: "world \<Rightarrow> string \<Rightarrow> string" where
  "State w name = cstate w name"

text \<open>
  Modelled from the spec: \<open>LxcStop\<close> and \<open>LxcStart\<close> of package \<open>cli\<close> are not among
  the sources; they are the container-runtime control primitives \<open>stop\<close> and \<open>start\<close>.
\<close>

definition LxcStop :: "string \<Rightarrow> world \<Rightarrow> world" where
  "LxcStop name w = (emit (EvLxcStop name) w)\<lparr>cstate := (cstate w)(name := Stopped)\<rparr>"

definition LxcStart :: "string \<Rightarrow> world \<Rightarrow> world" where
  "LxcStart name w = (emit (EvLxcStart name) w)\<lparr>cstate := (cstate w)(name := Running)\<rparr>"

section \<open>Snapshots (package cli)\<close>

definition getSnapshotName :: "string \<Rightarrow> string \<Rightarrow> string \<Rightarrow> string" where
  "getSnapshotName container partition' label =
     (if label = [] then
        (if partition' = ''config'' then container else container @ ''/'' @ partition')
      else
        (if partition' = ''config'' \<or> partition' = ''all'' then container @ ''@'' @ label
         else container @ ''/'' @ partition' @ ''@'' @ label))"

text \<open>The search loop of \<open>checkPartitionName\<close>, with its \<open>break\<close>.\<close>

fun partitionFound :: "string list \<Rightarrow> string \<Rightarrow> bool" where
  "partitionFound [] partition' = False"
| "partitionFound (vol # vols) partition' =
     (if vol = partition' then True else partitionFound vols partition')"

definition checkPartitionName :: "string \<Rightarrow> world \<Rightarrow> unit outcome" where
  "checkPartitionName partition' w =
     andThen (checkArgument (partition' \<noteq> []) ''Invalid container partition'' w) (\<lambda>_ w.
       (let found = partitionFound ChildDatasets partition';
            found = (if partition' = ''config'' \<or> partition' = ''all'' then True else found)
        in checkArgument found (''Invalid partition '' @ partition') w))"

text \<open>
  \<open>strings.Replace(s, old, new, 1)\<close> for a non-empty \<open>old\<close>, and the rewriting of the
  ZFS hint in a rollback error.
\<close>

fun replaceFirst :: "string \<Rightarrow> string \<Rightarrow> string \<Rightarrow> string" where
  "replaceFirst old new [] = []"
| "replaceFirst old new (c # cs) =
     (if take (length old) (c # cs) = old then new @ drop (length old) (c # cs)
      else c # replaceFirst old new cs)"

definition rollbackError :: "string \<Rightarrow> string" where
  "rollbackError err =
     ''Failed to rollback to snapshot '' @
       replaceFirst ''use '-r' to force deletion'' ''use '-f' to force deletion'' err"

text \<open>The existence checks of the fallback for partition \<open>all\<close> (lines 148 to 151).\<close>

fun checkPartSnapshots :: "string \<Rightarrow> string \<Rightarrow> string list \<Rightarrow> world \<Rightarrow> unit outcome" where
  "checkPartSnapshots container label [] w = Return () w"
| "checkPartSnapshots container label (part # parts) w =
     (let snap = getSnapshotName container part label in
      andThen (checkState (fs_DatasetExists w snap) (''Snapshot '' @ snap @ '' does not exist'') w)
        (\<lambda>_ w. checkPartSnapshots container label parts w))"

text \<open>The rollback loop over the listed snapshot names (lines 172 to 184).\<close>

fun rollbackListed :: "env \<Rightarrow> string \<Rightarrow> bool \<Rightarrow> string list \<Rightarrow> world \<Rightarrow> unit outcome" where
  "rollbackListed e label forceRollback [] w = Return () w"
| "rollbackListed e label forceRollback (line # lines) w =
     (let snapshot = TrimSpace (TrimPrefix line (Dataset (cfg e))) in
      if snapshot \<noteq> [] \<and> HasSuffix snapshot (''@'' @ label) then
        (case fs_RollbackToSnapshot e snapshot forceRollback w of
           (Some err, w1) \<Rightarrow> log_Error (rollbackError err) w1
         | (None, w1) \<Rightarrow> rollbackListed e label forceRollback lines w1)
      else rollbackListed e label forceRollback lines w)"

definition RollbackToSnapshot ::
  "env \<Rightarrow> string \<Rightarrow> string \<Rightarrow> string \<Rightarrow> bool \<Rightarrow> bool \<Rightarrow> world \<Rightarrow> unit outcome" where
  "RollbackToSnapshot e container0 partition0 label0 forceRollback stopContainer w =
     (let container = TrimSpace container0;
          partition' = ToLower (TrimSpace partition0);
          label = ToLower (TrimSpace label0) in
      andThen (checkArgument (container \<noteq> []) ''Invalid container name'' w) (\<lambda>_ w.
      andThen (checkPartitionName partition' w) (\<lambda>_ w.
      andThen (checkArgument (label \<noteq> []) ''Invalid snapshot label'' w) (\<lambda>_ w.
      andThen (checkState (IsContainer w container) (''Container '' @ container @ '' not found'') w)
        (\<lambda>_ w.
      let snapshot = getSnapshotName container partition' label in
      andThen (checkCondition (fs_DatasetExists w snapshot)
                 (\<lambda>w. if partition' \<noteq> ''all''
                       then log_Error (''Snapshot '' @ snapshot @ '' does not exist'') w
                       else checkPartSnapshots container label ChildDatasets w) w) (\<lambda>_ w.
      let stopped = (stopContainer \<and> State w container = Running);
          w = (if stopped then LxcStop container w else w) in
      deferred (if stopped then LxcStart container else (\<lambda>w. w))
        (if partition' = ''all'' then
           (case fs_ListSnapshotNamesOnly e container w of
              ((out, Some err), w1) \<Rightarrow> log_Error (''Failed to list snapshots '' @ err) w1
            | ((out, None), w1) \<Rightarrow>
                rollbackListed e label forceRollback (splitLines out) w1)
         else
           (case fs_RollbackToSnapshot e snapshot forceRollback w of
              (Some err, w1) \<Rightarrow> log_Error (rollbackError err) w1
            | (None, w1) \<Rightarrow> Return () w1))))))))"

text \<open>\<open>filepath.Base\<close> and \<open>filepath.Ext\<close> (slash-separated paths).\<close>

definition lastElem :: "string \<Rightarrow> string" where
  "lastElem p = rev (takeWhile (\<lambda>c. c \<noteq> CHR ''/'') (rev p))"

definition Base :: "string \<Rightarrow> string" where
  "Base p =
     (if p = [] then ''.''
      else (let q = rev (dropWhile (\<lambda>c. c = CHR ''/'') (rev p)) in
            if q = [] then ''/'' else lastElem q))"

definition Ext :: "string \<Rightarrow> string" where
  "Ext p =
     (let e = lastElem p in
      if CHR ''.'' \<in> set e then CHR ''.'' # rev (takeWhile (\<lambda>c. c \<noteq> CHR ''.'') (rev e)) else [])"

definition TrimSuffix :: "string \<Rightarrow> string \<Rightarrow> string" where
  "TrimSuffix s suf = (if HasSuffix s suf then take (length s - length suf) s else s)"

definition getFileName :: "string \<Rightarrow> string" where
  "getFileName filePath =
     (let file = Base filePath;
          file = TrimSuffix file (Ext file);
          file = TrimSuffix file (Ext file);
          file = TrimSuffix file (Ext file)
      in file)"

text \<open>
  \<open>ReceiveContainerSnapshots\<close> up to the extraction of the archive (lines 261 to
  273); the result is the extraction directory \<open>dest\<close>.
\<close>

definition receiveExtract :: "env \<Rightarrow> string \<Rightarrow> string \<Rightarrow> world \<Rightarrow> (string \<times> string) outcome" where
  "receiveExtract e container0 sourceFile0 w =
     (let container = TrimSpace container0 in
      andThen (checkArgument (container \<noteq> []) ''Invalid container name'' w) (\<lambda>_ w.
      let sourceFile = TrimSpace sourceFile0 in
      andThen (checkArgument (sourceFile \<noteq> []) ''Invalid path to snapshots file'' w) (\<lambda>_ w.
      andThen (if fs_FileExists w sourceFile then Return sourceFile w
               else andThen (checkState (fs_FileExists w (pathJoin [CacheDir (cfg e), sourceFile]))
                               (''File '' @ sourceFile @ '' not found'') w)
                      (\<lambda>_ w. Return (pathJoin [CacheDir (cfg e), sourceFile]) w))
        (\<lambda>sourceFile w.
      let dest = pathJoin [CacheDir (cfg e), getFileName sourceFile] in
      (case fs_Decompress e sourceFile dest w of (err, w1) \<Rightarrow>
         andThen (log_Check ErrorLevel ''Decompressing snapshots file'' err w1)
           (\<lambda>_ w. Return (container, dest) w))))))"

fun checkDeltas :: "string \<Rightarrow> string list \<Rightarrow> world \<Rightarrow> unit outcome" where
  "checkDeltas dest [] w = Return () w"
| "checkDeltas dest (partition' # partitions) w =
     andThen (checkState (fs_FileExists w (pathJoin [dest, partition' @ ''.delta'']))
                (''Snapshot file for partition '' @ partition' @ '' not found'') w)
       (\<lambda>_ w. checkDeltas dest partitions w)"

fun receiveDeltas :: "env \<Rightarrow> string \<Rightarrow> string \<Rightarrow> string list \<Rightarrow> world \<Rightarrow> unit outcome" where
  "receiveDeltas e container dest [] w = Return () w"
| "receiveDeltas e container dest (partition' # partitions) w =
     (case fs_ReceiveStream e (pathJoin [container, partition'])
             (pathJoin [dest, partition' @ ''.delta'']) True w of (err, w1) \<Rightarrow>
        andThen (log_Check ErrorLevel (''Receiving snapshots for partition '' @ partition') err w1)
          (\<lambda>_ w. receiveDeltas e container dest partitions w))"

text \<open>The rest of \<open>ReceiveContainerSnapshots\<close> (lines 275 to 299).\<close>

definition receiveInto :: "env \<Rightarrow> string \<Rightarrow> string \<Rightarrow> world \<Rightarrow> unit outcome" where
  "receiveInto e container dest w =
     andThen (checkDeltas dest ChildDatasets w) (\<lambda>_ w.
     andThen (checkState (fs_FileExists w (pathJoin [dest, ''config''])) ''Config file not found'' w)
       (\<lambda>_ w.
     let w = (if \<not> fs_DatasetExists w container then snd (fs_CreateDataset e container w) else w) in
     andThen (receiveDeltas e container dest ChildDatasets w) (\<lambda>_ w.
     (case fs_Copy e (pathJoin [dest, ''config''])
             (pathJoin [LxcPrefix (cfg e), container, ''config'']) w of (err, w1) \<Rightarrow>
        andThen (log_Check ErrorLevel ''Copying config file'' err w1) (\<lambda>_ w.
        (case os_RemoveAll e dest w of (err, w1) \<Rightarrow>
           andThen (log_Check WarnLevel ''Removing temporary directory'' err w1)
             (\<lambda>_ w. Return () w)))))))"

definition ReceiveContainerSnapshots :: "env \<Rightarrow> string \<Rightarrow> string \<Rightarrow> world \<Rightarrow> unit outcome" where
  "ReceiveContainerSnapshots e container sourceFile w =
     andThen (receiveExtract e container sourceFile w)
       (\<lambda>(container, dest) w. receiveInto e container dest w)"


section \<open>Fetching a template archive (package cli)\<close>

definition maxDownloadAttempts :: nat where
  "maxDownloadAttempts = 3"

definition wrappedTemplateSuffix :: string where
  "wrappedTemplateSuffix = ''.tar.gz''"

definition Md5DigestMethod :: string where
  "Md5DigestMethod = ''md5''"

definition Sha256DigestMethod :: string where
  "Sha256DigestMethod = ''sha256''"

text \<open>
  Modelled from the spec: \<open>fs.Md5Sum\<close> and \<open>fs.Sha256Sum\<close> (the digest primitives) are
  not among the sources: the digest of the bytes of a regular file, and an error with
  the empty digest for anything else.
\<close>

definition fs_Sha256Sum :: "env \<Rightarrow> world \<Rightarrow> string \<Rightarrow> string \<times> string option" where
  "fs_Sha256Sum e w filePath =
     (case files w filePath of Some (File c) \<Rightarrow> (sha256_fn e c, None)
      | _ \<Rightarrow> ([], Some ''cannot read file''))"

definition fs_Md5Sum :: "env \<Rightarrow> world \<Rightarrow> string \<Rightarrow> string \<times> string option" where
  "fs_Md5Sum e w filePath =
     (case files w filePath of Some (File c) \<Rightarrow> (md5_fn e c, None)
      | _ \<Rightarrow> ([], Some ''cannot read file''))"

text \<open>\<open>md5sum\<close> and \<open>sha256\<close> log a warning on an error and return the digest they got.\<close>

definition md5sum :: "env \<Rightarrow> world \<Rightarrow> string \<Rightarrow> string" where
  "md5sum e w filePath = fst (fs_Md5Sum e w filePath)"

definition sha256 :: "env \<Rightarrow> world \<Rightarrow> string \<Rightarrow> string" where
  "sha256 e w filePath = fst (fs_Sha256Sum e w filePath)"

definition verifyChecksum :: "env \<Rightarrow> world \<Rightarrow> Template \<Rightarrow> string \<Rightarrow> bool" where
  "verifyChecksum e w template filePath =
     (if DigestMethod template = Sha256DigestMethod
        then DigestHash template = sha256 e w filePath
      else if DigestMethod template = Md5DigestMethod
        then DigestHash template = md5sum e w filePath
      else False)"

definition isValidUrl :: "env \<Rightarrow> string \<Rightarrow> bool" where
  "isValidUrl e toTest = validUrl e toTest"

definition isWrappedTemplateUrl :: "string \<Rightarrow> bool" where
  "isWrappedTemplateUrl url = HasSuffix url wrappedTemplateSuffix"

definition getTemplateUrl :: "env \<Rightarrow> Template \<Rightarrow> world \<Rightarrow> string outcome" where
  "getTemplateUrl e template w =
     (let directUrl = replaceFirst ''{ID}'' (Id' template) (TemplateDownloadUrl (cfg e)) in
      andThen (log_Check ErrorLevel ''Parsing template url''
                 (if urlParses e directUrl then None else Some ''parse error'') w) (\<lambda>_ w.
      let wrappedUrl = urlWithPath e directUrl (Name template) @ wrappedTemplateSuffix in
      (case call e (EvHttpHead wrappedUrl) w of (err, w1) \<Rightarrow>
         andThen (log_Check ErrorLevel ''Checking wrapped template existence'' err w1) (\<lambda>_ w.
         if http_status e (trace w) wrappedUrl = 200 then Return wrappedUrl w
         else
           (case call e (EvHttpHead directUrl) w of (err, w1) \<Rightarrow>
              andThen (log_Check ErrorLevel ''Checking template existence'' err w1) (\<lambda>_ w.
              if http_status e (trace w) directUrl = 200 then Return directUrl w
              else log_Error ''Template not found'' w))))))"

text \<open>
  \<open>doDownload\<close>.  The request is prepared (\<open>grab.NewRequest\<close>), the transfer runs to
  its end (\<open>client.Do\<close> and the progress loop), and a successful transfer leaves
  the delivered bytes in the destination file.  A request that cannot be prepared is
  \<open>nil\<close>, and the argument \<open>req.URL()\<close> of the log line that follows panics on it
  before \<open>log.Check\<close> sees the error.  The value returned after a failed transfer is
  the variable \<open>err\<close> of the request, as written in the source.
\<close>

definition doDownload :: "env \<Rightarrow> Template \<Rightarrow> string \<Rightarrow> world \<Rightarrow> string option outcome" where
  "doDownload e template templateUrl w =
     (let templatePath = pathJoin [CacheDir (cfg e), Id' template];
          isWrapped = isWrappedTemplateUrl templateUrl;
          wrappedSuffix = (if isWrapped then ''_wrap'' else []) in
      (case call e (EvGrabRequest (templatePath @ wrappedSuffix) templateUrl) w of (err, w) \<Rightarrow>
       if err \<noteq> None then Panic w
       else
         (let w = log_Info (''Downloading '' @ Name template) w in
          (case call e (EvGrab (templatePath @ wrappedSuffix) templateUrl) w of (respErr, w1) \<Rightarrow>
           let w = (if respErr = None
                    then w1\<lparr>files := (files w1)(templatePath @ wrappedSuffix \<mapsto>
                                         remote e (trace w) templateUrl)\<rparr>
                    else w1) in
           if respErr \<noteq> None then Return err w
           else
             andThen (if isWrapped then
                        (case os_RemoveAll e templatePath w of (_, w) \<Rightarrow>
                         (case os_Rename e (templatePath @ wrappedSuffix) templatePath w of
                            (rerr, w) \<Rightarrow> log_Check ErrorLevel ''Renaming template'' rerr w))
                      else Return False w) (\<lambda>_ w.
             if \<not> verifyChecksum e w template templatePath
             then Return (Some ''File integrity verification failed'') w
             else Return None w)))))"

text \<open>The retry loop of \<open>downloadFromGateway\<close> (line 444), entered after the first attempt.\<close>

function downloadLoop ::
  "env \<Rightarrow> Template \<Rightarrow> string \<Rightarrow> string option \<Rightarrow> nat \<Rightarrow> world \<Rightarrow> string option outcome" where
  "downloadLoop e template templateUrl err attempts w =
     (if err \<noteq> None \<and> attempts < maxDownloadAttempts then
        andThen (doDownload e template templateUrl w)
          (\<lambda>err w. downloadLoop e template templateUrl err (attempts + 1) w)
      else Return err w)"
  by pat_completeness auto
termination
  by (relation "measure (\<lambda>(e, template, templateUrl, err, attempts, w).
        maxDownloadAttempts - attempts)") auto

definition downloadFromGateway :: "env \<Rightarrow> Template \<Rightarrow> world \<Rightarrow> unit outcome" where
  "downloadFromGateway e template w =
     andThen (getTemplateUrl e template w) (\<lambda>templateUrl w.
     andThen (doDownload e template templateUrl w) (\<lambda>err w.
     andThen (downloadLoop e template templateUrl err 1 w) (\<lambda>err w.
     andThen (log_Check ErrorLevel ''Download completed'' err w) (\<lambda>_ w. Return () w))))"

definition downloadViaLocalIPFSNode :: "env \<Rightarrow> Template \<Rightarrow> world \<Rightarrow> unit outcome" where
  "downloadViaLocalIPFSNode e template w =
     (case call e (EvIpfs [''refs'', ''local'', Id' template]) w of (err, w) \<Rightarrow>
      (case (if err \<noteq> None
             then call e (EvIpfs [''--timeout=600s'', ''dht'', ''findprovs'', ''-n1'', Id' template]) w
             else (err, w)) of (err, w) \<Rightarrow>
       if err \<noteq> None then log_Fatal ''Template not found in CDN network'' w
       else
         (let w = log_Info (''Downloading '' @ Name template) w;
              templatePath = pathJoin [CacheDir (cfg e), Id' template] in
          (case call e (EvIpfs [''get'', Id' template, ''-o'', templatePath]) w of (err, w1) \<Rightarrow>
           let w = (if err = None
                    then w1\<lparr>files := (files w1)(templatePath \<mapsto> remote e (trace w) (Id' template))
                            ++ map_of (map (\<lambda>(rel, body). (pathJoin [templatePath, rel], File body))
                                 (case remote e (trace w) (Id' template) of
                                    Dir \<Rightarrow> ipfs_dir e (trace w) (Id' template)
                                  | File c \<Rightarrow> []))\<rparr>
                    else w1) in
           andThen (log_Check FatalLevel ''Checking download status'' err w) (\<lambda>_ w.
           andThen (log_Check ErrorLevel ''Checking if file is directory''
                      (if fs_FileExists w templatePath then None else Some ''no such file'') w)
             (\<lambda>_ w.
           andThen (if fs_IsDir w templatePath then
                      (let archivePath = pathJoin [templatePath, Name template @ wrappedTemplateSuffix];
                           tmpPath = pathJoin [CacheDir (cfg e), Name template @ wrappedTemplateSuffix] in
                       (case os_RemoveAll e tmpPath w of (_, w) \<Rightarrow>
                        (case os_Rename e archivePath tmpPath w of (rerr, w) \<Rightarrow>
                         andThen (log_Check ErrorLevel
                                    ''Moving template archive out of wrapping directory'' rerr w)
                           (\<lambda>_ w.
                         (case os_RemoveAll e templatePath w of (_, w) \<Rightarrow>
                          (case os_Rename e tmpPath templatePath w of (rerr, w) \<Rightarrow>
                           log_Check ErrorLevel ''Restoring template archive path'' rerr w))))))
                    else Return False w) (\<lambda>_ w.
           if \<not> verifyChecksum e w template templatePath
           then log_Fatal ''File integrity verification failed'' w
           else Return () (snd (call e (EvIpfs [''pin'', ''add'', Id' template]) w)))))))))"

definition download :: "env \<Rightarrow> Template \<Rightarrow> world \<Rightarrow> unit outcome" where
  "download e template w =
     (if isValidUrl e (TemplateDownloadUrl (cfg e)) then downloadFromGateway e template w
      else downloadViaLocalIPFSNode e template w)"

declare downloadLoop.simps [simp del]

text \<open>How a run ended.\<close>

fun returned :: "'a outcome \<Rightarrow> bool" where
  "returned (Return x w) = True"
| "returned (Exit m w) = False"
| "returned (Panic w) = False"

fun exited :: "'a outcome \<Rightarrow> bool" where
  "exited (Return x w) = False"
| "exited (Exit m w) = True"
| "exited (Panic w) = False"

text \<open>The transfers of the download client among the events of a run.\<close>

fun isGrab :: "event \<Rightarrow> bool" where
  "isGrab (EvGrab dst url) = True"
| "isGrab ev = False"

text \<open>
  What the claims call "the computed digest equals the declared digest under the
  declared method", for the bytes that a download delivers (a directory has no bytes
  and the empty digest).
\<close>

definition digestMatches :: "env \<Rightarrow> Template \<Rightarrow> node \<Rightarrow> bool" where
  "digestMatches e template n =
     (let bytes_digest = (\<lambda>h. case n of File c \<Rightarrow> h c | Dir \<Rightarrow> []) in
      (DigestMethod template = Sha256DigestMethod \<and> DigestHash template = bytes_digest (sha256_fn e)) \<or>
      (DigestMethod template = Md5DigestMethod \<and> DigestHash template = bytes_digest (md5_fn e)))"

section \<open>Starting a container (package container)\<close>

text \<open>\<open>strings.Split(s, sep)\<close> for a one-byte separator, and the lines of \<open>bufio.Scanner\<close>.\<close>

fun splitOn :: "char \<Rightarrow> string \<Rightarrow> string list" where
  "splitOn sep [] = [[]]"
| "splitOn sep (c # cs) =
     (if c = sep then [] # splitOn sep cs
      else (case splitOn sep cs of [] \<Rightarrow> [[c]] | l # ls \<Rightarrow> (c # l) # ls))"

definition scanLines :: "string \<Rightarrow> string list" where
  "scanLines content =
     (let ls = splitOn (CHR 0x0A) content;
          ls = (if ls \<noteq> [] \<and> last ls = [] then butlast ls else ls)
      in map (\<lambda>l. if l \<noteq> [] \<and> last l = CHR 0x0D then butlast l else l) ls)"

definition firstField :: "string \<Rightarrow> string" where
  "firstField text = (case splitOn (CHR ''='') text of [] \<Rightarrow> [] | x # xs \<Rightarrow> x)"

definition settingLine :: "string list \<Rightarrow> string" where
  "settingLine c =
     (case c of
        k # v # rest \<Rightarrow> (if TrimSpace v \<noteq> [] then TrimSpace k @ '' = '' @ TrimSpace v @ [CHR 0x0A]
                          else [])
      | _ \<Rightarrow> [])"

text \<open>
  The inner loop of \<open>CreateContainerConf\<close>: the first setting that names the key of
  the line replaces the line and leaves the list.
\<close>

fun replaceSetting :: "string \<Rightarrow> string list list \<Rightarrow> (string \<times> string list list) option" where
  "replaceSetting text [] = None"
| "replaceSetting text (c # conf) =
     (if c \<noteq> [] \<and> TrimSpace (firstField text) = TrimSpace (hd c) then Some (settingLine c, conf)
      else map_option (\<lambda>(newline, conf'). (newline, c # conf')) (replaceSetting text conf))"

fun rewriteLines :: "string list \<Rightarrow> string list list \<Rightarrow> string \<times> string list list" where
  "rewriteLines [] conf = ([], conf)"
| "rewriteLines (text # rest) conf =
     (case replaceSetting text conf of
        None \<Rightarrow> (case rewriteLines rest conf of (newconf, conf') \<Rightarrow>
                   (text @ [CHR 0x0A] @ newconf, conf'))
      | Some (newline, conf1) \<Rightarrow> (case rewriteLines rest conf1 of (newconf, conf') \<Rightarrow>
                   (newline @ newconf, conf')))"

definition CreateContainerConf ::
  "env \<Rightarrow> string \<Rightarrow> string list list \<Rightarrow> world \<Rightarrow> string option outcome" where
  "CreateContainerConf e confPath conf w =
     (case call e (EvOpenFile confPath) w of
        (Some err, w) \<Rightarrow> Return (Some err) w
      | (None, w) \<Rightarrow>
          (let old = (case files w confPath of Some (File c) \<Rightarrow> c | _ \<Rightarrow> []) in
           (case rewriteLines (scanLines old) conf of (newconf, rest) \<Rightarrow>
            let newconf = newconf @ concat (map settingLine rest) in
            (case call e (EvWriteFile confPath) w of (err, w1) \<Rightarrow>
             let w = w1\<lparr>files := (files w1)(confPath \<mapsto> File (if err = None then newconf else old))\<rparr>
             in if majorVersion e < 3 then Return err w
                else andThen (log_Check ErrorLevel ''Failed to write config'' err w) (\<lambda>_ w.
                     (case call e (EvLxcUpdateConfig confPath) w of (uerr, w) \<Rightarrow> Return uerr w))))))"

definition SetContainerConf ::
  "env \<Rightarrow> string \<Rightarrow> string list list \<Rightarrow> world \<Rightarrow> string option outcome" where
  "SetContainerConf e container conf w =
     CreateContainerConf e (pathJoin [LxcPrefix (cfg e), container, ''config'']) conf w"

text \<open>
  Modelled from the spec: package \<open>db\<close> is not among the sources.  It is the
  persisted desired-state store with \<open>findByState\<close> and \<open>save\<close>, keyed by the
  container name; the spec gives the fetch a failure ("on fetch failure, treat the
  subset as empty") and the save none.
\<close>

definition db_FindContainers ::
  "env \<Rightarrow> string \<Rightarrow> world \<Rightarrow> (Container list \<times> string option) \<times> world" where
  "db_FindContainers e state w =
     (case call e (EvFindContainers state) w of
        (Some err, w1) \<Rightarrow> (([], Some err), w1)
      | (None, w1) \<Rightarrow> ((filter (\<lambda>c. State' c = state) (db w1), None), w1))"

definition db_FindContainerByName :: "world \<Rightarrow> string \<Rightarrow> Container option" where
  "db_FindContainerByName w name = find (\<lambda>c. Name' c = name) (db w)"

definition db_SaveContainer :: "Container \<Rightarrow> world \<Rightarrow> world" where
  "db_SaveContainer c w =
     (emit (EvSaveContainer (Name' c) (State' c)) w)
       \<lparr>db := (if \<exists>d \<in> set (db w). Name' d = Name' c
               then map (\<lambda>d. if Name' d = Name' c then c else d) (db w)
               else db w @ [c])\<rparr>"

text \<open>
  \<open>container.Start\<close>.  Modelled from the spec for go-lxc (the start primitive): the
  container object may not be created, and a start that does not fail leaves the
  container running.
\<close>

definition Start :: "env \<Rightarrow> string \<Rightarrow> world \<Rightarrow> string option outcome" where
  "Start e name w =
     (case call e (EvNewContainer name) w of
        (Some err, w) \<Rightarrow> Return (Some err) w
      | (None, w) \<Rightarrow>
          (case call e (EvStart name) w of (serr, w1) \<Rightarrow>
           let w = (if serr = None then w1\<lparr>cstate := (cstate w1)(name := Running)\<rparr> else w1) in
           if State w name \<noteq> Running then Return (Some (''Unable to start container '' @ name)) w
           else
             andThen (SetContainerConf e name [[''lxc.start.auto'', ''1'']] w) (\<lambda>_ w.
             (case db_FindContainerByName w name of
                Some v \<Rightarrow> Return None (db_SaveContainer (v\<lparr>State' := Running\<rparr>) w)
              | None \<Rightarrow> Return None w))))"

section \<open>The state supervisor (package container, \<open>doRestore\<close>)\<close>

definition getContainersSupposedToBeRunning :: "env \<Rightarrow> world \<Rightarrow> Container list \<times> world" where
  "getContainersSupposedToBeRunning e w =
     (case db_FindContainers e Running w of
        ((list, None), w) \<Rightarrow> (list, w)
      | ((list, Some err), w) \<Rightarrow> ([], w))"

text \<open>The retry loop of \<open>doRestore\<close> (lines 25 to 29).\<close>

function startRetry :: "env \<Rightarrow> string \<Rightarrow> nat \<Rightarrow> string option \<Rightarrow> world \<Rightarrow> string option outcome" where
  "startRetry e name i startErr w =
     (if i < 5 \<and> startErr \<noteq> None then
        andThen (Start e name (emit (EvSleep (5 + i)) w))
          (\<lambda>startErr w. startRetry e name (i + 1) startErr w)
      else Return startErr w)"
  by pat_completeness auto
termination
  by (relation "measure (\<lambda>(e, name, i, startErr, w). 5 - i)") auto

declare startRetry.simps [simp del]

text \<open>The body of the loop over the desired-running records (lines 22 to 35).\<close>

definition restoreContainer :: "env \<Rightarrow> Container \<Rightarrow> world \<Rightarrow> unit outcome" where
  "restoreContainer e v w =
     (if State w (Name' v) \<noteq> Running then
        andThen (Start e (Name' v) w) (\<lambda>startErr w.
        andThen (startRetry e (Name' v) 0 startErr w) (\<lambda>startErr w.
        if startErr \<noteq> None then Return () (db_SaveContainer (v\<lparr>State' := Stopped\<rparr>) w)
        else Return () w))
      else Return () w)"

fun restoreEach :: "env \<Rightarrow> Container list \<Rightarrow> world \<Rightarrow> unit outcome" where
  "restoreEach e [] w = Return () w"
| "restoreEach e (v # active) w =
     andThen (restoreContainer e v w) (\<lambda>_ w. restoreEach e active w)"

definition doRestore :: "env \<Rightarrow> world \<Rightarrow> unit outcome" where
  "doRestore e w =
     (case getContainersSupposedToBeRunning e w of (active, w) \<Rightarrow> restoreEach e active w)"

text \<open>
  \<open>StateRestore\<close> runs \<open>doRestore\<close> and sleeps 30 seconds, for ever; \<open>n\<close> rounds of it.
\<close>

fun StateRestore :: "nat \<Rightarrow> env \<Rightarrow> world \<Rightarrow> unit outcome" where
  "StateRestore 0 e w = Return () w"
| "StateRestore (Suc n) e w =
     andThen (doRestore e w) (\<lambda>_ w. StateRestore n e (emit (EvSleep 30) w))"

text \<open>
  A start attempt after the history \<open>tr\<close> fails: the container object cannot be
  created, or the start itself fails.  The events of the supervisor other than the
  two LXC calls of an attempt.
\<close>

definition startFails :: "env \<Rightarrow> event list \<Rightarrow> string \<Rightarrow> bool" where
  "startFails e tr name =
     (failure e tr (EvNewContainer name) \<noteq> None \<or>
      failure e (tr @ [EvNewContainer name]) (EvStart name) \<noteq> None)"

fun isLxcStart :: "event \<Rightarrow> bool" where
  "isLxcStart (EvStart name) = True"
| "isLxcStart ev = False"

fun startOf :: "string \<Rightarrow> event \<Rightarrow> bool" where
  "startOf name (EvNewContainer n) = (n = name)"
| "startOf name (EvStart n) = (n = name)"
| "startOf name ev = False"

definition desiredRunning :: "world \<Rightarrow> string \<Rightarrow> bool" where
  "desiredRunning w name = (\<exists>c \<in> set (db w). Name' c = name \<and> State' c = Running)"

text \<open>
  \<open>quiet name w w'\<close>: from \<open>w\<close> to \<open>w'\<close> no start of the container was attempted and
  its desired state is what it was.  \<open>view\<close>: the events of a run without the LXC
  start calls themselves.
\<close>

definition quiet :: "string \<Rightarrow> world \<Rightarrow> world \<Rightarrow> bool" where
  "quiet name w w' =
     (filter (startOf name) (trace w') = filter (startOf name) (trace w) \<and>
      (desiredRunning w' name = desiredRunning w name))"

definition view :: "event list \<Rightarrow> event list" where
  "view tr = filter (\<lambda>ev. \<not> isLxcStart ev) tr"

section \<open>Importing a template (package cli, \<open>LxcImport\<close>)\<close>

text \<open>\<open>strings.Split(s, sep)\<close> for a separator of several bytes.\<close>

function splitStr :: "string \<Rightarrow> string \<Rightarrow> string list" where
  "splitStr sep s =
     (if sep = [] \<or> s = [] then [s]
      else if take (length sep) s = sep then [] # splitStr sep (drop (length sep) s)
      else (case splitStr sep (tl s) of [] \<Rightarrow> [[hd s]] | l # ls \<Rightarrow> (hd s # l) # ls))"
  by pat_completeness auto
termination
  by (relation "measure (\<lambda>(sep, s). length s)") auto

declare splitStr.simps [simp del]

text \<open>
  The answer of the metadata service to one request, as both \<open>getTemplateInfoById\<close>
  and \<open>getTemplateInfoByName\<close> treat it (lines 107 to 139 and 157 to 189).  A
  failure to read the body ends the process like a failed request; it is part of the
  failure of the request here.
\<close>

definition fetchTemplateInfo :: "env \<Rightarrow> Template \<Rightarrow> string \<Rightarrow> world \<Rightarrow> Template outcome" where
  "fetchTemplateInfo e t theUrl w =
     (case call e (EvHttpGet theUrl) w of (err, w) \<Rightarrow>
      andThen (log_Check ErrorLevel (''Retrieving template info, get: '' @ theUrl) err w) (\<lambda>_ w.
      if http_status e (trace w) theUrl = 404
        then log_Error (''Template '' @ Name t @ '' not found'') w
      else if http_status e (trace w) theUrl \<noteq> 200
        then log_Error ''Failed to get template info:  '' w
      else
        (case http_body e (trace w) theUrl of
           None \<Rightarrow> log_Error ''Failed to parse template info'' w
         | Some templ \<Rightarrow>
             Return (t\<lparr>Name := Name templ, Owner := Owner templ, Version := Version templ,
                       Id' := Id' templ, MD5 := MD5 templ, Parent := Parent templ,
                       Size := Size templ, DigestMethod := DigestMethod templ,
                       DigestHash := DigestHash templ\<rparr>) w)))"

definition getTemplateInfoById :: "env \<Rightarrow> Template \<Rightarrow> string \<Rightarrow> world \<Rightarrow> Template outcome" where
  "getTemplateInfoById e t id' w =
     fetchTemplateInfo e t (CdnUrl (cfg e) @ ''/template?id='' @ id') w"

definition getTemplateInfoByName ::
  "env \<Rightarrow> Template \<Rightarrow> string \<Rightarrow> string \<Rightarrow> string \<Rightarrow> world \<Rightarrow> Template outcome" where
  "getTemplateInfoByName e t name owner version w =
     (let theUrl = CdnUrl (cfg e) @ ''/template?name='' @ name;
          theUrl = (if owner \<noteq> [] then theUrl @ ''&owner='' @ owner else theUrl);
          theUrl = (if version = [] then theUrl @ ''&version=latest''
                    else theUrl @ ''&version='' @ version)
      in fetchTemplateInfo e t theUrl w)"

definition emptyTemplate :: Template where
  "emptyTemplate = \<lparr>Id' = [], Name = [], Owner = [], Version = [], MD5 = [], DigestMethod = [],
                     DigestHash = [], Parent = [], Size = 0, FullRef = [], PrefSize = []\<rparr>"

definition getTemplateInfo :: "env \<Rightarrow> string \<Rightarrow> world \<Rightarrow> Template outcome" where
  "getTemplateInfo e template w =
     (let t = emptyTemplate; id' = splitStr ''id:'' template in
      if length id' > 1 then getTemplateInfoById e t (id' ! 1) w
      else
        (case rxNameOwnerVersion e template of
           Some (name, owner, version) \<Rightarrow> getTemplateInfoByName e t name owner version w
         | None \<Rightarrow>
             (case rxNameOwner e template of
                Some (name, owner) \<Rightarrow> getTemplateInfoByName e t name owner [] w
              | None \<Rightarrow>
                  (case rxName e template of
                     Some name \<Rightarrow> getTemplateInfoByName e t name [] [] w
                   | None \<Rightarrow> log_Error (''Invalid template name '' @ template) w))))"

text \<open>
  \<open>container.GetConfigItem\<close>: the value of the first line whose key is \<open>item\<close>.
  \<open>None\<close> is the panic of \<open>line[1]\<close> on such a line without an equals sign.
\<close>

definition trimSpaces :: "string \<Rightarrow> string" where
  "trimSpaces s =
     rev (dropWhile (\<lambda>c. c = CHR '' '') (rev (dropWhile (\<lambda>c. c = CHR '' '') s)))"

fun configItem :: "string list \<Rightarrow> string \<Rightarrow> string option" where
  "configItem [] item = Some []"
| "configItem (text # rest) item =
     (case splitOn (CHR ''='') text of
        [] \<Rightarrow> configItem rest item
      | k # vals \<Rightarrow>
          (if trimSpaces k = item then
             (case vals of [] \<Rightarrow> None | v # others \<Rightarrow> Some (trimSpaces v))
           else configItem rest item))"

definition GetConfigItem :: "world \<Rightarrow> string \<Rightarrow> string \<Rightarrow> string option" where
  "GetConfigItem w path item =
     (case files w path of
        Some (File c) \<Rightarrow> configItem (scanLines c) item
      | _ \<Rightarrow> Some [])"

definition getItem :: "world \<Rightarrow> string \<Rightarrow> string \<Rightarrow> string outcome" where
  "getItem w path item = (case GetConfigItem w path item of None \<Rightarrow> Panic w | Some v \<Rightarrow> Return v w)"

text \<open>
  Modelled from the spec: \<open>common.LockFile\<close> is not among the sources.  It is one
  attempt to take the InstallLock \<open>(reference, operation)\<close>; the callers poll it once a
  second until it succeeds.  The poll loop may run for ever; it is given fuel.
\<close>

fun lockLoop :: "nat \<Rightarrow> env \<Rightarrow> string \<Rightarrow> string \<Rightarrow> world \<Rightarrow> world option" where
  "lockLoop 0 e name operation w = None"
| "lockLoop (Suc n) e name operation w =
     (case call e (EvLock name operation) w of
        (None, w) \<Rightarrow> Some w
      | (Some err, w) \<Rightarrow> lockLoop n e name operation (emit (EvSleep 1) w))"

text \<open>\<open>container.Destroy\<close>; the loops over the listed snapshots and over the partitions.\<close>

fun destroySnapshots ::
  "env \<Rightarrow> bool \<Rightarrow> string list \<Rightarrow> string option \<Rightarrow> world \<Rightarrow> (string option \<times> bool) \<times> world" where
  "destroySnapshots e silent [] err w = ((err, False), w)"
| "destroySnapshots e silent (line # lines) err w =
     (let snapshot = TrimSpace (TrimPrefix line (Dataset (cfg e))) in
      if snapshot \<noteq> [] then
        (case fs_RemoveDataset e snapshot False w of (err, w) \<Rightarrow>
         if \<not> silent \<and> err \<noteq> None then ((err, True), w)
         else destroySnapshots e silent lines err w)
      else destroySnapshots e silent lines err w)"

fun destroyChildren ::
  "env \<Rightarrow> bool \<Rightarrow> string \<Rightarrow> string list \<Rightarrow> string option \<Rightarrow> world \<Rightarrow> (string option \<times> bool) \<times> world"
  where
  "destroyChildren e silent name [] err w = ((err, False), w)"
| "destroyChildren e silent name (dataset # rest) err w =
     (let childDataset = pathJoin [name, dataset] in
      if fs_DatasetExists w childDataset then
        (case fs_RemoveDataset e childDataset False w of (err, w) \<Rightarrow>
         if \<not> silent \<and> err \<noteq> None then ((err, True), w)
         else destroyChildren e silent name rest err w)
      else destroyChildren e silent name rest err w)"

text \<open>
  The result of the two loops carries a flag: the loop returned from \<open>Destroy\<close> with
  the error.
\<close>

definition destroyLocked :: "env \<Rightarrow> string \<Rightarrow> bool \<Rightarrow> world \<Rightarrow> string option \<times> world" where
  "destroyLocked e name silent w =
     (case fs_ListSnapshotNamesOnly e name w of ((out, err), w) \<Rightarrow>
      if \<not> silent \<and> err \<noteq> None then (err, w)
      else
        (case destroySnapshots e silent (splitLines out) err w of
           ((err, True), w) \<Rightarrow> (err, w)
         | ((err, False), w) \<Rightarrow>
             (case destroyChildren e silent name ChildDatasets err w of
                ((err, True), w) \<Rightarrow> (err, w)
              | ((err, False), w) \<Rightarrow>
                  (if fs_DatasetExists w name then fs_RemoveDataset e name False w
                   else (err, w)))))"

definition Destroy :: "nat \<Rightarrow> env \<Rightarrow> string \<Rightarrow> bool \<Rightarrow> world \<Rightarrow> (string option \<times> world) option" where
  "Destroy fuel e name silent w =
     (case lockLoop fuel e ''lxc'' ''destroy'' w of
        None \<Rightarrow> None
      | Some w \<Rightarrow>
          (case destroyLocked e name silent w of (err, w) \<Rightarrow>
             Some (err, emit (EvUnlock ''lxc'' ''destroy'') w)))"

text \<open>\<open>install\<close>: the steps in order, each returning its error at once.\<close>

fun steps :: "(world \<Rightarrow> string option \<times> world) list \<Rightarrow> world \<Rightarrow> string option \<times> world" where
  "steps [] w = (None, w)"
| "steps (step # rest) w =
     (case step w of (Some err, w) \<Rightarrow> (Some err, w) | (None, w) \<Rightarrow> steps rest w)"

definition install :: "env \<Rightarrow> string \<Rightarrow> world \<Rightarrow> string option \<times> world" where
  "install e templateName w =
     (let pathToDecompressedTemplate = pathJoin [CacheDir (cfg e), templateName] in
      steps
        [fs_CreateDataset e templateName,
         fs_ReceiveStream e (templateName @ ''/rootfs'')
           (pathJoin [pathToDecompressedTemplate, ''deltas'', ''rootfs.delta'']) False,
         fs_ReceiveStream e (templateName @ ''/home'')
           (pathJoin [pathToDecompressedTemplate, ''deltas'', ''home.delta'']) False,
         fs_ReceiveStream e (templateName @ ''/var'')
           (pathJoin [pathToDecompressedTemplate, ''deltas'', ''var.delta'']) False,
         fs_ReceiveStream e (templateName @ ''/opt'')
           (pathJoin [pathToDecompressedTemplate, ''deltas'', ''opt.delta'']) False,
         fs_SetDatasetReadOnly e (templateName @ ''/rootfs''),
         fs_SetDatasetReadOnly e (templateName @ ''/home''),
         fs_SetDatasetReadOnly e (templateName @ ''/var''),
         fs_SetDatasetReadOnly e (templateName @ ''/opt''),
         fs_Copy e (pathJoin [pathToDecompressedTemplate, ''config''])
           (pathJoin [LxcPrefix (cfg e), templateName, ''config''])] w)"

definition updateContainerConfig :: "env \<Rightarrow> string \<Rightarrow> world \<Rightarrow> string option outcome" where
  "updateContainerConfig e templateName w =
     SetContainerConf e templateName
       [[if majorVersion e < 3 then ''lxc.rootfs'' else ''lxc.rootfs.path'',
         (if majorVersion e < 3 then [] else ''zfs:'') @
           pathJoin [LxcPrefix (cfg e), templateName, ''rootfs'']],
        [''lxc.mount.entry'',
         pathJoin [LxcPrefix (cfg e), templateName, ''home''] @ '' home none bind,rw 0 0''],
        [''lxc.mount.entry'',
         pathJoin [LxcPrefix (cfg e), templateName, ''opt''] @ '' opt none bind,rw 0 0''],
        [''lxc.mount.entry'',
         pathJoin [LxcPrefix (cfg e), templateName, ''var''] @ '' var none bind,rw 0 0'']] w"

text \<open>
  \<open>initManagement\<close> and \<open>gpg.ExchangeAndEncrypt\<close> are the bootstrap of the
  management container, an external hook in the spec.  They are abstracted here, one
  event each: of \<open>initManagement\<close> (lines 656 to 700: the clone of the template, the
  configuration, keys and network of the container, its start, the proxy rules, the
  record in the store and five log lines) only its place in the import and its exit
  on a failure are kept.  The theorems on what an import installs are about templates
  other than the management template.
\<close>

definition initManagement :: "env \<Rightarrow> string \<Rightarrow> world \<Rightarrow> unit outcome" where
  "initManagement e templateRef w =
     (case call e (EvInitManagement templateRef) w of (err, w) \<Rightarrow>
      andThen (log_Check ErrorLevel ''Writing container data to database'' err w)
        (\<lambda>_ w. Return () w))"

text \<open>
  \<open>LxcImport\<close> in four parts.  Lines 262 to 283: the template, its reference and
  the path of its archive, for a remote and for a local import.
\<close>

definition importResolve ::
  "env \<Rightarrow> string \<Rightarrow> world \<Rightarrow> (Template \<times> string \<times> string \<times> bool) outcome" where
  "importResolve e name w =
     (let local = fs_FileExists w name in
      andThen (if \<not> local then
                 andThen (getTemplateInfo e name w) (\<lambda>t w.
                   Return (t, Join [Name t, Owner t, Version t] '':'',
                           pathJoin [CacheDir (cfg e), Id' t]) w)
               else
                 (let t = emptyTemplate\<lparr>Name := Base name\<rparr> in
                  Return (t, ''tmpl_'' @ Name t, name) w))
        (\<lambda>(t, templateRef, localArchive) w.
           Return (t, templateRef, localArchive, local) (log_Info (''Importing '' @ Name t) w)))"

text \<open>
  Lines 302 to 356: the archive from the cache or by download, its extraction, the
  reference of a local template, the check that the template is not there yet, and
  the reference of the parent.  The result is the reference, the extraction
  directory and the parent's reference.
\<close>

definition importFetch ::
  "env \<Rightarrow> Template \<Rightarrow> string \<Rightarrow> string \<Rightarrow> bool \<Rightarrow> world \<Rightarrow> (string \<times> string \<times> string) outcome"
  where
  "importFetch e t templateRef localArchive local w =
     (let archiveExists = fs_FileExists w localArchive;
          archiveExists = (if archiveExists \<and> \<not> local \<and> \<not> verifyChecksum e w t localArchive
                           then False else archiveExists) in
      andThen (if \<not> archiveExists then download e t w else Return () w) (\<lambda>_ w.
      let w = log_Info (''Unpacking template '' @ Name t) w;
          extractDir = pathJoin [CacheDir (cfg e), templateRef] in
      (case fs_Decompress e localArchive extractDir w of (err, w) \<Rightarrow>
       andThen (log_Check FatalLevel ''Extracting tgz'' err w) (\<lambda>_ w.
       andThen (getItem w (extractDir @ ''/config'') ''subutai.template'') (\<lambda>templateName w.
       andThen (getItem w (extractDir @ ''/config'') ''subutai.template.owner'') (\<lambda>templateOwner w.
       andThen (getItem w (extractDir @ ''/config'') ''subutai.template.version'')
         (\<lambda>templateVersion w.
       andThen (if local then
                  (let templateRef = Join [templateName, templateOwner, templateVersion] '':'' in
                   (case os_Rename e extractDir (pathJoin [CacheDir (cfg e), templateRef]) w of
                      (err, w) \<Rightarrow>
                        andThen (log_Check ErrorLevel ''Renaming template'' err w) (\<lambda>_ w.
                          Return (templateRef, pathJoin [CacheDir (cfg e), templateRef]) w)))
                else Return (templateRef, extractDir) w) (\<lambda>(templateRef, extractDir) w.
       andThen (if IsTemplate w templateRef then
                  (case os_RemoveAll e extractDir w of (err, w) \<Rightarrow>
                     log_Error (templateRef @ '' exists'') w)
                else Return () w) (\<lambda>_ w.
       andThen (getItem w (extractDir @ ''/config'') ''subutai.parent'') (\<lambda>parent w.
       andThen (getItem w (extractDir @ ''/config'') ''subutai.parent.owner'') (\<lambda>parentOwner w.
       andThen (getItem w (extractDir @ ''/config'') ''subutai.parent.version'')
         (\<lambda>parentVersion w.
       Return (templateRef, extractDir, Join [parent, parentOwner, parentVersion] '':'') w
       ))))))))))))"

text \<open>
  Lines 364 to 386: the dataset under the reference is destroyed if there is one, the
  template is installed (the error of \<open>install\<close> is dropped), the extraction directory
  and a downloaded archive are removed, and the container configuration is written.
\<close>

definition importInstall ::
  "nat \<Rightarrow> env \<Rightarrow> Template \<Rightarrow> string \<Rightarrow> string \<Rightarrow> string \<Rightarrow> bool \<Rightarrow> world \<Rightarrow> unit outcome option"
  where
  "importInstall fuel e t templateRef extractDir localArchive local w =
     (let w = log_Info (''Installing template '' @ Name t) w in
      bindO (if fs_DatasetExists w templateRef
             then map_option (\<lambda>(err, w). Return () w) (Destroy fuel e templateRef True w)
             else Some (Return () w)) (\<lambda>_ w.
      let w = snd (install e templateRef w);
          w = snd (os_RemoveAll e extractDir w);
          w = (if \<not> local then snd (os_Remove e localArchive w) else w) in
      if Name t = Management then Some (initManagement e templateRef w)
      else
        Some (andThen (updateContainerConfig e templateRef w) (\<lambda>err w.
              andThen (log_Check ErrorLevel ''Setting lxc config'' err w)
                (\<lambda>_ w. Return () w)))))"

text \<open>
  The whole of \<open>LxcImport\<close>: the guards of lines 253 to 260, the lock and the deferred
  unlock, the short cut for an instance that exists, and the import of the parent
  before the installation.  The fuel bounds the polls of the lock loops and the depth
  of the recursion into parents; \<open>None\<close> is a run that has not ended within it.
\<close>

fun LxcImport ::
  "nat \<Rightarrow> env \<Rightarrow> string \<Rightarrow> string \<Rightarrow> string list \<Rightarrow> world \<Rightarrow> unit outcome option" where
  "LxcImport 0 e name token auxDepList w = None"
| "LxcImport (Suc fuel) e name token auxDepList w =
     (if \<not> fs_DatasetExists w [] then Some (log_Fatal ''Root dataset not mounted'' w)
      else if LxcInstanceExists w name \<and> name = Management \<and> length token > 1
        then Some (Return () (emit (EvGpgExchange Management token) w))
      else
        bindO (Some (importResolve e name w)) (\<lambda>(t, templateRef, localArchive, local) w.
        bindO (map_option (Return ()) (lockLoop fuel e templateRef ''import'' w)) (\<lambda>_ w.
        map_option (deferred (emit (EvUnlock templateRef ''import'')))
          (if LxcInstanceExists w templateRef then
             (if Name t = Management \<and> \<not> IsContainer w Management
              then Some (initManagement e templateRef w)
              else Some (Return () (log_Info (Name t @ '' instance exists'') w)))
           else
             bindO (Some (importFetch e t templateRef localArchive local w))
               (\<lambda>(templateRef, extractDir, parentRef) w.
             bindO (if parentRef \<noteq> templateRef \<and> \<not> IsTemplate w parentRef \<and>
                       \<not> stringInList parentRef auxDepList
                    then LxcImport fuel e parentRef token (auxDepList @ [parentRef, templateRef])
                           (log_Info (''Parent template required: '' @ parentRef) w)
                    else Some (Return () w)) (\<lambda>_ w.
             importInstall fuel e t templateRef extractDir localArchive local w))))))"

text \<open>
  The network calls and the dataset-mutating calls among the events, and the events
  of an import that finds its reference installed.
\<close>

fun isNetwork :: "event \<Rightarrow> bool" where
  "isNetwork (EvHttpGet url) = True"
| "isNetwork (EvHttpHead url) = True"
| "isNetwork (EvGrab dst url) = True"
| "isNetwork (EvIpfs args) = True"
| "isNetwork ev = False"

fun isDatasetCall :: "event \<Rightarrow> bool" where
  "isDatasetCall (EvCreateDataset d) = True"
| "isDatasetCall (EvRemoveDataset d r) = True"
| "isDatasetCall (EvReceiveStream d f a) = True"
| "isDatasetCall (EvSetDatasetReadOnly d) = True"
| "isDatasetCall (EvRollback d f) = True"
| "isDatasetCall ev = False"

definition shortCut :: "string \<Rightarrow> Template \<Rightarrow> event list" where
  "shortCut url t =
     [EvHttpGet url, EvInfo (''Importing '' @ Name t),
      EvLock (Join [Name t, Owner t, Version t] '':'') ''import'',
      EvInfo (Name t @ '' instance exists''),
      EvUnlock (Join [Name t, Owner t, Version t] '':'') ''import'']"

text \<open>\<open>grows w w'\<close>: the trace of \<open>w'\<close> continues the trace of \<open>w\<close>.\<close>

definition grows :: "world \<Rightarrow> world \<Rightarrow> bool" where
  "grows w w' = (\<exists>evs. trace w' = trace w @ evs)"

text \<open>The same for a run that may not end within its fuel.\<close>

definition growsO :: "world \<Rightarrow> 'a outcome option \<Rightarrow> bool" where
  "growsO w0 m = (\<forall>r. m = Some r \<longrightarrow> grows w0 (final r))"

text \<open>The extraction of an archive among the events.\<close>

fun isDecompress :: "event \<Rightarrow> bool" where
  "isDecompress (EvDecompress src dst) = True"
| "isDecompress ev = False"

text \<open>
  A step that leaves the datasets, the read-only flags and the container registry as
  they are and adds no event of a given kind to the trace.
\<close>

definition same :: "(event \<Rightarrow> bool) \<Rightarrow> world \<Rightarrow> world \<Rightarrow> bool" where
  "same P w0 w =
     (filter P (trace w) = filter P (trace w0) \<and> datasets w = datasets w0 \<and>
      readonly w = readonly w0 \<and> lxc w = lxc w0)"

text \<open>
  The milestones of an import: taking and releasing the import lock of a reference,
  and creating its dataset.
\<close>

fun isMilestone :: "event \<Rightarrow> bool" where
  "isMilestone (EvCreateDataset d) = True"
| "isMilestone (EvLock n operation) = (operation = ''import'')"
| "isMilestone (EvUnlock n operation) = (operation = ''import'')"
| "isMilestone ev = False"

text \<open>
  The events that concern one container: the two LXC calls of a start attempt and
  the saving of its record.  \<open>apart name w w'\<close>: from \<open>w\<close> to \<open>w'\<close> the trace grew by
  events that do not concern the container, and its actual and its desired state
  are what they were.
\<close>

fun concerns :: "string \<Rightarrow> event \<Rightarrow> bool" where
  "concerns name (EvNewContainer n) = (n = name)"
| "concerns name (EvStart n) = (n = name)"
| "concerns name (EvSaveContainer n s) = (n = name)"
| "concerns name ev = False"

definition apart :: "string \<Rightarrow> world \<Rightarrow> world \<Rightarrow> bool" where
  "apart name w w' =
     ((\<exists>evs. trace w' = trace w @ evs \<and> (\<forall>ev \<in> set evs. \<not> concerns name ev)) \<and>
      cstate w' name = cstate w name \<and>
      (desiredRunning w' name = desiredRunning w name))"

section \<open>Concrete hosts\<close>

text \<open>A configuration, an environment in which no external call fails, and an empty host.\<close>

definition cfg0 :: config where
  "cfg0 = \<lparr>CacheDir = ''/cache'', LxcPrefix = ''/lxc'', Dataset = ''pool/'', CdnUrl = ''cdn'',
           TemplateDownloadUrl = ''gw/{ID}'', IpfsPath = ''/ipfs''\<rparr>"

definition env0 :: env where
  "env0 = \<lparr>cfg = cfg0, failure = (\<lambda>tr ev. None), http_status = (\<lambda>tr url. 404),
           http_body = (\<lambda>tr url. None), remote = (\<lambda>tr url. Dir), untar = (\<lambda>c. []),
           sha256_fn = (\<lambda>c. c), md5_fn = (\<lambda>c. c),
           rxNameOwnerVersion = (\<lambda>s. None), rxNameOwner = (\<lambda>s. None), rxName = (\<lambda>s. None),
           ipfs_dir = (\<lambda>tr i. []), validUrl = (\<lambda>s. True), urlParses = (\<lambda>s. True),
           urlWithPath = (\<lambda>u p. u @ ''/'' @ p), majorVersion = 3\<rparr>"

definition world0 :: world where
  "world0 = \<lparr>datasets = [[]], readonly = [], files = Map.empty, lxc = [],
             cstate = (\<lambda>n. Stopped), db = [], trace = []\<rparr>"

text \<open>
  A container \<open>c\<close> with a snapshot \<open>c@l1\<close> of its parent dataset only, as
  \<open>CreateSnapshot c config l1\<close> leaves it, and the same container without it.
\<close>

definition rollbackWorld :: world where
  "rollbackWorld = world0\<lparr>datasets := [[], ''c'', ''c/rootfs'', ''c@l1'']\<rparr>"

definition plainWorld :: world where
  "plainWorld = world0\<lparr>datasets := [[], ''c'', ''c/rootfs'']\<rparr>"

text \<open>
  Scenario D of the spec: a bundle without \<open>var.delta\<close>, to be received into
  \<open>web1\<close>.
\<close>

definition bundleEnv :: env where
  "bundleEnv = env0\<lparr>untar := (\<lambda>c. if c = ''bundle'' then
       [(''rootfs.delta'', ''r''), (''home.delta'', ''h''), (''opt.delta'', ''o''),
        (''config'', ''k'')] else [])\<rparr>"

definition bundleWorld :: world where
  "bundleWorld = world0\<lparr>files := [''/bundle.tar.gz'' \<mapsto> File ''bundle'']\<rparr>"

text \<open>
  A template with a declared SHA-256 digest; a gateway whose transfers all fail, on a
  host whose cache holds a stale archive; a gateway that always delivers bytes with
  another digest.
\<close>

definition tmpl0 :: Template where
  "tmpl0 = \<lparr>Id' = ''id1'', Name = ''base'', Owner = ''pub'', Version = ''1.0.0'', MD5 = [],
            DigestMethod = ''sha256'', DigestHash = ''good'', Parent = [], Size = 4,
            FullRef = [], PrefSize = []\<rparr>"

definition brokenTransferEnv :: env where
  "brokenTransferEnv = env0\<lparr>failure := (\<lambda>tr ev. if isGrab ev then Some ''connection reset'' else None),
       http_status := (\<lambda>tr url. 200)\<rparr>"

definition staleWorld :: world where
  "staleWorld = world0\<lparr>files := [''/cache/id1'' \<mapsto> File ''stale'']\<rparr>"

definition corruptEnv :: env where
  "corruptEnv = env0\<lparr>remote := (\<lambda>tr url. File ''bad''), http_status := (\<lambda>tr url. 200)\<rparr>"


text \<open>A container that is to run, does not run, and cannot be started.\<close>

definition web1 :: Container where
  "web1 = \<lparr>Name' = ''web1'', State' = Running, Ip = ''10.0.0.2''\<rparr>"

definition deadStartEnv :: env where
  "deadStartEnv = env0\<lparr>failure := (\<lambda>tr ev. if isLxcStart ev then Some ''start failed'' else None)\<rparr>"

definition supervisedWorld :: world where
  "supervisedWorld = world0\<lparr>db := [web1]\<rparr>"

text \<open>
  A metadata service that knows the template \<open>base\<close>, and a host on which it is
  installed.
\<close>

definition baseEnv :: env where
  "baseEnv = env0\<lparr>http_status := (\<lambda>tr url. 200), http_body := (\<lambda>tr url. Some tmpl0),
       rxName := (\<lambda>s. Some s)\<rparr>"

definition installedWorld :: world where
  "installedWorld = world0\<lparr>
     datasets := [[], ''base:pub:1.0.0'', ''base:pub:1.0.0/rootfs'', ''base:pub:1.0.0/home'',
                  ''base:pub:1.0.0/var'', ''base:pub:1.0.0/opt''],
     readonly := [''base:pub:1.0.0/rootfs'', ''base:pub:1.0.0/home'', ''base:pub:1.0.0/var'',
                  ''base:pub:1.0.0/opt''],
     lxc := [''base:pub:1.0.0'']\<rparr>"

text \<open>
  The same metadata service on a host whose cache holds the verified archive of
  \<open>base\<close>, which cannot be extracted.
\<close>

definition brokenArchiveEnv :: env where
  "brokenArchiveEnv = baseEnv\<lparr>failure := (\<lambda>tr ev. if isDecompress ev then Some ''unexpected EOF'' else None)\<rparr>"

definition cachedWorld :: world where
  "cachedWorld = world0\<lparr>files := [''/cache/id1'' \<mapsto> File ''good'']\<rparr>"

text \<open>
  Three templates \<open>c\<close>, \<open>b\<close> and \<open>a\<close> of the owner \<open>pub\<close>: the configuration file in
  the archive of a template names the template and its parent.  The metadata service
  knows the three, the reference syntax is \<open>name:owner:version\<close>, and the archive of
  a template unpacks to its configuration file.  \<open>chainHost fl\<close> is such a host with
  the failures \<open>fl\<close> of its external calls.
\<close>

definition chainConfig :: "string \<Rightarrow> string \<Rightarrow> string" where
  "chainConfig n p =
     ''subutai.template = '' @ n @ [CHR 0x0A] @
     ''subutai.template.owner = pub'' @ [CHR 0x0A] @
     ''subutai.template.version = 1.0.0'' @ [CHR 0x0A] @
     ''subutai.parent = '' @ p @ [CHR 0x0A] @
     ''subutai.parent.owner = pub'' @ [CHR 0x0A] @
     ''subutai.parent.version = 1.0.0'' @ [CHR 0x0A]"

definition chainTemplate :: "string \<Rightarrow> Template" where
  "chainTemplate n = \<lparr>Id' = ''id-'' @ n, Name = n, Owner = ''pub'', Version = ''1.0.0'', MD5 = [],
       DigestMethod = ''sha256'', DigestHash = ''archive of '' @ n, Parent = [], Size = 0,
       FullRef = [], PrefSize = []\<rparr>"

definition chainBody :: "string \<Rightarrow> Template option" where
  "chainBody url =
     (if url = ''cdn/template?name=c&version=latest'' then Some (chainTemplate ''c'')
      else if url = ''cdn/template?name=b&owner=pub&version=1.0.0'' then Some (chainTemplate ''b'')
      else if url = ''cdn/template?name=a&owner=pub&version=1.0.0'' then Some (chainTemplate ''a'')
      else None)"

definition chainUntar :: "string \<Rightarrow> (string \<times> string) list" where
  "chainUntar c =
     (if c = ''archive of c'' then [(''config'', chainConfig ''c'' ''b'')]
      else if c = ''archive of b'' then [(''config'', chainConfig ''b'' ''a'')]
      else if c = ''archive of a'' then [(''config'', chainConfig ''a'' ''a'')]
      else [])"

definition chainRef :: "string \<Rightarrow> (string \<times> string \<times> string) option" where
  "chainRef s = (case splitOn (CHR '':'') s of [n, ow, v] \<Rightarrow> Some (n, ow, v) | _ \<Rightarrow> None)"

definition chainName :: "string \<Rightarrow> string option" where
  "chainName s = (if CHR '':'' \<in> set s then None else Some s)"

definition chainHost :: "(event list \<Rightarrow> event \<Rightarrow> string option) \<Rightarrow> env" where
  "chainHost fl = env0\<lparr>failure := fl, http_status := (\<lambda>tr url. 200),
       http_body := (\<lambda>tr url. chainBody url), untar := chainUntar,
       rxNameOwnerVersion := chainRef, rxName := chainName\<rparr>"

definition chainEnv :: env where
  "chainEnv = chainHost (\<lambda>tr ev. None)"

text \<open>
  A host whose cache holds the three archives, and what the imports of the chain need
  of the files of a host: no file is named like one of the three imports, and the
  three archives are in the cache.
\<close>

definition chainWorld :: world where
  "chainWorld = world0\<lparr>files := [''/cache/id-c'' \<mapsto> File ''archive of c'',
       ''/cache/id-b'' \<mapsto> File ''archive of b'', ''/cache/id-a'' \<mapsto> File ''archive of a'']\<rparr>"

definition chainFiles :: "(string \<rightharpoonup> node) \<Rightarrow> bool" where
  "chainFiles fs =
     (fs ''c'' = None \<and> fs ''b:pub:1.0.0'' = None \<and> fs ''a:pub:1.0.0'' = None \<and>
      fs ''/cache/id-c'' = Some (File ''archive of c'') \<and>
      fs ''/cache/id-b'' = Some (File ''archive of b'') \<and>
      fs ''/cache/id-a'' = Some (File ''archive of a''))"

text \<open>
  The same host with a dataset layer on which every call fails, and with the datasets
  that an interrupted installation of \<open>a\<close> left behind.
\<close>

definition stuckEnv :: env where
  "stuckEnv = chainHost (\<lambda>tr ev. if isDatasetCall ev then Some ''dataset is busy'' else None)"

definition leftoverWorld :: world where
  "leftoverWorld = chainWorld\<lparr>datasets := [[], ''a:pub:1.0.0'', ''a:pub:1.0.0/rootfs'']\<rparr>"


section \<open>Partition names\<close>

lemma partitionFound_set: "partitionFound vols p = (p \<in> set vols)"
  by (induction vols) auto

text \<open>
  C8. \<open>checkPartitionName\<close> returns exactly on the six names \<open>rootfs\<close>, \<open>home\<close>, \<open>var\<close>,
  \<open>opt\<close>, \<open>config\<close>, \<open>all\<close>; on every other string, the empty one included, the process
  exits with the validation message and the host state untouched.  The comparison is
  exact, so this covers whatever string the callers' trimming and lower-casing
  produce, and a case variant such as \<open>VAR\<close> passed as it is is rejected.
\<close>

theorem checkPartitionName_exact:
  "checkPartitionName p w =
     (if p \<in> set [''rootfs'', ''home'', ''var'', ''opt'', ''config'', ''all''] then Return () w
      else Exit (if p = [] then ''Invalid container partition'' else ''Invalid partition '' @ p) w)"
  by (auto simp: checkPartitionName_def checkArgument_def checkCondition_def log_Error_def
      partitionFound_set ChildDatasets_def)

theorem checkPartitionName_exact_witness:
  "checkPartitionName ''var'' world0 = Return () world0 \<and>
   checkPartitionName ''VAR'' world0 = Exit ''Invalid partition VAR'' world0 \<and>
   checkPartitionName [] world0 = Exit ''Invalid container partition'' world0 \<and>
   checkPartitionName (ToLower (TrimSpace '' Var  '')) world0 = Return () world0"
  using checkPartitionName_exact[of "''var''" world0]
    checkPartitionName_exact[of "''VAR''" world0]
    checkPartitionName_exact[of "[]" world0]
    checkPartitionName_exact[of "ToLower (TrimSpace '' Var  '')" world0]
  by (simp add: ToLower_def TrimSpace_def isSpace_def lowerChar_def)

section \<open>Rollback of all partitions\<close>

lemma checkPartSnapshots_missing:
  "\<exists>part \<in> set parts. \<not> fs_DatasetExists w (getSnapshotName c part l) \<Longrightarrow>
   \<exists>m. checkPartSnapshots c l parts w = Exit m w"
  by (induction parts) (auto simp: checkState_def checkCondition_def log_Error_def Let_def)

lemma checkPartitionName_all: "checkPartitionName ''all'' w = Return () w"
  by (simp add: checkPartitionName_def checkArgument_def checkCondition_def)

text \<open>
  C5, as the code has it.  The per-partition check is the fallback of the check that
  the snapshot \<open>container@label\<close> of the parent dataset exists.  When that snapshot is
  absent and one of the four partitions has no snapshot with the label, the process
  exits with the host state unchanged: no container was stopped, nothing was listed
  and nothing rolled back.
\<close>

theorem rollback_all_precondition:
  assumes all: "ToLower (TrimSpace partition0) = ''all''"
    and nosnap: "\<not> fs_DatasetExists w
                   (getSnapshotName (TrimSpace container0) ''all'' (ToLower (TrimSpace label0)))"
    and missing: "\<exists>part \<in> set ChildDatasets. \<not> fs_DatasetExists w
                   (getSnapshotName (TrimSpace container0) part (ToLower (TrimSpace label0)))"
  shows "\<exists>m. RollbackToSnapshot e container0 partition0 label0 forceRollback stopContainer w
             = Exit m w"
proof -
  from checkPartSnapshots_missing[OF missing]
  obtain m where m: "checkPartSnapshots (TrimSpace container0) (ToLower (TrimSpace label0))
                       ChildDatasets w = Exit m w"
    by blast
  show ?thesis
    using all nosnap m
    by (auto simp: RollbackToSnapshot_def checkArgument_def checkState_def checkCondition_def
        log_Error_def checkPartitionName_all Let_def)
qed

lemmas eval_strings = TrimSpace_def ToLower_def isSpace_def lowerChar_def HasSuffix_def
  TrimPrefix_def TrimSuffix_def pathJoin_def

lemmas eval_hosts = cfg0_def env0_def world0_def

lemmas eval_fs = fs_DatasetExists_def fs_IsDatasetReadOnly_def stripSlash_def fs_FileExists_def
  fs_IsDir_def fs_CreateDataset_def fs_RemoveDataset_def fs_ReceiveStream_def
  fs_SetDatasetReadOnly_def fs_RollbackToSnapshot_def fs_ListSnapshotNamesOnly_def
  isSnapshotUnder_def fs_Copy_def fs_Decompress_def os_RemoveAll_def os_Remove_def os_Rename_def
  isUnder_def call_def emit_def

lemmas eval_checks = checkArgument_def checkState_def checkCondition_def log_Error_def
  log_Fatal_def log_Info_def

theorem rollback_all_precondition_witness:
  "\<exists>m. RollbackToSnapshot env0 '' c'' ''ALL'' ''L1 '' False True plainWorld = Exit m plainWorld"
  using rollback_all_precondition[of "''ALL''" plainWorld "'' c''" "''L1 ''" env0 False True]
  by (simp add: eval_strings eval_fs plainWorld_def world0_def getSnapshotName_def
      ChildDatasets_def)

text \<open>
  The claim as stated fails: in \<open>rollbackWorld\<close> the partition \<open>rootfs\<close> has no snapshot
  \<open>l1\<close>, yet the rollback of \<open>all\<close> returns after rolling back \<open>c@l1\<close>.
\<close>

theorem rollback_all_counterexample:
  "RollbackToSnapshot env0 ''c'' ''all'' ''l1'' False False rollbackWorld
     = Return () (rollbackWorld\<lparr>trace := [EvListSnapshotNames ''c'', EvRollback ''c@l1'' False]\<rparr>)
   \<and> \<not> fs_DatasetExists rollbackWorld (getSnapshotName ''c'' ''rootfs'' ''l1'')"
  by (simp add: RollbackToSnapshot_def eval_checks checkPartitionName_all Let_def
      rollbackWorld_def eval_hosts eval_strings eval_fs IsContainer_def getSnapshotName_def
      State_def Stopped_def Running_def)

section \<open>Receiving a snapshot bundle\<close>

lemma checkDeltas_cases:
  "checkDeltas dest parts w =
     (if \<forall>p \<in> set parts. fs_FileExists w (pathJoin [dest, p @ ''.delta'']) then Return () w
      else checkDeltas dest parts w) \<and>
   ((\<exists>p \<in> set parts. \<not> fs_FileExists w (pathJoin [dest, p @ ''.delta''])) \<longrightarrow>
      (\<exists>m. checkDeltas dest parts w = Exit m w))"
  by (induction parts) (auto simp: checkState_def checkCondition_def log_Error_def)

lemma receiveInto_missing:
  assumes "\<exists>f \<in> set (map (\<lambda>p. p @ ''.delta'') ChildDatasets @ [''config'']).
             \<not> fs_FileExists w (pathJoin [dest, f])"
  shows "\<exists>m. receiveInto e container dest w = Exit m w"
proof (cases "\<forall>p \<in> set ChildDatasets. fs_FileExists w (pathJoin [dest, p @ ''.delta''])")
  case True
  then have "checkDeltas dest ChildDatasets w = Return () w"
    using checkDeltas_cases[of dest ChildDatasets w] by simp
  moreover from True assms have "\<not> fs_FileExists w (pathJoin [dest, ''config''])" by auto
  ultimately show ?thesis
    by (simp add: receiveInto_def checkState_def checkCondition_def log_Error_def)
next
  case False
  then obtain m where "checkDeltas dest ChildDatasets w = Exit m w"
    using checkDeltas_cases[of dest ChildDatasets w] by blast
  then show ?thesis by (simp add: receiveInto_def)
qed

lemma receiveExtract_frame:
  assumes "receiveExtract e container0 sourceFile0 w = Return (container, dest) w1"
  shows "datasets w1 = datasets w \<and> readonly w1 = readonly w \<and>
         (\<exists>src. trace w1 = trace w @ [EvDecompress src dest])"
  using assms
  by (auto simp: receiveExtract_def Let_def eval_checks fs_Decompress_def call_def emit_def
      split: if_splits option.splits node.splits)

text \<open>
  C6. When the archive has been extracted into \<open>dest\<close> (host state \<open>w1\<close>) and one of
  the four delta files or the config file is not there, \<open>ReceiveContainerSnapshots\<close>
  exits in that very state: the only external call so far is the extraction, so no
  dataset was created, no delta stream received, and the datasets and their
  read-only marks are those before the call.
\<close>

theorem receive_missing_file_fails:
  assumes ext: "receiveExtract e container0 sourceFile0 w = Return (container, dest) w1"
    and missing: "\<exists>f \<in> set (map (\<lambda>p. p @ ''.delta'') ChildDatasets @ [''config'']).
                    \<not> fs_FileExists w1 (pathJoin [dest, f])"
  shows "(\<exists>m. ReceiveContainerSnapshots e container0 sourceFile0 w = Exit m w1) \<and>
         datasets w1 = datasets w \<and> readonly w1 = readonly w \<and>
         (\<exists>src. trace w1 = trace w @ [EvDecompress src dest])"
  using receiveInto_missing[OF missing, of e container] receiveExtract_frame[OF ext] ext
  by (simp add: ReceiveContainerSnapshots_def)

lemma getFileName_bundle: "getFileName ''/bundle.tar.gz'' = ''bundle''"
  by code_simp

theorem receive_missing_file_fails_witness:
  "\<exists>m w1. ReceiveContainerSnapshots bundleEnv ''web1'' ''/bundle.tar.gz'' bundleWorld = Exit m w1 \<and>
     \<not> fs_FileExists w1 ''/cache/bundle/var.delta'' \<and>
     datasets w1 = datasets bundleWorld \<and> readonly w1 = readonly bundleWorld \<and>
     (\<exists>src. trace w1 = [EvDecompress src ''/cache/bundle''])"
proof -
  have "\<exists>w1. receiveExtract bundleEnv ''web1'' ''/bundle.tar.gz'' bundleWorld
              = Return (''web1'', ''/cache/bundle'') w1 \<and>
            \<not> fs_FileExists w1 (pathJoin [''/cache/bundle'', ''var.delta''])"
    by (simp add: receiveExtract_def getFileName_bundle Let_def eval_checks TrimSpace_def
        isSpace_def pathJoin_def fs_FileExists_def fs_Decompress_def call_def emit_def eval_hosts
        bundleEnv_def bundleWorld_def)
  then obtain w1 where
    ext: "receiveExtract bundleEnv ''web1'' ''/bundle.tar.gz'' bundleWorld
            = Return (''web1'', ''/cache/bundle'') w1"
    and var: "\<not> fs_FileExists w1 (pathJoin [''/cache/bundle'', ''var.delta''])"
    by blast
  from var have missing: "\<exists>f \<in> set (map (\<lambda>p. p @ ''.delta'') ChildDatasets @ [''config'']).
      \<not> fs_FileExists w1 (pathJoin [''/cache/bundle'', f])"
    by (simp add: ChildDatasets_def)
  from receive_missing_file_fails[OF ext missing] var show ?thesis
    by (auto simp: pathJoin_def bundleWorld_def world0_def)
qed


section \<open>Fetching: verification and retries\<close>

lemma verifyChecksum_node:
  "files w p = Some n \<Longrightarrow> verifyChecksum e w template p = digestMatches e template n"
  by (auto simp: verifyChecksum_def digestMatches_def sha256_def md5sum_def fs_Sha256Sum_def
      fs_Md5Sum_def Sha256DigestMethod_def Md5DigestMethod_def split: node.splits)

lemma take_Suc_append_wrap [simp]:
  "take (Suc (length p)) (p @ ''_wrap'') = p @ ''_''"
  by simp

lemma doDownload_mismatch:
  assumes nofail: "\<And>tr ev. failure e tr ev = None"
    and bad: "\<And>tr. \<not> digestMatches e template (remote e tr url)"
  shows "\<exists>dst w'. doDownload e template url w
            = Return (Some ''File integrity verification failed'') w' \<and>
          filter isGrab (trace w') = filter isGrab (trace w) @ [EvGrab dst url]"
proof (cases "isWrappedTemplateUrl url")
  case False
  then show ?thesis
    using nofail bad
    by (simp add: doDownload_def Let_def call_def emit_def log_Info_def verifyChecksum_node)
next
  case True
  then show ?thesis
    using nofail bad
    by (simp add: doDownload_def Let_def call_def emit_def log_Info_def verifyChecksum_node
        os_RemoveAll_def os_Rename_def isUnder_def)
qed

lemma downloadLoop_mismatch:
  assumes nofail: "\<And>tr ev. failure e tr ev = None"
    and bad: "\<And>tr. \<not> digestMatches e template (remote e tr url)"
  shows "\<exists>m w'. downloadLoop e template url (Some m0) 1 w = Return (Some m) w' \<and>
          length (filter isGrab (trace w')) = length (filter isGrab (trace w)) + 2"
proof -
  obtain d1 w1 where 1: "doDownload e template url w
        = Return (Some ''File integrity verification failed'') w1"
      "filter isGrab (trace w1) = filter isGrab (trace w) @ [EvGrab d1 url]"
    using doDownload_mismatch[OF nofail bad] by blast
  obtain d2 w2 where 2: "doDownload e template url w1
        = Return (Some ''File integrity verification failed'') w2"
      "filter isGrab (trace w2) = filter isGrab (trace w1) @ [EvGrab d2 url]"
    using doDownload_mismatch[OF nofail bad] by blast
  have l3: "\<And>x w. downloadLoop e template url x (Suc (Suc (Suc 0))) w = Return x w"
    by (subst downloadLoop.simps) (simp add: maxDownloadAttempts_def)
  have l2: "\<And>x. downloadLoop e template url (Some x) (Suc (Suc 0)) w1
               = Return (Some ''File integrity verification failed'') w2"
    by (subst downloadLoop.simps) (simp add: maxDownloadAttempts_def 2 l3)
  have "downloadLoop e template url (Some m0) 1 w
          = Return (Some ''File integrity verification failed'') w2"
    by (subst downloadLoop.simps) (simp add: maxDownloadAttempts_def 1 l2)
  then show ?thesis using 1 2 by simp
qed


lemma log_Check_cases:
  "log_Check ErrorLevel msg err w =
     (case err of None \<Rightarrow> Return False w | Some x \<Rightarrow> Exit (msg @ '', '' @ x) w)"
  "log_Check FatalLevel msg err w =
     (case err of None \<Rightarrow> Return False w | Some x \<Rightarrow> Exit (msg @ '', '' @ x) w)"
  "log_Check WarnLevel msg err w = Return (err \<noteq> None) w"
  "log_Check DebugLevel msg err w = Return (err \<noteq> None) w"
  by (cases err; simp add: log_Error_def log_Fatal_def)+

lemma getTemplateUrl_grabs:
  "getTemplateUrl e template w = Return url w0 \<Longrightarrow>
   filter isGrab (trace w0) = filter isGrab (trace w)"
  by (auto simp: getTemplateUrl_def Let_def call_def emit_def log_Error_def log_Check_cases
      split: if_splits option.splits)

lemma gateway_mismatch:
  assumes nofail: "\<And>tr ev. failure e tr ev = None"
    and url: "getTemplateUrl e template w = Return url w0"
    and bad: "\<And>tr. \<not> digestMatches e template (remote e tr url)"
  shows "exited (downloadFromGateway e template w) \<and>
         length (filter isGrab (trace (final (downloadFromGateway e template w))))
           = length (filter isGrab (trace w)) + maxDownloadAttempts"
proof -
  obtain d1 w1 where 1: "doDownload e template url w0
        = Return (Some ''File integrity verification failed'') w1"
      "filter isGrab (trace w1) = filter isGrab (trace w0) @ [EvGrab d1 url]"
    using doDownload_mismatch[OF nofail bad] by blast
  obtain m w2 where 2: "downloadLoop e template url (Some ''File integrity verification failed'') 1 w1
        = Return (Some m) w2"
      "length (filter isGrab (trace w2)) = length (filter isGrab (trace w1)) + 2"
    using downloadLoop_mismatch[OF nofail bad] by blast
  have "downloadFromGateway e template w = Exit (''Download completed, '' @ m) w2"
    using url 1 2 by (simp add: downloadFromGateway_def log_Error_def)
  then show ?thesis
    using 1 2 getTemplateUrl_grabs[OF url] by (simp add: maxDownloadAttempts_def)
qed


lemmas eval_fetch = download_def downloadFromGateway_def getTemplateUrl_def doDownload_def
  isValidUrl_def isWrappedTemplateUrl_def wrappedTemplateSuffix_def verifyChecksum_def
  sha256_def md5sum_def fs_Sha256Sum_def fs_Md5Sum_def Sha256DigestMethod_def
  Md5DigestMethod_def maxDownloadAttempts_def

text \<open>
  C1 at a failing input.  The transfer fails, \<open>doDownload\<close> returns the \<open>err\<close> of the
  request, which is nil, and the download returns to the import as a success although
  the archive in the cache does not have the declared digest and was never verified.
\<close>

theorem download_unverified_success:
  "download brokenTransferEnv tmpl0 staleWorld =
     Return () (staleWorld\<lparr>trace := [EvHttpHead ''gw/id1/base.tar.gz'',
        EvGrabRequest ''/cache/id1_wrap'' ''gw/id1/base.tar.gz'', EvInfo ''Downloading base'',
        EvGrab ''/cache/id1_wrap'' ''gw/id1/base.tar.gz'']\<rparr>) \<and>
   \<not> verifyChecksum brokenTransferEnv (final (download brokenTransferEnv tmpl0 staleWorld))
        tmpl0 (pathJoin [CacheDir (cfg brokenTransferEnv), Id' tmpl0])"
  by (simp add: eval_fetch Let_def eval_hosts eval_strings eval_checks log_Check_cases
      call_def emit_def brokenTransferEnv_def tmpl0_def staleWorld_def
      downloadLoop.simps[of _ _ _ None])


text \<open>
  C2, as the code has it.  When no external call fails and every transfer delivers
  bytes whose digest differs from the declared one, the gateway download ends the
  process (nothing after the verification runs), and it has fetched the archive
  \<open>maxDownloadAttempts\<close> = 3 times: the first attempt and two re-fetches.
\<close>

theorem gateway_mismatch_three_attempts:
  assumes nofail: "\<And>tr ev. failure e tr ev = None"
    and url: "getTemplateUrl e template w = Return url w0"
    and bad: "\<And>tr. \<not> digestMatches e template (remote e tr url)"
  shows "exited (downloadFromGateway e template w) \<and>
         length (filter isGrab (trace (final (downloadFromGateway e template w))))
           = length (filter isGrab (trace w)) + maxDownloadAttempts"
  using gateway_mismatch[OF nofail url bad] .

lemma corrupt_url:
  "getTemplateUrl corruptEnv tmpl0 world0 =
     Return ''gw/id1/base.tar.gz'' (world0\<lparr>trace := [EvHttpHead ''gw/id1/base.tar.gz'']\<rparr>)"
  by (simp add: getTemplateUrl_def Let_def eval_hosts log_Check_cases call_def emit_def
      corruptEnv_def tmpl0_def wrappedTemplateSuffix_def)

lemma corrupt_bad: "\<not> digestMatches corruptEnv tmpl0 (remote corruptEnv tr url)"
  by (simp add: digestMatches_def corruptEnv_def tmpl0_def env0_def Sha256DigestMethod_def
      Md5DigestMethod_def)

lemma corrupt_nofail: "failure corruptEnv tr ev = None"
  by (simp add: corruptEnv_def env0_def)

theorem gateway_mismatch_three_attempts_witness:
  "exited (downloadFromGateway corruptEnv tmpl0 staleWorld) \<and>
   length (filter isGrab (trace (final (downloadFromGateway corruptEnv tmpl0 staleWorld)))) = 3"
proof -
  have url: "getTemplateUrl corruptEnv tmpl0 staleWorld =
     Return ''gw/id1/base.tar.gz'' (staleWorld\<lparr>trace := [EvHttpHead ''gw/id1/base.tar.gz'']\<rparr>)"
    by (simp add: getTemplateUrl_def Let_def eval_hosts log_Check_cases call_def emit_def
      corruptEnv_def tmpl0_def wrappedTemplateSuffix_def staleWorld_def)
  show ?thesis
    using gateway_mismatch_three_attempts[of corruptEnv tmpl0 staleWorld, OF corrupt_nofail url
        corrupt_bad]
    by (simp add: staleWorld_def world0_def maxDownloadAttempts_def)
qed

text \<open>
  The claim as stated fails: with a gateway that always delivers the wrong bytes the
  archive is fetched three times, that is re-fetched twice, before the process exits.
\<close>

theorem gateway_one_refetch_counterexample:
  "exited (downloadFromGateway corruptEnv tmpl0 world0) \<and>
   length (filter isGrab (trace (final (downloadFromGateway corruptEnv tmpl0 world0)))) = 3"
  using gateway_mismatch[of corruptEnv tmpl0 world0, OF corrupt_nofail corrupt_url corrupt_bad]
  by (simp add: world0_def maxDownloadAttempts_def)



section \<open>The supervisor's downgrade\<close>

lemma quiet_refl [simp]: "quiet name w w"
  by (simp add: quiet_def)

lemma quiet_trans: "quiet name w w1 \<Longrightarrow> quiet name w1 w2 \<Longrightarrow> quiet name w w2"
  by (simp add: quiet_def)

lemma quiet_andThen:
  assumes "quiet name w (final m)"
    and "\<And>x w1. m = Return x w1 \<Longrightarrow> quiet name w1 (final (f x w1))"
  shows "quiet name w (final (andThen m f))"
  using assms by (cases m) (auto intro: quiet_trans)

lemma desiredRunning_save_other:
  "Name' c \<noteq> name \<Longrightarrow> desiredRunning (db_SaveContainer c w) name = desiredRunning w name"
  by (auto simp: desiredRunning_def db_SaveContainer_def emit_def)

lemma quiet_save_other: "Name' c \<noteq> name \<Longrightarrow> quiet name w (db_SaveContainer c w)"
  using desiredRunning_save_other[of c name w]
  by (simp add: quiet_def) (simp add: db_SaveContainer_def emit_def)

lemma find_Some_name: "find (\<lambda>c. Name' c = n) xs = Some v \<Longrightarrow> Name' v = n"
  by (induction xs) (auto split: if_splits)

lemma quiet_conf: "n \<noteq> name \<Longrightarrow> quiet name w (final (SetContainerConf e n conf w))"
  by (auto simp: SetContainerConf_def CreateContainerConf_def call_def emit_def quiet_def
      desiredRunning_def Let_def log_Check_cases split: option.splits prod.splits)


lemma quiet_Start: "n \<noteq> name \<Longrightarrow> quiet name w (final (Start e n w))"
proof -
  assume n: "n \<noteq> name"
  have step: "\<And>w. quiet name w (final (andThen (SetContainerConf e n [[''lxc.start.auto'', ''1'']] w)
        (\<lambda>_ w. case db_FindContainerByName w n of
             Some v \<Rightarrow> Return None (db_SaveContainer (v\<lparr>State' := Running\<rparr>) w)
           | None \<Rightarrow> Return None w)))"
    using n
    by (intro quiet_andThen quiet_conf)
       (auto simp: db_FindContainerByName_def dest: find_Some_name intro!: quiet_save_other
         split: option.splits)
  show ?thesis
  proof (cases "failure e (trace w) (EvNewContainer n)")
    case (Some err)
    then show ?thesis
      using n by (simp add: Start_def call_def quiet_def emit_def desiredRunning_def)
  next
    case None
    define w2 where "w2 =
       (if failure e (trace (emit (EvNewContainer n) w)) (EvStart n) = None
        then (emit (EvStart n) (emit (EvNewContainer n) w))\<lparr>cstate :=
               (cstate (emit (EvStart n) (emit (EvNewContainer n) w)))(n := Running)\<rparr>
        else emit (EvStart n) (emit (EvNewContainer n) w))"
    have q: "quiet name w w2"
      using n by (simp add: w2_def quiet_def desiredRunning_def emit_def)
    have "Start e n w =
        (if State w2 n \<noteq> Running then Return (Some (''Unable to start container '' @ n)) w2
         else andThen (SetContainerConf e n [[''lxc.start.auto'', ''1'']] w2)
           (\<lambda>_ w. case db_FindContainerByName w n of
               Some v \<Rightarrow> Return None (db_SaveContainer (v\<lparr>State' := Running\<rparr>) w)
             | None \<Rightarrow> Return None w))"
      using None by (simp add: w2_def Start_def call_def Let_def)
    then show ?thesis
      using q quiet_trans[OF q step[of w2]] by (simp split: if_splits)
  qed
qed

lemma quiet_emit: "\<not> startOf name ev \<Longrightarrow> quiet name w (emit ev w)"
  by (simp add: quiet_def emit_def desiredRunning_def)

lemma quiet_startRetry: "n \<noteq> name \<Longrightarrow> quiet name w (final (startRetry e n i err w))"
proof (induction e n i err w rule: startRetry.induct)
  case (1 e n i startErr w)
  show ?case
  proof (cases "i < 5 \<and> startErr \<noteq> None")
    case False
    then show ?thesis by (subst startRetry.simps) auto
  next
    case True
    have a: "quiet name w (final (Start e n (emit (EvSleep (5 + i)) w)))"
      by (rule quiet_trans[OF quiet_emit quiet_Start[OF "1.prems"]]) simp
    have "quiet name w (final (andThen (Start e n (emit (EvSleep (5 + i)) w))
             (\<lambda>startErr w. startRetry e n (i + 1) startErr w)))"
      using True "1.IH" "1.prems" by (intro quiet_andThen a) auto
    then show ?thesis using True by (subst startRetry.simps) simp
  qed
qed

lemma quiet_restoreContainer:
  "Name' v \<noteq> name \<Longrightarrow> quiet name w (final (restoreContainer e v w))"
  unfolding restoreContainer_def
  by (auto intro!: quiet_andThen quiet_Start quiet_startRetry quiet_save_other)

lemma quiet_restoreEach:
  "\<forall>v \<in> set active. Name' v \<noteq> name \<Longrightarrow> quiet name w (final (restoreEach e active w))"
  by (induction active arbitrary: w) (auto intro!: quiet_andThen quiet_restoreContainer)

lemma quiet_doRestore:
  "\<not> desiredRunning w name \<Longrightarrow> quiet name w (final (doRestore e w))"
proof -
  assume nd: "\<not> desiredRunning w name"
  let ?w1 = "emit (EvFindContainers Running) w"
  have q: "quiet name w ?w1" by (simp add: quiet_emit)
  have names: "\<forall>v \<in> set (filter (\<lambda>c. State' c = Running) (db ?w1)). Name' v \<noteq> name"
    using nd by (auto simp: desiredRunning_def emit_def)
  show ?thesis
    using quiet_trans[OF q quiet_restoreEach[OF names, of ?w1 e]] q
    by (auto simp: doRestore_def getContainersSupposedToBeRunning_def db_FindContainers_def
        call_def split: option.splits)
qed

lemma quiet_StateRestore:
  "\<not> desiredRunning w name \<Longrightarrow> quiet name w (final (StateRestore n e w))"
proof (induction n arbitrary: w)
  case 0
  then show ?case by simp
next
  case (Suc n)
  have a: "quiet name w (final (doRestore e w))"
    using Suc.prems by (rule quiet_doRestore)
  show ?case
  proof (cases "doRestore e w")
    case (Return x w1)
    with a Suc.prems have nd: "\<not> desiredRunning (emit (EvSleep 30) w1) name"
      by (simp add: quiet_def desiredRunning_def emit_def)
    have "quiet name w1 (emit (EvSleep 30) w1)" by (simp add: quiet_emit)
    from quiet_trans[OF this Suc.IH[OF nd]] a Return show ?thesis
      by (auto intro: quiet_trans)
  qed (use a in auto)
qed


lemma Start_fails:
  assumes "State w name \<noteq> Running" and "startFails e (trace w) name"
  shows "\<exists>err w'. Start e name w = Return (Some err) w' \<and> cstate w' = cstate w \<and>
           db w' = db w \<and> view (trace w') = view (trace w) @ [EvNewContainer name]"
  using assms
  by (auto simp: Start_def startFails_def call_def emit_def State_def view_def
      split: option.splits)

lemma retry_step:
  assumes "i < 5" and "State w name \<noteq> Running" and "\<And>tr. startFails e tr name"
  shows "\<exists>err' w'. startRetry e name i (Some err) w = startRetry e name (Suc i) (Some err') w' \<and>
           cstate w' = cstate w \<and> db w' = db w \<and>
           view (trace w') = view (trace w) @ [EvSleep (5 + i), EvNewContainer name]"
proof -
  have "State (emit (EvSleep (5 + i)) w) name \<noteq> Running"
    using assms(2) by (simp add: State_def emit_def)
  from Start_fails[OF this assms(3)] obtain err' w' where
    "Start e name (emit (EvSleep (5 + i)) w) = Return (Some err') w'"
    "cstate w' = cstate w" "db w' = db w"
    "view (trace w') = view (trace w) @ [EvSleep (5 + i), EvNewContainer name]"
    by (auto simp: emit_def view_def)
  then show ?thesis
    using assms(1) by (subst startRetry.simps) auto
qed

lemma supervisor_downgrade_aux:
  assumes notrun: "State w (Name' v) \<noteq> Running"
    and allfail: "\<And>tr. startFails e tr (Name' v)"
  shows "\<exists>w'. restoreContainer e v w = Return () w' \<and>
           view (trace w') = view (trace w) @
             [EvNewContainer (Name' v), EvSleep 5, EvNewContainer (Name' v), EvSleep 6,
              EvNewContainer (Name' v), EvSleep 7, EvNewContainer (Name' v), EvSleep 8,
              EvNewContainer (Name' v), EvSleep 9, EvNewContainer (Name' v),
              EvSaveContainer (Name' v) Stopped] \<and>
           \<not> desiredRunning w' (Name' v) \<and>
           (\<forall>n. filter (startOf (Name' v)) (trace (final (StateRestore n e w')))
                  = filter (startOf (Name' v)) (trace w'))"
proof -
  let ?n = "Name' v"
  have st: "\<And>w1. cstate w1 = cstate w \<Longrightarrow> State w1 ?n \<noteq> Running"
    using notrun by (simp add: State_def)
  obtain e0 w0 where 0: "Start e ?n w = Return (Some e0) w0" "cstate w0 = cstate w"
      "view (trace w0) = view (trace w) @ [EvNewContainer ?n]"
    using Start_fails[OF notrun allfail] by blast
  obtain e1 w1 where 1: "startRetry e ?n 0 (Some e0) w0 = startRetry e ?n (Suc 0) (Some e1) w1"
      "cstate w1 = cstate w0" "view (trace w1) = view (trace w0) @ [EvSleep (5 + 0), EvNewContainer ?n]"
    using retry_step[OF _ st[OF 0(2)] allfail, of 0 e0] by auto
  obtain e2 w2 where 2: "startRetry e ?n 1 (Some e1) w1 = startRetry e ?n (Suc 1) (Some e2) w2"
      "cstate w2 = cstate w1" "view (trace w2) = view (trace w1) @ [EvSleep (5 + 1), EvNewContainer ?n]"
    using retry_step[OF _ st, of 1 w1 e e1] 1 0 allfail by auto
  obtain e3 w3 where 3: "startRetry e ?n 2 (Some e2) w2 = startRetry e ?n (Suc 2) (Some e3) w3"
      "cstate w3 = cstate w2" "view (trace w3) = view (trace w2) @ [EvSleep (5 + 2), EvNewContainer ?n]"
    using retry_step[OF _ st, of 2 w2 e e2] 2 1 0 allfail by auto
  obtain e4 w4 where 4: "startRetry e ?n 3 (Some e3) w3 = startRetry e ?n (Suc 3) (Some e4) w4"
      "cstate w4 = cstate w3" "view (trace w4) = view (trace w3) @ [EvSleep (5 + 3), EvNewContainer ?n]"
    using retry_step[OF _ st, of 3 w3 e e3] 3 2 1 0 allfail by auto
  obtain e5 w5 where 5: "startRetry e ?n 4 (Some e4) w4 = startRetry e ?n (Suc 4) (Some e5) w5"
      "cstate w5 = cstate w4" "view (trace w5) = view (trace w4) @ [EvSleep (5 + 4), EvNewContainer ?n]"
    using retry_step[OF _ st, of 4 w4 e e4] 4 3 2 1 0 allfail by auto
  have 6: "startRetry e ?n 5 (Some e5) w5 = Return (Some e5) w5"
    by (subst startRetry.simps) simp
  have loop: "startRetry e ?n 0 (Some e0) w0 = Return (Some e5) w5"
    using 1(1) 2(1) 3(1) 4(1) 5(1) 6 by (simp add: numeral_eq_Suc)
  define w' where "w' = db_SaveContainer (v\<lparr>State' := Stopped\<rparr>) w5"
  have res: "restoreContainer e v w = Return () w'"
    using notrun 0(1) loop by (simp add: restoreContainer_def w'_def)
  have tr: "view (trace w') = view (trace w) @
             [EvNewContainer ?n, EvSleep 5, EvNewContainer ?n, EvSleep 6,
              EvNewContainer ?n, EvSleep 7, EvNewContainer ?n, EvSleep 8,
              EvNewContainer ?n, EvSleep 9, EvNewContainer ?n, EvSaveContainer ?n Stopped]"
    using 0(3) 1(3) 2(3) 3(3) 4(3) 5(3)
    by (simp add: w'_def db_SaveContainer_def emit_def view_def)
  have nd: "\<not> desiredRunning w' ?n"
    by (auto simp: w'_def desiredRunning_def db_SaveContainer_def emit_def Stopped_def Running_def)
  have "\<forall>n. filter (startOf ?n) (trace (final (StateRestore n e w'))) = filter (startOf ?n) (trace w')"
    using quiet_StateRestore[OF nd] by (simp add: quiet_def)
  with res tr nd show ?thesis by blast
qed


lemma apart_refl [simp]: "apart name w w"
  by (simp add: apart_def)

lemma apart_trans: "apart name w w1 \<Longrightarrow> apart name w1 w2 \<Longrightarrow> apart name w w2"
  unfolding apart_def by (elim conjE exE) (simp, metis Un_iff set_append)

lemma apart_andThen:
  assumes "apart name w (final m)"
    and "\<And>x w1. m = Return x w1 \<Longrightarrow> apart name w1 (final (f x w1))"
  shows "apart name w (final (andThen m f))"
  using assms by (cases m) (auto intro: apart_trans)

lemma apart_emit: "\<not> concerns name ev \<Longrightarrow> apart name w (emit ev w)"
  by (simp add: apart_def emit_def desiredRunning_def)

lemma apart_save_other: "Name' c \<noteq> name \<Longrightarrow> apart name w (db_SaveContainer c w)"
  using desiredRunning_save_other[of c name w]
  by (simp add: apart_def) (simp add: db_SaveContainer_def emit_def)

lemma apart_conf: "n \<noteq> name \<Longrightarrow> apart name w (final (SetContainerConf e n conf w))"
  by (auto simp: SetContainerConf_def CreateContainerConf_def call_def emit_def apart_def
      desiredRunning_def Let_def log_Check_cases split: option.splits prod.splits)

lemma apart_Start: "n \<noteq> name \<Longrightarrow> apart name w (final (Start e n w))"
proof -
  assume n: "n \<noteq> name"
  have step: "\<And>w. apart name w (final (andThen (SetContainerConf e n [[''lxc.start.auto'', ''1'']] w)
        (\<lambda>_ w. case db_FindContainerByName w n of
             Some v \<Rightarrow> Return None (db_SaveContainer (v\<lparr>State' := Running\<rparr>) w)
           | None \<Rightarrow> Return None w)))"
    using n
    by (intro apart_andThen apart_conf)
       (auto simp: db_FindContainerByName_def dest: find_Some_name intro!: apart_save_other
         split: option.splits)
  show ?thesis
  proof (cases "failure e (trace w) (EvNewContainer n)")
    case (Some err)
    then show ?thesis
      using n by (simp add: Start_def call_def apart_def emit_def desiredRunning_def)
  next
    case None
    define w2 where "w2 =
       (if failure e (trace (emit (EvNewContainer n) w)) (EvStart n) = None
        then (emit (EvStart n) (emit (EvNewContainer n) w))\<lparr>cstate :=
               (cstate (emit (EvStart n) (emit (EvNewContainer n) w)))(n := Running)\<rparr>
        else emit (EvStart n) (emit (EvNewContainer n) w))"
    have q: "apart name w w2"
      using n by (simp add: w2_def apart_def desiredRunning_def emit_def)
    have "Start e n w =
        (if State w2 n \<noteq> Running then Return (Some (''Unable to start container '' @ n)) w2
         else andThen (SetContainerConf e n [[''lxc.start.auto'', ''1'']] w2)
           (\<lambda>_ w. case db_FindContainerByName w n of
               Some v \<Rightarrow> Return None (db_SaveContainer (v\<lparr>State' := Running\<rparr>) w)
             | None \<Rightarrow> Return None w))"
      using None by (simp add: w2_def Start_def call_def Let_def)
    then show ?thesis
      using q apart_trans[OF q step[of w2]] by (simp split: if_splits)
  qed
qed

lemma apart_startRetry: "n \<noteq> name \<Longrightarrow> apart name w (final (startRetry e n i err w))"
proof (induction e n i err w rule: startRetry.induct)
  case (1 e n i startErr w)
  show ?case
  proof (cases "i < 5 \<and> startErr \<noteq> None")
    case False
    then show ?thesis by (subst startRetry.simps) auto
  next
    case True
    have a: "apart name w (final (Start e n (emit (EvSleep (5 + i)) w)))"
      by (rule apart_trans[OF apart_emit apart_Start[OF "1.prems"]]) simp
    have "apart name w (final (andThen (Start e n (emit (EvSleep (5 + i)) w))
             (\<lambda>startErr w. startRetry e n (i + 1) startErr w)))"
      using True "1.IH" "1.prems" by (intro apart_andThen a) auto
    then show ?thesis using True by (subst startRetry.simps) simp
  qed
qed

lemma apart_restoreContainer:
  "Name' v \<noteq> name \<Longrightarrow> apart name w (final (restoreContainer e v w))"
  unfolding restoreContainer_def
  by (auto intro!: apart_andThen apart_Start apart_startRetry apart_save_other)

lemma apart_restoreEach:
  "\<forall>v \<in> set active. Name' v \<noteq> name \<Longrightarrow> apart name w (final (restoreEach e active w))"
  by (induction active arbitrary: w) (auto intro!: apart_andThen apart_restoreContainer)

lemma conf_returns:
  assumes "\<And>tr p. failure e tr (EvWriteFile p) = None"
  shows "\<exists>x w'. SetContainerConf e n conf w = Return x w'"
  using assms
  by (auto simp: SetContainerConf_def CreateContainerConf_def call_def Let_def log_Check_cases
      split: option.splits prod.splits)

lemma Start_returns:
  assumes wr: "\<And>tr p. failure e tr (EvWriteFile p) = None"
  shows "\<exists>x w'. Start e n w = Return x w'"
proof -
  define k :: "world \<Rightarrow> string option outcome"
    where "k = (\<lambda>w. andThen (SetContainerConf e n [[''lxc.start.auto'', ''1'']] w)
        (\<lambda>_ w. case db_FindContainerByName w n of
             Some v \<Rightarrow> Return None (db_SaveContainer (v\<lparr>State' := Running\<rparr>) w)
           | None \<Rightarrow> Return None w))"
  have step: "\<And>w. \<exists>x w'. k w = Return x w'"
  proof -
    fix w
    obtain x w1 where "SetContainerConf e n [[''lxc.start.auto'', ''1'']] w = Return x w1"
      using conf_returns[OF wr] by blast
    then show "\<exists>x w'. k w = Return x w'"
      by (simp add: k_def split: option.splits)
  qed
  have unf: "Start e n w =
     (case call e (EvNewContainer n) w of
        (Some err, w) \<Rightarrow> Return (Some err) w
      | (None, w) \<Rightarrow>
          (case call e (EvStart n) w of (serr, w1) \<Rightarrow>
           if State (if serr = None then w1\<lparr>cstate := (cstate w1)(n := Running)\<rparr> else w1) n
                \<noteq> Running
           then Return (Some (''Unable to start container '' @ n))
                  (if serr = None then w1\<lparr>cstate := (cstate w1)(n := Running)\<rparr> else w1)
           else k (if serr = None then w1\<lparr>cstate := (cstate w1)(n := Running)\<rparr> else w1)))"
    unfolding Start_def Let_def k_def by (rule refl)
  show ?thesis
    unfolding unf using step by (auto split: prod.splits option.splits)
qed

lemma startRetry_returns:
  "(\<And>tr p. failure e tr (EvWriteFile p) = None) \<Longrightarrow>
   \<exists>x w'. startRetry e n i err w = Return x w'"
proof (induction e n i err w rule: startRetry.induct)
  case (1 e n i startErr w)
  show ?case
  proof (cases "i < 5 \<and> startErr \<noteq> None")
    case False
    then show ?thesis by (subst startRetry.simps) auto
  next
    case True
    obtain x w1 where s: "Start e n (emit (EvSleep (5 + i)) w) = Return x w1"
      using Start_returns[of e n "emit (EvSleep (5 + i)) w"] "1.prems" by blast
    from "1.IH"[OF True "1.prems"] obtain y w2 where
      "startRetry e n (i + 1) x w1 = Return y w2"
      by blast
    with s True show ?thesis by (subst startRetry.simps) simp
  qed
qed

lemma restoreContainer_returns:
  assumes wr: "\<And>tr p. failure e tr (EvWriteFile p) = None"
  shows "\<exists>w'. restoreContainer e v w = Return () w'"
proof (cases "State w (Name' v) \<noteq> Running")
  case False
  then show ?thesis by (simp add: restoreContainer_def)
next
  case True
  obtain x w1 where s: "Start e (Name' v) w = Return x w1"
    using Start_returns[OF wr] by blast
  obtain y w2 where r: "startRetry e (Name' v) 0 x w1 = Return y w2"
    using startRetry_returns[OF wr] by blast
  from True s r show ?thesis by (simp add: restoreContainer_def)
qed

lemma restoreEach_returns:
  assumes wr: "\<And>tr p. failure e tr (EvWriteFile p) = None"
  shows "\<exists>w'. restoreEach e active w = Return () w'"
proof (induction active arbitrary: w)
  case Nil
  then show ?case by simp
next
  case (Cons v active)
  obtain w1 where "restoreContainer e v w = Return () w1"
    using restoreContainer_returns[OF wr] by blast
  with Cons[of w1] show ?case by simp
qed

lemma restoreEach_append:
  "restoreEach e (xs @ ys) w = andThen (restoreEach e xs w) (\<lambda>_ w. restoreEach e ys w)"
proof (induction xs arbitrary: w)
  case Nil
  then show ?case by simp
next
  case (Cons x xs)
  show ?case
    by (cases "restoreContainer e x w") (simp_all add: Cons)
qed

lemma view_append: "view (a @ b) = view a @ view b"
  by (simp add: view_def)

lemma view_concerns: "\<forall>ev \<in> set evs. \<not> concerns n ev \<Longrightarrow> \<forall>ev \<in> set (view evs). \<not> concerns n ev"
  by (simp add: view_def)

text \<open>
  C7.  One cycle of the supervisor, \<open>doRestore\<close>, on a host whose store is keyed by
  the container name and answers the request for the desired-running records, and
  where writing a configuration file does not fail.  For every desired-running
  record \<open>v\<close> whose container is not running and whose every start attempt fails,
  the cycle returns, and its events are: events that do not concern the container
  (the request to the store and the records handled before \<open>v\<close>), then six start
  attempts for the container (each begins with \<open>lxc.NewContainer\<close>) with sleeps of
  5, 6, 7, 8 and 9 seconds between them, then the saving of the record as Stopped,
  once, then events that do not concern the container (the records handled after
  \<open>v\<close>).  After the cycle the record is not desired-running, and however many further
  cycles the supervisor runs, it makes no start attempt for this container: only a
  change of the record from outside can bring one back.
\<close>

theorem supervisor_cycle_downgrade:
  assumes fetch: "failure e (trace w) (EvFindContainers Running) = None"
    and writes: "\<And>tr p. failure e tr (EvWriteFile p) = None"
    and keyed: "distinct (map Name' (db w))"
    and desired: "v \<in> set (db w)" "State' v = Running"
    and notrun: "State w (Name' v) \<noteq> Running"
    and allfail: "\<And>tr. startFails e tr (Name' v)"
  shows "\<exists>w' pre post.
           doRestore e w = Return () w' \<and>
           view (trace w') = view (trace w) @ pre @
             [EvNewContainer (Name' v), EvSleep 5, EvNewContainer (Name' v), EvSleep 6,
              EvNewContainer (Name' v), EvSleep 7, EvNewContainer (Name' v), EvSleep 8,
              EvNewContainer (Name' v), EvSleep 9, EvNewContainer (Name' v),
              EvSaveContainer (Name' v) Stopped] @ post \<and>
           (\<forall>ev \<in> set (pre @ post). \<not> concerns (Name' v) ev) \<and>
           \<not> desiredRunning w' (Name' v) \<and>
           (\<forall>n. filter (startOf (Name' v)) (trace (final (StateRestore n e w')))
                  = filter (startOf (Name' v)) (trace w'))"
proof -
  let ?n = "Name' v"
  let ?seg = "[EvNewContainer ?n, EvSleep 5, EvNewContainer ?n, EvSleep 6,
              EvNewContainer ?n, EvSleep 7, EvNewContainer ?n, EvSleep 8,
              EvNewContainer ?n, EvSleep 9, EvNewContainer ?n, EvSaveContainer ?n Stopped]"
  let ?w1 = "emit (EvFindContainers Running) w"
  let ?active = "filter (\<lambda>c. State' c = Running) (db w)"
  have unf: "doRestore e w = restoreEach e ?active ?w1"
    using fetch
    by (simp add: doRestore_def getContainersSupposedToBeRunning_def db_FindContainers_def
        call_def emit_def)
  have "v \<in> set ?active" using desired by simp
  then obtain before after where sp: "?active = before @ v # after"
    by (meson split_list)
  have "distinct (map Name' ?active)" using keyed by (simp add: distinct_map_filter)
  then have others: "\<forall>c \<in> set before. Name' c \<noteq> ?n" "\<forall>c \<in> set after. Name' c \<noteq> ?n"
    unfolding sp by (auto simp: image_iff)
  obtain w2 where b: "restoreEach e before ?w1 = Return () w2"
    using restoreEach_returns[OF writes] by blast
  have a1: "apart ?n w ?w1" by (simp add: apart_emit)
  have "apart ?n ?w1 (final (restoreEach e before ?w1))"
    by (rule apart_restoreEach[OF others(1)])
  with b a1 have a2: "apart ?n w w2" by (auto intro: apart_trans)
  then have nr: "State w2 ?n \<noteq> Running" using notrun by (simp add: apart_def State_def)
  from supervisor_downgrade_aux[OF nr allfail] obtain w3 where
    c: "restoreContainer e v w2 = Return () w3"
    and t3: "view (trace w3) = view (trace w2) @ ?seg"
    and nd3: "\<not> desiredRunning w3 ?n"
    by blast
  obtain w4 where d: "restoreEach e after w3 = Return () w4"
    using restoreEach_returns[OF writes] by blast
  have "apart ?n w3 (final (restoreEach e after w3))"
    by (rule apart_restoreEach[OF others(2)])
  with d have a4: "apart ?n w3 w4" by simp
  have run: "doRestore e w = Return () w4"
    unfolding unf sp restoreEach_append using b c d by simp
  from a2 obtain evs1 where e1: "trace w2 = trace w @ evs1" "\<forall>ev \<in> set evs1. \<not> concerns ?n ev"
    by (auto simp: apart_def)
  from a4 obtain evs2 where e2: "trace w4 = trace w3 @ evs2" "\<forall>ev \<in> set evs2. \<not> concerns ?n ev"
    by (auto simp: apart_def)
  have tr: "view (trace w4) = view (trace w) @ view evs1 @ ?seg @ view evs2"
    using e1(1) e2(1) t3 by (simp add: view_append)
  have nc: "\<forall>ev \<in> set (view evs1 @ view evs2). \<not> concerns ?n ev"
    using view_concerns[OF e1(2)] view_concerns[OF e2(2)] by auto
  have nd4: "\<not> desiredRunning w4 ?n" using nd3 a4 by (simp add: apart_def)
  have "\<forall>n. filter (startOf ?n) (trace (final (StateRestore n e w4))) = filter (startOf ?n) (trace w4)"
    using quiet_StateRestore[OF nd4] by (simp add: quiet_def)
  with run tr nc nd4 show ?thesis by blast
qed

theorem supervisor_cycle_downgrade_witness:
  "\<exists>w' pre post.
     doRestore deadStartEnv supervisedWorld = Return () w' \<and>
     view (trace w') = pre @
        [EvNewContainer ''web1'', EvSleep 5, EvNewContainer ''web1'', EvSleep 6,
         EvNewContainer ''web1'', EvSleep 7, EvNewContainer ''web1'', EvSleep 8,
         EvNewContainer ''web1'', EvSleep 9, EvNewContainer ''web1'',
         EvSaveContainer ''web1'' ''STOPPED''] @ post \<and>
     (\<forall>ev \<in> set (pre @ post). \<not> concerns ''web1'' ev) \<and>
     \<not> desiredRunning w' ''web1'' \<and>
     (\<forall>n. filter (startOf ''web1'') (trace (final (StateRestore n deadStartEnv w')))
              = filter (startOf ''web1'') (trace w'))"
proof -
  have f: "failure deadStartEnv (trace supervisedWorld) (EvFindContainers Running) = None"
    and wr: "\<And>tr p. failure deadStartEnv tr (EvWriteFile p) = None"
    by (simp_all add: deadStartEnv_def env0_def)
  have k: "distinct (map Name' (db supervisedWorld))" "web1 \<in> set (db supervisedWorld)"
    "State' web1 = Running"
    by (simp_all add: supervisedWorld_def world0_def web1_def)
  have a: "State supervisedWorld (Name' web1) \<noteq> Running"
    by (simp add: State_def supervisedWorld_def world0_def Stopped_def Running_def)
  have b: "\<And>tr. startFails deadStartEnv tr (Name' web1)"
    by (simp add: startFails_def deadStartEnv_def env0_def)
  show ?thesis
    using supervisor_cycle_downgrade[of deadStartEnv supervisedWorld web1, OF f wr k a b]
    by (simp add: web1_def supervisedWorld_def world0_def view_def Stopped_def)
qed


section \<open>Import of an installed reference\<close>

lemma fetchTemplateInfo_frame:
  "fetchTemplateInfo e t0 url w = Return t w1 \<Longrightarrow> w1 = emit (EvHttpGet url) w"
  by (auto simp: fetchTemplateInfo_def call_def log_Check_cases log_Error_def
      split: option.splits if_splits)

lemma getTemplateInfo_frame:
  "getTemplateInfo e name w = Return t w1 \<Longrightarrow> \<exists>url. w1 = emit (EvHttpGet url) w"
  by (auto simp: getTemplateInfo_def getTemplateInfoById_def getTemplateInfoByName_def Let_def
      log_Error_def dest: fetchTemplateInfo_frame split: option.splits if_splits)

lemma import_installed:
  assumes root: "fs_DatasetExists w []"
    and noexch: "\<not> (LxcInstanceExists w name \<and> name = Management \<and> length token > 1)"
    and remote: "\<not> fs_FileExists w name"
    and res: "getTemplateInfo e name w = Return t (emit (EvHttpGet url) w)"
    and free: "\<And>tr. failure e tr (EvLock (Join [Name t, Owner t, Version t] '':'') ''import'') = None"
    and inst: "LxcInstanceExists w (Join [Name t, Owner t, Version t] '':'')"
    and nomgmt: "\<not> (Name t = Management \<and> \<not> IsContainer w Management)"
  shows "LxcImport (Suc (Suc fuel)) e name token aux w =
     Some (Return () (w\<lparr>trace := trace w @
        [EvHttpGet url, EvInfo (''Importing '' @ Name t),
         EvLock (Join [Name t, Owner t, Version t] '':'') ''import'',
         EvInfo (Name t @ '' instance exists''),
         EvUnlock (Join [Name t, Owner t, Version t] '':'') ''import'']\<rparr>))"
proof -
  let ?ref = "Join [Name t, Owner t, Version t] '':''"
  let ?w1 = "log_Info (''Importing '' @ Name t) (emit (EvHttpGet url) w)"
  have r: "importResolve e name w
        = Return (t, ?ref, pathJoin [CacheDir (cfg e), Id' t], False) ?w1"
    using remote res by (simp add: importResolve_def Let_def)
  have l: "lockLoop (Suc fuel) e ?ref ''import'' ?w1 = Some (emit (EvLock ?ref ''import'') ?w1)"
    using free by (simp add: call_def)
  have i: "LxcInstanceExists (emit (EvLock ?ref ''import'') ?w1) ?ref"
    using inst by (simp add: LxcInstanceExists_def All_def emit_def log_Info_def)
  have m: "\<not> (Name t = Management \<and> \<not> IsContainer (emit (EvLock ?ref ''import'') ?w1) Management)"
    using nomgmt
    by (simp add: IsContainer_def fs_DatasetExists_def fs_IsDatasetReadOnly_def emit_def
        log_Info_def)
  show ?thesis
    using root noexch r l i m
    by (auto simp: emit_def log_Info_def)
qed


lemma import_twice:
  assumes root: "fs_DatasetExists w []"
    and noexch: "\<not> (LxcInstanceExists w name \<and> name = Management \<and> length token > 1)"
    and remote: "\<not> fs_FileExists w name"
    and res: "\<And>w. getTemplateInfo e name w = Return t (emit (EvHttpGet url) w)"
    and free: "\<And>tr. failure e tr (EvLock (Join [Name t, Owner t, Version t] '':'') ''import'') = None"
    and inst: "LxcInstanceExists w (Join [Name t, Owner t, Version t] '':'')"
    and nomgmt: "\<not> (Name t = Management \<and> \<not> IsContainer w Management)"
  shows "LxcImport (Suc (Suc fuel)) e name token aux w =
           Some (Return () (w\<lparr>trace := trace w @ shortCut url t\<rparr>)) \<and>
         LxcImport (Suc (Suc fuel)) e name token aux (w\<lparr>trace := trace w @ shortCut url t\<rparr>) =
           Some (Return () (w\<lparr>trace := trace w @ shortCut url t @ shortCut url t\<rparr>))"
proof -
  let ?w1 = "w\<lparr>trace := trace w @ shortCut url t\<rparr>"
  have 1: "LxcImport (Suc (Suc fuel)) e name token aux w = Some (Return () ?w1)"
    using import_installed[OF root noexch remote res free inst nomgmt]
    by (simp add: shortCut_def)
  have "LxcImport (Suc (Suc fuel)) e name token aux ?w1 =
          Some (Return () (?w1\<lparr>trace := trace ?w1 @ shortCut url t\<rparr>))"
    unfolding shortCut_def
    apply (rule import_installed[OF _ _ _ res free])
    using root noexch remote inst nomgmt
    by (simp_all add: fs_DatasetExists_def LxcInstanceExists_def All_def fs_FileExists_def
        IsContainer_def fs_IsDatasetReadOnly_def)
  with 1 show ?thesis by simp
qed

text \<open>
  C3, as the code has it.  The reference is computed from the answer of the metadata
  service, so every import of a reference begins with one request to it.  For a
  reference that is installed (and is not the management template waiting for its
  bootstrap), two imports in a row both return; the second makes that one request,
  takes and releases the lock, and nothing else: no download, no dataset call, and
  the host state but for the trace is unchanged.
\<close>

theorem import_idempotent:
  assumes root: "fs_DatasetExists w []"
    and noexch: "\<not> (LxcInstanceExists w name \<and> name = Management \<and> length token > 1)"
    and remote: "\<not> fs_FileExists w name"
    and res: "\<And>w. getTemplateInfo e name w = Return t (emit (EvHttpGet url) w)"
    and free: "\<And>tr. failure e tr (EvLock (Join [Name t, Owner t, Version t] '':'') ''import'') = None"
    and inst: "LxcInstanceExists w (Join [Name t, Owner t, Version t] '':'')"
    and nomgmt: "\<not> (Name t = Management \<and> \<not> IsContainer w Management)"
  shows "\<exists>w1 w2. LxcImport (Suc (Suc fuel)) e name token aux w = Some (Return () w1) \<and>
           LxcImport (Suc (Suc fuel)) e name token aux w1 = Some (Return () w2) \<and>
           trace w2 = trace w1 @ shortCut url t \<and>
           filter isNetwork (shortCut url t) = [EvHttpGet url] \<and>
           filter isDatasetCall (shortCut url t) = [] \<and>
           datasets w2 = datasets w \<and> readonly w2 = readonly w \<and> files w2 = files w \<and>
           lxc w2 = lxc w \<and> cstate w2 = cstate w \<and> db w2 = db w"
  using import_twice[OF root noexch remote res free inst nomgmt, of fuel aux]
  by (auto simp: shortCut_def)

lemma splitStr_base: "splitStr ''id:'' ''base'' = [''base'']"
  by code_simp

lemma base_resolves:
  "getTemplateInfo baseEnv ''base'' w =
     Return tmpl0 (emit (EvHttpGet ''cdn/template?name=base&version=latest'') w)"
  by (simp add: getTemplateInfo_def splitStr_base getTemplateInfoByName_def Let_def
      fetchTemplateInfo_def call_def log_Check_cases baseEnv_def env0_def cfg0_def tmpl0_def
      emptyTemplate_def)

lemma base_ref: "Join [Name tmpl0, Owner tmpl0, Version tmpl0] '':'' = ''base:pub:1.0.0''"
  by (simp add: tmpl0_def)

lemma base_free: "failure baseEnv tr ev = None"
  by (simp add: baseEnv_def env0_def)

lemma installed_facts:
  "fs_DatasetExists installedWorld []"
  "\<not> (LxcInstanceExists installedWorld ''base'' \<and> ''base'' = Management \<and> length ([]::string) > 1)"
  "\<not> fs_FileExists installedWorld ''base''"
  "LxcInstanceExists installedWorld (Join [Name tmpl0, Owner tmpl0, Version tmpl0] '':'')"
  "\<not> (Name tmpl0 = Management \<and> \<not> IsContainer installedWorld Management)"
  by (simp_all add: installedWorld_def world0_def fs_DatasetExists_def fs_FileExists_def
      LxcInstanceExists_def All_def tmpl0_def Management_def)

theorem import_idempotent_witness:
  "\<exists>w1 w2. LxcImport 2 baseEnv ''base'' [] [] installedWorld = Some (Return () w1) \<and>
     LxcImport 2 baseEnv ''base'' [] [] w1 = Some (Return () w2) \<and>
     trace w2 = trace w1 @
       [EvHttpGet ''cdn/template?name=base&version=latest'', EvInfo ''Importing base'',
        EvLock ''base:pub:1.0.0'' ''import'', EvInfo ''base instance exists'',
        EvUnlock ''base:pub:1.0.0'' ''import''] \<and>
     datasets w2 = datasets installedWorld \<and> files w2 = files installedWorld"
  using import_idempotent[of installedWorld "''base''" "[]" baseEnv tmpl0
      "''cdn/template?name=base&version=latest''" 0 "[]",
      OF installed_facts(1,2,3) base_resolves base_free installed_facts(4,5)]
  by (auto simp: shortCut_def tmpl0_def numeral_2_eq_2)

text \<open>
  The claim as stated fails: the second import of the installed \<open>base\<close> makes a
  network call, the request to the metadata service.
\<close>

theorem import_network_counterexample:
  "LxcImport 2 baseEnv ''base'' [] [] installedWorld =
     Some (Return () (installedWorld\<lparr>trace :=
        shortCut ''cdn/template?name=base&version=latest'' tmpl0\<rparr>)) \<and>
   LxcImport 2 baseEnv ''base'' [] []
       (installedWorld\<lparr>trace := shortCut ''cdn/template?name=base&version=latest'' tmpl0\<rparr>) =
     Some (Return () (installedWorld\<lparr>trace :=
        shortCut ''cdn/template?name=base&version=latest'' tmpl0 @
        shortCut ''cdn/template?name=base&version=latest'' tmpl0\<rparr>)) \<and>
   filter isNetwork (shortCut ''cdn/template?name=base&version=latest'' tmpl0) =
     [EvHttpGet ''cdn/template?name=base&version=latest'']"
  using import_twice[of installedWorld "''base''" "[]" baseEnv tmpl0
      "''cdn/template?name=base&version=latest''" 0 "[]",
      OF installed_facts(1,2,3) base_resolves base_free installed_facts(4,5)]
  by (simp add: shortCut_def numeral_2_eq_2 installedWorld_def world0_def)


section \<open>Traces only grow\<close>

lemma grows_refl [simp]: "grows w w"
  by (simp add: grows_def)

lemma grows_trans: "grows w w1 \<Longrightarrow> grows w1 w2 \<Longrightarrow> grows w w2"
  by (auto simp: grows_def)

lemma grows_emit [simp]: "grows w (emit ev w)"
  by (simp add: grows_def emit_def)

lemma grows_emit' : "grows w w1 \<Longrightarrow> grows w (emit ev w1)"
  by (auto simp: grows_def emit_def)

lemma grows_upd [simp]:
  "grows w (w1\<lparr>files := f\<rparr>) = grows w w1"
  "grows w (w1\<lparr>datasets := d\<rparr>) = grows w w1"
  "grows w (w1\<lparr>readonly := r\<rparr>) = grows w w1"
  "grows w (w1\<lparr>cstate := c\<rparr>) = grows w w1"
  "grows w (w1\<lparr>db := b\<rparr>) = grows w w1"
  "grows w (w1\<lparr>lxc := l\<rparr>) = grows w w1"
  by (simp_all add: grows_def)

lemma grows_call [simp]: "grows w (snd (call e ev w))"
  by (simp add: call_def)

lemma grows_andThen:
  assumes "grows w (final m)"
    and "\<And>x w1. m = Return x w1 \<Longrightarrow> grows w1 (final (f x w1))"
  shows "grows w (final (andThen m f))"
  using assms by (cases m) (auto intro: grows_trans)

lemma grows_log_Check [simp]: "final (log_Check lv msg err w) = w"
  by (cases lv; cases err; simp add: log_Error_def log_Fatal_def)

lemma log_Check_Return: "log_Check lv msg err w = Return x w1 \<Longrightarrow> w1 = w"
  by (cases lv; cases err; simp add: log_Error_def log_Fatal_def)

lemma grows_fs [simp]:
  "grows w (snd (fs_CreateDataset e n w))"
  "grows w (snd (fs_RemoveDataset e n r w))"
  "grows w (snd (fs_ReceiveStream e n d a w))"
  "grows w (snd (fs_SetDatasetReadOnly e n w))"
  "grows w (snd (fs_RollbackToSnapshot e n f w))"
  "grows w (snd (fs_ListSnapshotNamesOnly e n w))"
  "grows w (snd (fs_Copy e s d w))"
  "grows w (snd (fs_Decompress e s d w))"
  "grows w (snd (os_RemoveAll e p w))"
  "grows w (snd (os_Remove e p w))"
  "grows w (snd (os_Rename e p q w))"
  by (auto simp: fs_CreateDataset_def fs_RemoveDataset_def fs_ReceiveStream_def
      fs_SetDatasetReadOnly_def fs_RollbackToSnapshot_def fs_ListSnapshotNamesOnly_def
      fs_Copy_def fs_Decompress_def os_RemoveAll_def os_Remove_def os_Rename_def call_def
      split: option.splits node.splits)

lemma grows_snd: "f w = (x, w1) \<Longrightarrow> grows w (snd (f w)) \<Longrightarrow> grows w w1"
  by simp

lemma grows_steps: "(\<And>s w. s \<in> set ss \<Longrightarrow> grows w (snd (s w))) \<Longrightarrow> grows w (snd (steps ss w))"
proof (induction ss arbitrary: w)
  case Nil
  then show ?case by simp
next
  case (Cons s ss)
  have a: "grows w (snd (s w))" using Cons.prems by simp
  show ?case
  proof (cases "s w")
    case (Pair err w1)
    with a have g: "grows w w1" by simp
    show ?thesis
    proof (cases err)
      case None
      have "grows w1 (snd (steps ss w1))" using Cons by simp
      with g Pair None show ?thesis by (auto intro: grows_trans)
    next
      case (Some x)
      with g Pair show ?thesis by simp
    qed
  qed
qed

lemma grows_install [simp]: "grows w (snd (install e n w))"
  unfolding install_def Let_def by (rule grows_steps) auto


lemma grows_lockLoop: "lockLoop n e name operation w = Some w1 \<Longrightarrow> grows w w1"
proof (induction n arbitrary: w)
  case 0
  then show ?case by simp
next
  case (Suc n)
  show ?case
  proof (cases "failure e (trace w) (EvLock name operation)")
    case None
    with Suc.prems show ?thesis by (auto simp: call_def)
  next
    case (Some err)
    with Suc.prems have "lockLoop n e name operation (emit (EvSleep 1) (emit (EvLock name operation) w)) = Some w1"
      by (simp add: call_def)
    from Suc.IH[OF this] show ?thesis
      by (auto simp: grows_def emit_def)
  qed
qed

lemma grows_destroySnapshots [simp]: "grows w (snd (destroySnapshots e silent ls err w))"
proof (induction ls arbitrary: err w)
  case Nil
  then show ?case by simp
next
  case (Cons l ls)
  let ?s = "TrimSpace (TrimPrefix l (Dataset (cfg e)))"
  obtain x1 x2 where r: "fs_RemoveDataset e ?s False w = (x1, x2)" by (metis prod.exhaust)
  then have g: "grows w x2" using grows_fs(2)[of w e ?s False] by simp
  have "grows w (snd (destroySnapshots e silent ls x1 x2))"
    by (rule grows_trans[OF g Cons.IH])
  with g r Cons.IH[of w err] show ?case by (simp add: Let_def)
qed

lemma grows_destroyChildren [simp]: "grows w (snd (destroyChildren e silent name ds err w))"
proof (induction ds arbitrary: err w)
  case Nil
  then show ?case by simp
next
  case (Cons d ds)
  let ?s = "pathJoin [name, d]"
  obtain x1 x2 where r: "fs_RemoveDataset e ?s False w = (x1, x2)" by (metis prod.exhaust)
  then have g: "grows w x2" using grows_fs(2)[of w e ?s False] by simp
  have "grows w (snd (destroyChildren e silent name ds x1 x2))"
    by (rule grows_trans[OF g Cons.IH])
  with g r Cons.IH[of w err] show ?case by (simp add: Let_def)
qed

lemma grows_destroyLocked [simp]: "grows w (snd (destroyLocked e name silent w))"
proof -
  obtain out err w1 where l: "fs_ListSnapshotNamesOnly e name w = ((out, err), w1)"
    by (metis prod.exhaust)
  then have g1: "grows w w1" using grows_fs(6)[of w e name] by simp
  obtain r2 w2 where s: "destroySnapshots e silent (splitLines out) err w1 = (r2, w2)"
    by (metis prod.exhaust)
  then have g2: "grows w1 w2" using grows_destroySnapshots[of w1 e silent "splitLines out" err] by simp
  obtain r3 w3 where c: "destroyChildren e silent name ChildDatasets (fst r2) w2 = (r3, w3)"
    by (metis prod.exhaust)
  then have g3: "grows w2 w3"
    using grows_destroyChildren[of w2 e silent name ChildDatasets "fst r2"] by simp
  have g4: "grows w3 (snd (fs_RemoveDataset e name False w3))" by simp
  show ?thesis
    using l s c g1 g2 g3 g4 grows_trans[OF g1 g2] grows_trans[OF grows_trans[OF g1 g2] g3]
      grows_trans[OF grows_trans[OF grows_trans[OF g1 g2] g3] g4]
    by (cases r2; cases r3) (auto simp: destroyLocked_def split: if_splits bool.splits)
qed

lemma grows_Destroy: "Destroy n e name silent w = Some (err, w1) \<Longrightarrow> grows w w1"
  by (auto simp: Destroy_def split: option.splits prod.splits
      dest!: grows_lockLoop intro!: grows_emit'
      intro: grows_trans[OF _ grows_snd[OF _ grows_destroyLocked]])


named_theorems gT

lemma gT_basic [gT]:
  "grows w0 w \<Longrightarrow> grows w0 (final (Return x w))"
  "grows w0 w \<Longrightarrow> grows w0 (final (Exit m w))"
  "grows w0 w \<Longrightarrow> grows w0 (final (Panic w))"
  "grows w0 w \<Longrightarrow> grows w0 (final (log_Error m w))"
  "grows w0 w \<Longrightarrow> grows w0 (final (log_Fatal m w))"
  "grows w0 w \<Longrightarrow> grows w0 (final (log_Check lv m err w))"
  "grows w0 w \<Longrightarrow> grows w0 (final (getItem w p i))"
  "grows w0 w \<Longrightarrow> grows w0 (emit ev w)"
  "grows w0 w \<Longrightarrow> grows w0 (log_Info m w)"
  "grows w0 w \<Longrightarrow> grows w0 (snd (call e ev w))"
  "grows w0 w \<Longrightarrow> grows w0 (w\<lparr>files := f\<rparr>)"
  "grows w0 w \<Longrightarrow> grows w0 (w\<lparr>datasets := d\<rparr>)"
  "grows w0 w \<Longrightarrow> grows w0 (w\<lparr>readonly := r\<rparr>)"
  "grows w0 w \<Longrightarrow> grows w0 (w\<lparr>cstate := c\<rparr>)"
  "grows w0 w \<Longrightarrow> grows w0 (w\<lparr>db := b\<rparr>)"
  by (simp_all add: log_Error_def log_Fatal_def log_Info_def getItem_def call_def grows_emit'
      split: option.splits)

lemma gT_prims [gT]:
  "grows w0 w \<Longrightarrow> grows w0 (snd (fs_CreateDataset e n w))"
  "grows w0 w \<Longrightarrow> grows w0 (snd (fs_RemoveDataset e n r w))"
  "grows w0 w \<Longrightarrow> grows w0 (snd (fs_ReceiveStream e n d a w))"
  "grows w0 w \<Longrightarrow> grows w0 (snd (fs_SetDatasetReadOnly e n w))"
  "grows w0 w \<Longrightarrow> grows w0 (snd (fs_RollbackToSnapshot e n f w))"
  "grows w0 w \<Longrightarrow> grows w0 (snd (fs_ListSnapshotNamesOnly e n w))"
  "grows w0 w \<Longrightarrow> grows w0 (snd (fs_Copy e s d w))"
  "grows w0 w \<Longrightarrow> grows w0 (snd (fs_Decompress e s d w))"
  "grows w0 w \<Longrightarrow> grows w0 (snd (os_RemoveAll e p w))"
  "grows w0 w \<Longrightarrow> grows w0 (snd (os_Remove e p w))"
  "grows w0 w \<Longrightarrow> grows w0 (snd (os_Rename e p q w))"
  "grows w0 w \<Longrightarrow> grows w0 (snd (install e n w))"
  "grows w0 w \<Longrightarrow> grows w0 (snd (destroyLocked e n silent w))"
  by (erule grows_trans, simp)+

lemma gT_andThen [gT]:
  assumes "grows w0 (final m)"
    and "\<And>x w1. grows w0 w1 \<Longrightarrow> grows w0 (final (f x w1))"
  shows "grows w0 (final (andThen m f))"
  using assms by (cases m) auto

lemma gT_prod [gT]:
  assumes "grows w0 (snd p)"
    and "\<And>x w1. grows w0 w1 \<Longrightarrow> grows w0 (final (g x w1))"
  shows "grows w0 (final (case p of (x, w1) \<Rightarrow> g x w1))"
  using assms by (cases p) auto

lemma gT_if [gT]:
  "(c \<Longrightarrow> grows w0 (final a)) \<Longrightarrow> (\<not> c \<Longrightarrow> grows w0 (final b)) \<Longrightarrow>
   grows w0 (final (if c then a else b))"
  "(c \<Longrightarrow> grows w0 wa) \<Longrightarrow> (\<not> c \<Longrightarrow> grows w0 wb) \<Longrightarrow> grows w0 (if c then wa else wb)"
  by simp_all

lemma gT_option [gT]:
  "(x = None \<Longrightarrow> grows w0 (final a)) \<Longrightarrow> (\<And>y. x = Some y \<Longrightarrow> grows w0 (final (b y))) \<Longrightarrow>
   grows w0 (final (case x of None \<Rightarrow> a | Some y \<Rightarrow> b y))"
  by (cases x) simp_all

lemma gT_prod2 [gT]:
  "(\<And>a b. p = (a, b) \<Longrightarrow> grows w0 (final (g a b))) \<Longrightarrow>
   grows w0 (final (case p of (a, b) \<Rightarrow> g a b))"
  by (cases p) simp

lemma gT_more [gT]:
  "(\<And>a b. x = (a, b) \<Longrightarrow> grows w0 (final (h a b w1))) \<Longrightarrow>
   grows w0 (final ((case x of (a, b) \<Rightarrow> h a b) w1))"
  "grows w0 (snd pa) \<Longrightarrow> grows w0 (snd pb) \<Longrightarrow> grows w0 (snd (if c then pa else pb))"
  "grows w0 w \<Longrightarrow> grows w0 (snd (y, w))"
  by (cases x; simp)+

lemma gT_CreateContainerConf [gT]:
  "grows w0 w \<Longrightarrow> grows w0 (final (CreateContainerConf e p conf w))"
  unfolding CreateContainerConf_def Let_def
  by (intro gT | assumption)+

lemma gT_SetContainerConf [gT]:
  "grows w0 w \<Longrightarrow> grows w0 (final (SetContainerConf e c conf w))"
  unfolding SetContainerConf_def by (rule gT)

lemma gT_updateContainerConfig [gT]:
  "grows w0 w \<Longrightarrow> grows w0 (final (updateContainerConfig e n w))"
  unfolding updateContainerConfig_def by (rule gT)

lemma gT_initManagement [gT]:
  "grows w0 w \<Longrightarrow> grows w0 (final (initManagement e r w))"
  unfolding initManagement_def by (intro gT | assumption)+

lemma gT_getTemplateUrl [gT]:
  "grows w0 w \<Longrightarrow> grows w0 (final (getTemplateUrl e t w))"
  unfolding getTemplateUrl_def Let_def by (intro gT | assumption)+

lemma gT_fetchTemplateInfo [gT]:
  "grows w0 w \<Longrightarrow> grows w0 (final (fetchTemplateInfo e t url w))"
  unfolding fetchTemplateInfo_def by (intro gT | assumption)+

lemma gT_getTemplateInfo [gT]:
  "grows w0 w \<Longrightarrow> grows w0 (final (getTemplateInfo e name w))"
  unfolding getTemplateInfo_def getTemplateInfoById_def getTemplateInfoByName_def Let_def
  by (intro gT | assumption)+

lemma gT_importResolve [gT]:
  "grows w0 w \<Longrightarrow> grows w0 (final (importResolve e name w))"
  unfolding importResolve_def Let_def by (intro gT | assumption)+

lemma gT_doDownload [gT]:
  "grows w0 w \<Longrightarrow> grows w0 (final (doDownload e t url w))"
  unfolding doDownload_def Let_def by (intro gT | assumption)+

lemma gT_downloadLoop [gT]:
  "grows w0 w \<Longrightarrow> grows w0 (final (downloadLoop e t url err n w))"
proof (induction e t url err n w rule: downloadLoop.induct)
  case (1 e template templateUrl err attempts w)
  show ?case
    by (subst downloadLoop.simps) (intro gT "1.IH" "1.prems" | assumption)+
qed

lemma gT_downloadFromGateway [gT]:
  "grows w0 w \<Longrightarrow> grows w0 (final (downloadFromGateway e t w))"
  unfolding downloadFromGateway_def by (intro gT | assumption)+

lemma gT_downloadViaLocalIPFSNode [gT]:
  "grows w0 w \<Longrightarrow> grows w0 (final (downloadViaLocalIPFSNode e t w))"
  unfolding downloadViaLocalIPFSNode_def Let_def by (intro gT | assumption)+

lemma gT_download [gT]:
  "grows w0 w \<Longrightarrow> grows w0 (final (download e t w))"
  unfolding download_def by (intro gT | assumption)+

lemma gT_importFetch [gT]:
  "grows w0 w \<Longrightarrow> grows w0 (final (importFetch e t r a l w))"
  unfolding importFetch_def Let_def by (intro gT | assumption)+


lemma gO_Some [gT]: "grows w0 (final r) \<Longrightarrow> growsO w0 (Some r)"
  by (simp add: growsO_def)

lemma gO_bindO [gT]:
  assumes "growsO w0 m" and "\<And>x w1. grows w0 w1 \<Longrightarrow> growsO w0 (f x w1)"
  shows "growsO w0 (bindO m f)"
proof (cases m)
  case None
  then show ?thesis by (simp add: growsO_def)
next
  case (Some r)
  with assms show ?thesis by (cases r) (auto simp: growsO_def)
qed

lemma gO_if [gT]:
  "(c \<Longrightarrow> growsO w0 a) \<Longrightarrow> (\<not> c \<Longrightarrow> growsO w0 b) \<Longrightarrow> growsO w0 (if c then a else b)"
  by simp

lemma gO_prod [gT]:
  "(\<And>a b. x = (a, b) \<Longrightarrow> growsO w0 (h a b w1)) \<Longrightarrow> growsO w0 ((case x of (a, b) \<Rightarrow> h a b) w1)"
  by (cases x) simp

lemma gO_deferred [gT]:
  "growsO w0 m \<Longrightarrow> growsO w0 (map_option (deferred (emit ev)) m)"
proof -
  have "\<And>r. grows w0 (final r) \<Longrightarrow> grows w0 (final (deferred (emit ev) r))"
    subgoal for r by (cases r) (simp_all add: grows_emit')
    done
  then show "growsO w0 m \<Longrightarrow> growsO w0 (map_option (deferred (emit ev)) m)"
    by (auto simp: growsO_def)
qed

lemma gO_lockLoop [gT]:
  "grows w0 w \<Longrightarrow> growsO w0 (map_option (Return ()) (lockLoop n e name operation w))"
  by (auto simp: growsO_def dest!: grows_lockLoop intro: grows_trans)

lemma gO_Destroy [gT]:
  "grows w0 w \<Longrightarrow> growsO w0 (map_option (\<lambda>(err, w). Return () w) (Destroy n e name silent w))"
  by (auto simp: growsO_def dest!: grows_Destroy intro: grows_trans)

lemma gO_importInstall [gT]:
  "grows w0 w \<Longrightarrow> growsO w0 (importInstall fuel e t r d a l w)"
  unfolding importInstall_def Let_def by (intro gT | assumption)+

lemma gO_LxcImport [gT]:
  "grows w0 w \<Longrightarrow> growsO w0 (LxcImport fuel e name token aux w)"
proof (induction fuel arbitrary: w name aux)
  case 0
  then show ?case by (simp add: growsO_def)
next
  case (Suc fuel)
  show ?case
    unfolding LxcImport.simps by (intro gT Suc.IH Suc.prems | assumption)+
qed


section \<open>The import lock\<close>

lemma lockLoop_trace:
  "lockLoop n e name operation w = Some w2 \<Longrightarrow>
   \<exists>polls. trace w2 = trace w @ polls @ [EvLock name operation] \<and>
           set polls \<subseteq> {EvLock name operation, EvSleep 1} \<and>
           datasets w2 = datasets w \<and> readonly w2 = readonly w \<and> files w2 = files w \<and>
           lxc w2 = lxc w"
proof (induction n arbitrary: w)
  case 0
  then show ?case by simp
next
  case (Suc n)
  show ?case
  proof (cases "failure e (trace w) (EvLock name operation)")
    case None
    with Suc.prems have "w2 = emit (EvLock name operation) w" by (simp add: call_def)
    then show ?thesis by (simp add: emit_def)
  next
    case (Some err)
    let ?w = "emit (EvSleep 1) (emit (EvLock name operation) w)"
    from Some Suc.prems have "lockLoop n e name operation ?w = Some w2"
      by (simp add: call_def)
    from Suc.IH[OF this] obtain polls where
      p: "trace w2 = trace ?w @ polls @ [EvLock name operation]"
         "set polls \<subseteq> {EvLock name operation, EvSleep 1}"
         "datasets w2 = datasets ?w" "readonly w2 = readonly ?w" "files w2 = files ?w"
         "lxc w2 = lxc ?w"
      by blast
    have "trace w2 = trace w @ ([EvLock name operation, EvSleep 1] @ polls) @ [EvLock name operation]"
      using p(1) by (simp add: emit_def)
    moreover have "set ([EvLock name operation, EvSleep 1] @ polls) \<subseteq> {EvLock name operation, EvSleep 1}"
      using p(2) by auto
    ultimately show ?thesis using p(3-6) by (intro exI[of _ "[EvLock name operation, EvSleep 1] @ polls"]) (simp add: emit_def)
  qed
qed

lemma importResolve_trace:
  assumes "importResolve e name w = Return (t, ref, archive, local) w1"
  shows "\<exists>pre. trace w1 = trace w @ pre @ [EvInfo (''Importing '' @ Name t)] \<and>
           (pre = [] \<or> (\<exists>url. pre = [EvHttpGet url])) \<and>
           datasets w1 = datasets w \<and> readonly w1 = readonly w \<and> files w1 = files w \<and>
           lxc w1 = lxc w"
proof (cases "fs_FileExists w name")
  case True
  with assms show ?thesis
    by (auto simp: importResolve_def Let_def log_Info_def emit_def)
next
  case False
  with assms obtain t0 w0 where g: "getTemplateInfo e name w = Return t0 w0"
    and r: "Return (t0, Join [Name t0, Owner t0, Version t0] '':'',
               pathJoin [CacheDir (cfg e), Id' t0], False)
              (log_Info (''Importing '' @ Name t0) w0)
            = (Return (t, ref, archive, local) w1 :: (Template \<times> string \<times> string \<times> bool) outcome)"
    by (cases "getTemplateInfo e name w") (auto simp: importResolve_def Let_def)
  from getTemplateInfo_frame[OF g] obtain url where "w0 = emit (EvHttpGet url) w" by blast
  with r show ?thesis
    by (auto simp: log_Info_def emit_def)
qed


lemma import_bracket:
  assumes run: "LxcImport (Suc fuel) e name token aux w = Some r"
    and root: "fs_DatasetExists w []"
    and noexch: "\<not> (LxcInstanceExists w name \<and> name = Management \<and> length token > 1)"
    and res: "importResolve e name w = Return (t, ref, archive, local) w1"
  shows "\<exists>pre polls mid.
           (pre = [] \<or> (\<exists>url. pre = [EvHttpGet url])) \<and>
           set polls \<subseteq> {EvLock ref ''import'', EvSleep 1} \<and>
           trace (final r) = trace w @ pre @ [EvInfo (''Importing '' @ Name t)] @ polls @
              [EvLock ref ''import''] @ mid @
              (if exited r then [] else [EvUnlock ref ''import'']) \<and>
           (LxcInstanceExists w ref \<and> \<not> (Name t = Management \<and> \<not> IsContainer w Management)
              \<longrightarrow> returned r \<and> mid = [EvInfo (Name t @ '' instance exists'')])"
proof -
  from importResolve_trace[OF res] obtain pre where
    pre: "trace w1 = trace w @ pre @ [EvInfo (''Importing '' @ Name t)]"
         "pre = [] \<or> (\<exists>url. pre = [EvHttpGet url])"
         "datasets w1 = datasets w" "readonly w1 = readonly w" "lxc w1 = lxc w"
    by blast
  define B where "B = (\<lambda>w.
     (if LxcInstanceExists w ref then
        (if Name t = Management \<and> \<not> IsContainer w Management
         then Some (initManagement e ref w)
         else Some (Return () (log_Info (Name t @ '' instance exists'') w)))
      else
        bindO (Some (importFetch e t ref archive local w))
          (\<lambda>(templateRef, extractDir, parentRef) w.
        bindO (if parentRef \<noteq> templateRef \<and> \<not> IsTemplate w parentRef \<and>
                  \<not> stringInList parentRef aux
               then LxcImport fuel e parentRef token (aux @ [parentRef, templateRef])
                      (log_Info (''Parent template required: '' @ parentRef) w)
               else Some (Return () w)) (\<lambda>_ w.
        importInstall fuel e t templateRef extractDir archive local w))))"
  have unf: "LxcImport (Suc fuel) e name token aux w =
      bindO (map_option (Return ()) (lockLoop fuel e ref ''import'' w1)) (\<lambda>_ w.
        map_option (deferred (emit (EvUnlock ref ''import''))) (B w))"
    using root noexch res by (auto simp: B_def)
  obtain w2 where l: "lockLoop fuel e ref ''import'' w1 = Some w2"
    using run unfolding unf by (cases "lockLoop fuel e ref ''import'' w1") auto
  from lockLoop_trace[OF l] obtain polls where
    polls: "trace w2 = trace w1 @ polls @ [EvLock ref ''import'']"
           "set polls \<subseteq> {EvLock ref ''import'', EvSleep 1}"
           "datasets w2 = datasets w1" "readonly w2 = readonly w1" "lxc w2 = lxc w1"
    by blast
  have gb: "growsO w2 (B w2)"
    unfolding B_def by (intro gT grows_refl | assumption)+
  have r: "Some r = map_option (deferred (emit (EvUnlock ref ''import''))) (B w2)"
    using run unfolding unf by (auto simp: l)
  then obtain b where b: "B w2 = Some b" and rb: "r = deferred (emit (EvUnlock ref ''import'')) b"
    by (cases "B w2") auto
  from gb b obtain mid where mid: "trace (final b) = trace w2 @ mid"
    by (auto simp: growsO_def grows_def)
  have tr: "trace (final r) = trace w @ pre @ [EvInfo (''Importing '' @ Name t)] @ polls @
              [EvLock ref ''import''] @ mid @ (if exited r then [] else [EvUnlock ref ''import''])"
    using rb mid polls(1) pre(1) by (cases b) (simp_all add: emit_def)
  have same: "LxcInstanceExists w2 ref = LxcInstanceExists w ref"
    "IsContainer w2 Management = IsContainer w Management"
    using pre polls
    by (simp_all add: LxcInstanceExists_def All_def IsContainer_def fs_DatasetExists_def
        fs_IsDatasetReadOnly_def)
  have sc: "LxcInstanceExists w ref \<and> \<not> (Name t = Management \<and> \<not> IsContainer w Management)
              \<longrightarrow> returned r \<and> mid = [EvInfo (Name t @ '' instance exists'')]"
  proof
    assume a: "LxcInstanceExists w ref \<and> \<not> (Name t = Management \<and> \<not> IsContainer w Management)"
    with same have "B w2 = Some (Return () (log_Info (Name t @ '' instance exists'') w2))"
      by (auto simp: B_def)
    with b rb mid show "returned r \<and> mid = [EvInfo (Name t @ '' instance exists'')]"
      by (auto simp: log_Info_def emit_def)
  qed
  from pre(2) polls(2) tr sc show ?thesis by blast
qed


lemma base_importResolve:
  "importResolve baseEnv ''base'' installedWorld =
     Return (tmpl0, ''base:pub:1.0.0'', ''/cache/id1'', False)
       (log_Info ''Importing base'' (emit (EvHttpGet ''cdn/template?name=base&version=latest'') installedWorld))"
  using installed_facts(3)
  by (simp add: importResolve_def Let_def base_resolves base_ref)
     (simp add: tmpl0_def baseEnv_def env0_def cfg0_def pathJoin_def)

lemma base_resolves':
  "getTemplateInfo brokenArchiveEnv ''base'' w =
     Return tmpl0 (emit (EvHttpGet ''cdn/template?name=base&version=latest'') w)"
  by (simp add: getTemplateInfo_def splitStr_base getTemplateInfoByName_def Let_def
      fetchTemplateInfo_def call_def log_Check_cases brokenArchiveEnv_def baseEnv_def env0_def
      cfg0_def tmpl0_def emptyTemplate_def)

lemma emit_fields [simp]:
  "datasets (emit ev w) = datasets w" "readonly (emit ev w) = readonly w"
  "files (emit ev w) = files w" "lxc (emit ev w) = lxc w" "cstate (emit ev w) = cstate w"
  "db (emit ev w) = db w" "trace (emit ev w) = trace w @ [ev]"
  by (simp_all add: emit_def)

lemma log_Info_fields [simp]:
  "datasets (log_Info m w) = datasets w" "readonly (log_Info m w) = readonly w"
  "files (log_Info m w) = files w" "lxc (log_Info m w) = lxc w" "cstate (log_Info m w) = cstate w"
  "db (log_Info m w) = db w" "trace (log_Info m w) = trace w @ [EvInfo m]"
  by (simp_all add: log_Info_def)


section \<open>Frames of the steps of an import\<close>

named_theorems sT

lemma same_refl [simp]: "same P w w"
  by (simp add: same_def)

lemma same_trans: "same P w0 w1 \<Longrightarrow> same P w1 w2 \<Longrightarrow> same P w0 w2"
  by (simp add: same_def)

lemma sT_basic [sT]:
  "same P w0 w \<Longrightarrow> same P w0 (final (Return x w))"
  "same P w0 w \<Longrightarrow> same P w0 (final (Exit m w))"
  "same P w0 w \<Longrightarrow> same P w0 (final (Panic w))"
  "same P w0 w \<Longrightarrow> same P w0 (final (log_Error m w))"
  "same P w0 w \<Longrightarrow> same P w0 (final (log_Fatal m w))"
  "same P w0 w \<Longrightarrow> same P w0 (final (log_Check lv m err w))"
  "same P w0 w \<Longrightarrow> same P w0 (final (getItem w p i))"
  "\<not> P ev \<Longrightarrow> same P w0 w \<Longrightarrow> same P w0 (emit ev w)"
  "\<not> P (EvInfo m) \<Longrightarrow> same P w0 w \<Longrightarrow> same P w0 (log_Info m w)"
  "\<not> P ev \<Longrightarrow> same P w0 w \<Longrightarrow> same P w0 (snd (call e ev w))"
  "same P w0 w \<Longrightarrow> same P w0 (w\<lparr>files := f\<rparr>)"
  "same P w0 w \<Longrightarrow> same P w0 (w\<lparr>cstate := c\<rparr>)"
  "same P w0 w \<Longrightarrow> same P w0 (w\<lparr>db := b\<rparr>)"
  by (simp_all add: same_def log_Error_def log_Fatal_def log_Info_def getItem_def call_def
      emit_def split: option.splits)

lemma sT_prims [sT]:
  "\<not> P (EvCopy s d) \<Longrightarrow> same P w0 w \<Longrightarrow> same P w0 (snd (fs_Copy e s d w))"
  "\<not> P (EvDecompress s d) \<Longrightarrow> same P w0 w \<Longrightarrow> same P w0 (snd (fs_Decompress e s d w))"
  "\<not> P (EvRemoveAll p) \<Longrightarrow> same P w0 w \<Longrightarrow> same P w0 (snd (os_RemoveAll e p w))"
  "\<not> P (EvRemove p) \<Longrightarrow> same P w0 w \<Longrightarrow> same P w0 (snd (os_Remove e p w))"
  "\<not> P (EvRename p q) \<Longrightarrow> same P w0 w \<Longrightarrow> same P w0 (snd (os_Rename e p q w))"
  by (auto simp: same_def fs_Copy_def fs_Decompress_def os_RemoveAll_def os_Remove_def
      os_Rename_def call_def emit_def split: option.splits node.splits)

lemma sT_andThen [sT]:
  assumes "same P w0 (final m)"
    and "\<And>x w1. same P w0 w1 \<Longrightarrow> same P w0 (final (f x w1))"
  shows "same P w0 (final (andThen m f))"
  using assms by (cases m) auto

lemma sT_prod [sT]:
  assumes "same P w0 (snd p)"
    and "\<And>x w1. same P w0 w1 \<Longrightarrow> same P w0 (final (g x w1))"
  shows "same P w0 (final (case p of (x, w1) \<Rightarrow> g x w1))"
  using assms by (cases p) auto

lemma sT_if [sT]:
  "(c \<Longrightarrow> same P w0 (final a)) \<Longrightarrow> (\<not> c \<Longrightarrow> same P w0 (final b)) \<Longrightarrow>
   same P w0 (final (if c then a else b))"
  "(c \<Longrightarrow> same P w0 wa) \<Longrightarrow> (\<not> c \<Longrightarrow> same P w0 wb) \<Longrightarrow> same P w0 (if c then wa else wb)"
  by simp_all

lemma sT_option [sT]:
  "(x = None \<Longrightarrow> same P w0 (final a)) \<Longrightarrow> (\<And>y. x = Some y \<Longrightarrow> same P w0 (final (b y))) \<Longrightarrow>
   same P w0 (final (case x of None \<Rightarrow> a | Some y \<Rightarrow> b y))"
  by (cases x) simp_all

lemma sT_prod2 [sT]:
  "(\<And>a b. p = (a, b) \<Longrightarrow> same P w0 (final (g a b))) \<Longrightarrow>
   same P w0 (final (case p of (a, b) \<Rightarrow> g a b))"
  by (cases p) simp

lemma sT_prodfun [sT]:
  "(\<And>a b. x = (a, b) \<Longrightarrow> same P w0 (final (h a b w1))) \<Longrightarrow>
   same P w0 (final ((case x of (a, b) \<Rightarrow> h a b) w1))"
  by (cases x) simp

lemma sT_pairs [sT]:
  "same P w0 (snd pa) \<Longrightarrow> same P w0 (snd pb) \<Longrightarrow> same P w0 (snd (if c then pa else pb))"
  "same P w0 w \<Longrightarrow> same P w0 (snd (y, w))"
  by simp_all

lemma sT_CreateContainerConf [sT]:
  "same isMilestone w0 w \<Longrightarrow> same isMilestone w0 (final (CreateContainerConf e p conf w))"
  unfolding CreateContainerConf_def Let_def
  by (intro sT | assumption | simp)+

lemma sT_SetContainerConf [sT]:
  "same isMilestone w0 w \<Longrightarrow> same isMilestone w0 (final (SetContainerConf e c conf w))"
  unfolding SetContainerConf_def by (rule sT)

lemma sT_updateContainerConfig [sT]:
  "same isMilestone w0 w \<Longrightarrow> same isMilestone w0 (final (updateContainerConfig e n w))"
  unfolding updateContainerConfig_def by (rule sT)

lemma sT_initManagement [sT]:
  "same isMilestone w0 w \<Longrightarrow> same isMilestone w0 (final (initManagement e r w))"
  unfolding initManagement_def by (intro sT | assumption | simp)+

lemma sT_getTemplateUrl [sT]:
  "same isMilestone w0 w \<Longrightarrow> same isMilestone w0 (final (getTemplateUrl e t w))"
  unfolding getTemplateUrl_def Let_def by (intro sT | assumption | simp)+

lemma sT_doDownload [sT]:
  "same isMilestone w0 w \<Longrightarrow> same isMilestone w0 (final (doDownload e t url w))"
  unfolding doDownload_def Let_def by (intro sT | assumption | simp)+

lemma sT_downloadLoop [sT]:
  "same isMilestone w0 w \<Longrightarrow> same isMilestone w0 (final (downloadLoop e t url err n w))"
proof (induction e t url err n w rule: downloadLoop.induct)
  case (1 e template templateUrl err attempts w)
  show ?case
    by (subst downloadLoop.simps) (intro sT "1.IH" "1.prems" | assumption)+
qed

lemma sT_downloadFromGateway [sT]:
  "same isMilestone w0 w \<Longrightarrow> same isMilestone w0 (final (downloadFromGateway e t w))"
  unfolding downloadFromGateway_def by (intro sT | assumption)+

lemma sT_downloadViaLocalIPFSNode [sT]:
  "same isMilestone w0 w \<Longrightarrow> same isMilestone w0 (final (downloadViaLocalIPFSNode e t w))"
  unfolding downloadViaLocalIPFSNode_def Let_def by (intro sT | assumption | simp)+

lemma sT_download [sT]:
  "same isMilestone w0 w \<Longrightarrow> same isMilestone w0 (final (download e t w))"
  unfolding download_def by (intro sT | assumption)+

lemma sT_importFetch [sT]:
  "same isMilestone w0 w \<Longrightarrow> same isMilestone w0 (final (importFetch e t r a l w))"
  unfolding importFetch_def Let_def by (intro sT | assumption | simp)+

section \<open>Destruction before installation\<close>


lemma remove_datasets:
  "set (datasets (snd (fs_RemoveDataset e d rc w))) \<subseteq> set (datasets w)"
  by (auto simp: fs_RemoveDataset_def call_def split: option.splits)

lemma remove_ok:
  assumes "\<And>tr d rc. failure e tr (EvRemoveDataset d rc) = None"
  shows "d \<notin> set (datasets (snd (fs_RemoveDataset e d rc w)))"
  using assms by (simp add: fs_RemoveDataset_def call_def)

lemma destroySnapshots_datasets:
  "set (datasets (snd (destroySnapshots e silent ls err w))) \<subseteq> set (datasets w)"
proof (induction ls arbitrary: err w)
  case Nil
  then show ?case by simp
next
  case (Cons l ls)
  let ?s = "TrimSpace (TrimPrefix l (Dataset (cfg e)))"
  obtain x1 x2 where r: "fs_RemoveDataset e ?s False w = (x1, x2)" by (metis prod.exhaust)
  then have g: "set (datasets x2) \<subseteq> set (datasets w)"
    using remove_datasets[of e ?s False w] by simp
  have "set (datasets (snd (destroySnapshots e silent ls x1 x2))) \<subseteq> set (datasets w)"
    using Cons.IH[of x1 x2] g by blast
  with g r Cons.IH[of err w] show ?case by (simp add: Let_def)
qed

lemma destroyChildren_datasets:
  "set (datasets (snd (destroyChildren e silent name ds err w))) \<subseteq> set (datasets w)"
proof (induction ds arbitrary: err w)
  case Nil
  then show ?case by simp
next
  case (Cons d ds)
  let ?s = "pathJoin [name, d]"
  obtain x1 x2 where r: "fs_RemoveDataset e ?s False w = (x1, x2)" by (metis prod.exhaust)
  then have g: "set (datasets x2) \<subseteq> set (datasets w)"
    using remove_datasets[of e ?s False w] by simp
  have "set (datasets (snd (destroyChildren e silent name ds x1 x2))) \<subseteq> set (datasets w)"
    using Cons.IH[of x1 x2] g by blast
  with g r Cons.IH[of err w] show ?case by (simp add: Let_def)
qed

lemma destroyChildren_removes:
  assumes nofail: "\<And>tr d rc. failure e tr (EvRemoveDataset d rc) = None"
  shows "\<forall>p \<in> set ds. pathJoin [name, p] \<notin> set (datasets (snd (destroyChildren e True name ds err w)))"
proof (induction ds arbitrary: err w)
  case Nil
  then show ?case by simp
next
  case (Cons d ds)
  let ?s = "pathJoin [name, d]"
  obtain x1 x2 where r: "fs_RemoveDataset e ?s False w = (x1, x2)" by (metis prod.exhaust)
  show ?case
  proof (cases "fs_DatasetExists w ?s")
    case True
    have "?s \<notin> set (datasets (snd (fs_RemoveDataset e ?s False w)))"
      by (rule remove_ok[OF nofail])
    then have gone: "?s \<notin> set (datasets x2)" using r by simp
    have sub: "set (datasets (snd (destroyChildren e True name ds x1 x2))) \<subseteq> set (datasets x2)"
      by (rule destroyChildren_datasets)
    from gone sub Cons.IH[of x1 x2] True r show ?thesis by (auto simp: Let_def)
  next
    case False
    have sub: "set (datasets (snd (destroyChildren e True name ds err w))) \<subseteq> set (datasets w)"
      by (rule destroyChildren_datasets)
    from False sub Cons.IH[of err w] show ?thesis
      by (auto simp: Let_def fs_DatasetExists_def)
  qed
qed

lemma destroySnapshots_silent: "snd (fst (destroySnapshots e True ls err w)) = False"
  by (induction ls arbitrary: err w) (auto simp: Let_def split: prod.splits)

lemma destroyChildren_silent: "snd (fst (destroyChildren e True name ds err w)) = False"
  by (induction ds arbitrary: err w) (auto simp: Let_def split: prod.splits)

lemma destroyLocked_removes:
  assumes nofail: "\<And>tr d rc. failure e tr (EvRemoveDataset d rc) = None"
  shows "name \<notin> set (datasets (snd (destroyLocked e name True w))) \<and>
         (\<forall>p \<in> set ChildDatasets.
            pathJoin [name, p] \<notin> set (datasets (snd (destroyLocked e name True w))))"
proof -
  obtain out err w1 where l: "fs_ListSnapshotNamesOnly e name w = ((out, err), w1)"
    by (metis prod.exhaust)
  obtain e2 f2 w2 where s: "destroySnapshots e True (splitLines out) err w1 = ((e2, f2), w2)"
    by (metis prod.exhaust)
  have f2: "f2 = False" using destroySnapshots_silent[of e "splitLines out" err w1] s by simp
  obtain e3 f3 w3 where c: "destroyChildren e True name ChildDatasets e2 w2 = ((e3, f3), w3)"
    by (metis prod.exhaust)
  have f3: "f3 = False" using destroyChildren_silent[of e name ChildDatasets e2 w2] c by simp
  have kids: "\<forall>p \<in> set ChildDatasets. pathJoin [name, p] \<notin> set (datasets w3)"
    using destroyChildren_removes[OF nofail, of ChildDatasets name e2 w2] c by simp
  let ?w4 = "snd (fs_RemoveDataset e name False w3)"
  have sub: "set (datasets ?w4) \<subseteq> set (datasets w3)" by (rule remove_datasets)
  have gone: "name \<notin> set (datasets ?w4)" by (rule remove_ok[OF nofail])
  have res: "snd (destroyLocked e name True w) = (if fs_DatasetExists w3 name then ?w4 else w3)"
    using l s c f2 f3 by (simp add: destroyLocked_def)
  show ?thesis
    using res kids sub gone by (auto simp: fs_DatasetExists_def)
qed

lemma install_first:
  "\<exists>rest. trace (snd (install e n w)) = trace w @ EvCreateDataset n # rest"
proof -
  obtain err w1 where c: "fs_CreateDataset e n w = (err, w1)" by (metis prod.exhaust)
  then have t: "trace w1 = trace w @ [EvCreateDataset n]"
    by (auto simp: fs_CreateDataset_def call_def split: option.splits)
  show ?thesis
  proof (cases err)
    case (Some x)
    with c t show ?thesis by (simp add: install_def Let_def)
  next
    case None
    let ?rest = "[fs_ReceiveStream e (n @ ''/rootfs'')
           (pathJoin [pathJoin [CacheDir (cfg e), n], ''deltas'', ''rootfs.delta'']) False,
         fs_ReceiveStream e (n @ ''/home'')
           (pathJoin [pathJoin [CacheDir (cfg e), n], ''deltas'', ''home.delta'']) False,
         fs_ReceiveStream e (n @ ''/var'')
           (pathJoin [pathJoin [CacheDir (cfg e), n], ''deltas'', ''var.delta'']) False,
         fs_ReceiveStream e (n @ ''/opt'')
           (pathJoin [pathJoin [CacheDir (cfg e), n], ''deltas'', ''opt.delta'']) False,
         fs_SetDatasetReadOnly e (n @ ''/rootfs''),
         fs_SetDatasetReadOnly e (n @ ''/home''),
         fs_SetDatasetReadOnly e (n @ ''/var''),
         fs_SetDatasetReadOnly e (n @ ''/opt''),
         fs_Copy e (pathJoin [pathJoin [CacheDir (cfg e), n], ''config''])
           (pathJoin [LxcPrefix (cfg e), n, ''config''])]"
    have "grows w1 (snd (steps ?rest w1))" by (rule grows_steps) auto
    then obtain more where "trace (snd (steps ?rest w1)) = trace w1 @ more"
      by (auto simp: grows_def)
    with c t None show ?thesis by (simp add: install_def Let_def)
  qed
qed

lemma ms_remove:
  "filter isMilestone (trace (snd (fs_RemoveDataset e d rc w))) = filter isMilestone (trace w)"
  by (auto simp: fs_RemoveDataset_def call_def split: option.splits)

lemma ms_destroySnapshots:
  "filter isMilestone (trace (snd (destroySnapshots e silent ls err w))) =
     filter isMilestone (trace w)"
proof (induction ls arbitrary: err w)
  case Nil
  then show ?case by simp
next
  case (Cons l ls)
  let ?s = "TrimSpace (TrimPrefix l (Dataset (cfg e)))"
  obtain x1 x2 where r: "fs_RemoveDataset e ?s False w = (x1, x2)" by (metis prod.exhaust)
  then have g: "filter isMilestone (trace x2) = filter isMilestone (trace w)"
    using ms_remove[of e ?s False w] by simp
  with r Cons.IH[of err w] Cons.IH[of x1 x2] show ?case by (simp add: Let_def)
qed

lemma ms_destroyChildren:
  "filter isMilestone (trace (snd (destroyChildren e silent name ds err w))) =
     filter isMilestone (trace w)"
proof (induction ds arbitrary: err w)
  case Nil
  then show ?case by simp
next
  case (Cons d ds)
  let ?s = "pathJoin [name, d]"
  obtain x1 x2 where r: "fs_RemoveDataset e ?s False w = (x1, x2)" by (metis prod.exhaust)
  then have g: "filter isMilestone (trace x2) = filter isMilestone (trace w)"
    using ms_remove[of e ?s False w] by simp
  with r Cons.IH[of err w] Cons.IH[of x1 x2] show ?case by (simp add: Let_def)
qed

lemma ms_destroyLocked:
  "filter isMilestone (trace (snd (destroyLocked e name silent w))) = filter isMilestone (trace w)"
proof -
  obtain out err w1 where l: "fs_ListSnapshotNamesOnly e name w = ((out, err), w1)"
    by (metis prod.exhaust)
  then have t1: "filter isMilestone (trace w1) = filter isMilestone (trace w)"
    by (auto simp: fs_ListSnapshotNamesOnly_def call_def split: option.splits)
  obtain e2 f2 w2 where s: "destroySnapshots e silent (splitLines out) err w1 = ((e2, f2), w2)"
    by (metis prod.exhaust)
  have t2: "filter isMilestone (trace w2) = filter isMilestone (trace w)"
    using ms_destroySnapshots[of e silent "splitLines out" err w1] s t1 by simp
  obtain e3 f3 w3 where c: "destroyChildren e silent name ChildDatasets e2 w2 = ((e3, f3), w3)"
    by (metis prod.exhaust)
  have t3: "filter isMilestone (trace w3) = filter isMilestone (trace w)"
    using ms_destroyChildren[of e silent name ChildDatasets e2 w2] c t2 by simp
  have t4: "filter isMilestone (trace (snd (fs_RemoveDataset e name False w3))) =
      filter isMilestone (trace w)"
    using ms_remove[of e name False w3] t3 by simp
  show ?thesis
    using l s c t1 t2 t3 t4 by (cases f2; cases f3) (simp_all add: destroyLocked_def)
qed

lemma ms_lockLoop:
  "lockLoop n e name operation w = Some w2 \<Longrightarrow> operation \<noteq> ''import'' \<Longrightarrow>
   filter isMilestone (trace w2) = filter isMilestone (trace w)"
proof (induction n arbitrary: w)
  case 0
  then show ?case by simp
next
  case (Suc n)
  show ?case
  proof (cases "failure e (trace w) (EvLock name operation)")
    case None
    with Suc.prems show ?thesis by (auto simp: call_def)
  next
    case (Some a)
    with Suc.prems have "lockLoop n e name operation
        (emit (EvSleep 1) (emit (EvLock name operation) w)) = Some w2"
      by (simp add: call_def)
    from Suc.IH[OF this Suc.prems(2)] Suc.prems(2) show ?thesis by simp
  qed
qed

lemma ms_Destroy:
  "Destroy fuel e name silent w = Some (err, w1) \<Longrightarrow>
   filter isMilestone (trace w1) = filter isMilestone (trace w)"
proof -
  assume d: "Destroy fuel e name silent w = Some (err, w1)"
  then obtain w0 where l: "lockLoop fuel e ''lxc'' ''destroy'' w = Some w0"
    by (auto simp: Destroy_def split: option.splits)
  have a: "filter isMilestone (trace w0) = filter isMilestone (trace w)"
    by (rule ms_lockLoop[OF l]) simp
  from d l have "w1 = emit (EvUnlock ''lxc'' ''destroy'') (snd (destroyLocked e name silent w0))"
    by (auto simp: Destroy_def split: prod.splits)
  then show ?thesis using a ms_destroyLocked[of e name silent w0] by simp
qed

lemma ms_steps:
  "(\<And>s w. s \<in> set ss \<Longrightarrow>
      filter isMilestone (trace (snd (s w))) = filter isMilestone (trace w)) \<Longrightarrow>
   filter isMilestone (trace (snd (steps ss w))) = filter isMilestone (trace w)"
proof (induction ss arbitrary: w)
  case Nil
  then show ?case by simp
next
  case (Cons s ss)
  have a: "filter isMilestone (trace (snd (s w))) = filter isMilestone (trace w)"
    using Cons.prems by simp
  show ?case
  proof (cases "s w")
    case (Pair err w1)
    with a have g: "filter isMilestone (trace w1) = filter isMilestone (trace w)" by simp
    show ?thesis
    proof (cases err)
      case None
      have "filter isMilestone (trace (snd (steps ss w1))) = filter isMilestone (trace w1)"
        using Cons by simp
      with Pair None g show ?thesis by simp
    next
      case (Some x)
      with Pair g show ?thesis by simp
    qed
  qed
qed

lemma ms_install:
  "filter isMilestone (trace (snd (install e n w))) =
     filter isMilestone (trace w) @ [EvCreateDataset n]"
proof -
  obtain err w1 where c: "fs_CreateDataset e n w = (err, w1)" by (metis prod.exhaust)
  then have t: "filter isMilestone (trace w1) = filter isMilestone (trace w) @ [EvCreateDataset n]"
    by (auto simp: fs_CreateDataset_def call_def split: option.splits)
  show ?thesis
  proof (cases err)
    case (Some x)
    with c t show ?thesis by (simp add: install_def Let_def)
  next
    case None
    let ?rest = "[fs_ReceiveStream e (n @ ''/rootfs'')
           (pathJoin [pathJoin [CacheDir (cfg e), n], ''deltas'', ''rootfs.delta'']) False,
         fs_ReceiveStream e (n @ ''/home'')
           (pathJoin [pathJoin [CacheDir (cfg e), n], ''deltas'', ''home.delta'']) False,
         fs_ReceiveStream e (n @ ''/var'')
           (pathJoin [pathJoin [CacheDir (cfg e), n], ''deltas'', ''var.delta'']) False,
         fs_ReceiveStream e (n @ ''/opt'')
           (pathJoin [pathJoin [CacheDir (cfg e), n], ''deltas'', ''opt.delta'']) False,
         fs_SetDatasetReadOnly e (n @ ''/rootfs''),
         fs_SetDatasetReadOnly e (n @ ''/home''),
         fs_SetDatasetReadOnly e (n @ ''/var''),
         fs_SetDatasetReadOnly e (n @ ''/opt''),
         fs_Copy e (pathJoin [pathJoin [CacheDir (cfg e), n], ''config''])
           (pathJoin [LxcPrefix (cfg e), n, ''config''])]"
    have "filter isMilestone (trace (snd (steps ?rest w1))) = filter isMilestone (trace w1)"
      by (rule ms_steps)
         (auto simp: fs_ReceiveStream_def fs_SetDatasetReadOnly_def fs_Copy_def call_def
           split: option.splits node.splits)
    with c t None show ?thesis by (simp add: install_def Let_def)
  qed
qed


lemma importInstall_run:
  assumes run: "importInstall fuel e t ref dir archive local w = Some r"
  shows "\<exists>w1. (if fs_DatasetExists w ref
               then (\<exists>derr. Destroy fuel e ref True
                               (log_Info (''Installing template '' @ Name t) w) = Some (derr, w1))
               else w1 = log_Info (''Installing template '' @ Name t) w) \<and>
              same isMilestone (snd (install e ref w1)) (final r) \<and>
              grows (snd (install e ref w1)) (final r)"
proof -
  define tail where "tail = (\<lambda>w.
     (if Name t = Management
      then initManagement e ref
             (if \<not> local then snd (os_Remove e archive (snd (os_RemoveAll e dir w)))
              else snd (os_RemoveAll e dir w))
      else andThen (updateContainerConfig e ref
             (if \<not> local then snd (os_Remove e archive (snd (os_RemoveAll e dir w)))
              else snd (os_RemoveAll e dir w)))
            (\<lambda>err w. andThen (log_Check ErrorLevel ''Setting lxc config'' err w)
                (\<lambda>_ w. Return () w))))"
  let ?w0 = "log_Info (''Installing template '' @ Name t) w"
  have unf: "importInstall fuel e t ref dir archive local w =
     bindO (if fs_DatasetExists w ref
            then map_option (\<lambda>(err, w). Return () w) (Destroy fuel e ref True ?w0)
            else Some (Return () ?w0))
       (\<lambda>_ w. Some (tail (snd (install e ref w))))"
    by (simp add: importInstall_def tail_def Let_def fs_DatasetExists_def)
  have st: "\<And>w. same isMilestone w (final (tail w))"
    unfolding tail_def by (intro sT same_refl | assumption | simp)+
  have gr: "\<And>w. grows w (final (tail w))"
    unfolding tail_def by (intro gT grows_refl | assumption)+
  show ?thesis
  proof (cases "fs_DatasetExists w ref")
    case False
    with run unf have "r = tail (snd (install e ref ?w0))" by simp
    with False st gr show ?thesis by auto
  next
    case True
    with run unf obtain derr w1 where d: "Destroy fuel e ref True ?w0 = Some (derr, w1)"
      by (cases "Destroy fuel e ref True ?w0") auto
    with run unf True have "r = tail (snd (install e ref w1))" by simp
    with True d st gr show ?thesis by auto
  qed
qed

lemma importInstall_milestone:
  assumes run: "importInstall fuel e t ref dir archive local w = Some r"
  shows "filter isMilestone (trace (final r)) = filter isMilestone (trace w) @ [EvCreateDataset ref]"
proof -
  from importInstall_run[OF run] obtain w1 where
    d: "if fs_DatasetExists w ref
        then (\<exists>derr. Destroy fuel e ref True
                        (log_Info (''Installing template '' @ Name t) w) = Some (derr, w1))
        else w1 = log_Info (''Installing template '' @ Name t) w"
    and s: "same isMilestone (snd (install e ref w1)) (final r)"
    by blast
  have "filter isMilestone (trace w1) = filter isMilestone (trace w)"
  proof (cases "fs_DatasetExists w ref")
    case True
    with d obtain derr where
      "Destroy fuel e ref True (log_Info (''Installing template '' @ Name t) w) = Some (derr, w1)"
      by auto
    from ms_Destroy[OF this] show ?thesis by simp
  next
    case False
    with d show ?thesis by simp
  qed
  with s ms_install[of e ref w1] show ?thesis by (simp add: same_def)
qed

lemma importInstall_returns:
  assumes calm: "\<And>tr ev. \<not> isDatasetCall ev \<Longrightarrow> failure e tr ev = None"
  shows "\<exists>w'. importInstall (Suc n) e t ref dir archive local w = Some (Return () w')"
proof -
  define tail where "tail = (\<lambda>w.
     (if Name t = Management
      then initManagement e ref
             (if \<not> local then snd (os_Remove e archive (snd (os_RemoveAll e dir w)))
              else snd (os_RemoveAll e dir w))
      else andThen (updateContainerConfig e ref
             (if \<not> local then snd (os_Remove e archive (snd (os_RemoveAll e dir w)))
              else snd (os_RemoveAll e dir w)))
            (\<lambda>err w. andThen (log_Check ErrorLevel ''Setting lxc config'' err w)
                (\<lambda>_ w. Return () w))))"
  let ?w0 = "log_Info (''Installing template '' @ Name t) w"
  have unf: "importInstall (Suc n) e t ref dir archive local w =
     bindO (if fs_DatasetExists w ref
            then map_option (\<lambda>(err, w). Return () w) (Destroy (Suc n) e ref True ?w0)
            else Some (Return () ?w0))
       (\<lambda>_ w. Some (tail (snd (install e ref w))))"
    by (simp add: importInstall_def tail_def Let_def fs_DatasetExists_def)
  have tl: "\<And>w. \<exists>w'. tail w = Return () w'"
    unfolding tail_def
    by (auto simp: initManagement_def updateContainerConfig_def SetContainerConf_def
        CreateContainerConf_def call_def calm log_Check_cases Let_def split: prod.splits)
  have d: "\<And>w. \<exists>p. Destroy (Suc n) e ref True w = Some p"
    by (simp add: Destroy_def call_def calm split: prod.splits)
  show ?thesis
  proof (cases "fs_DatasetExists w ref")
    case False
    obtain w' where "tail (snd (install e ref ?w0)) = Return () w'" using tl by blast
    with False unf show ?thesis by simp
  next
    case True
    obtain derr w1 where d1: "Destroy (Suc n) e ref True ?w0 = Some (derr, w1)"
      using d by (metis prod.exhaust)
    obtain w' where "tail (snd (install e ref w1)) = Return () w'" using tl by blast
    with True unf d1 show ?thesis by simp
  qed
qed

lemma IsTemplate_same: "same P w0 w \<Longrightarrow> IsTemplate w x = IsTemplate w0 x"
  by (simp add: same_def IsTemplate_def fs_DatasetExists_def fs_IsDatasetReadOnly_def)

lemma import_level:
  assumes free: "\<And>tr n. failure e tr (EvLock n ''import'') = None"
    and root: "fs_DatasetExists w []"
    and nolxc: "lxc w = []"
    and res: "importResolve e name w = Return (t, ref, archive, local) w1"
    and fet: "importFetch e t ref archive local (emit (EvLock ref ''import'') w1) =
                Return (ref', dir, parent) w3"
  shows "LxcImport (Suc (Suc n)) e name token aux w =
           map_option (deferred (emit (EvUnlock ref ''import'')))
             (bindO (if parent \<noteq> ref' \<and> \<not> IsTemplate w3 parent \<and> \<not> stringInList parent aux
                     then LxcImport (Suc n) e parent token (aux @ [parent, ref'])
                            (log_Info (''Parent template required: '' @ parent) w3)
                     else Some (Return () w3))
                (\<lambda>_ w. importInstall (Suc n) e t ref' dir archive local w))"
    and "datasets w3 = datasets w" and "readonly w3 = readonly w" and "lxc w3 = lxc w"
    and "filter isMilestone (trace w3) = filter isMilestone (trace w) @ [EvLock ref ''import'']"
proof -
  from importResolve_trace[OF res] obtain pre where
    pre: "trace w1 = trace w @ pre @ [EvInfo (''Importing '' @ Name t)]"
         "pre = [] \<or> (\<exists>url. pre = [EvHttpGet url])"
         "datasets w1 = datasets w" "readonly w1 = readonly w" "lxc w1 = lxc w"
    by blast
  let ?w2 = "emit (EvLock ref ''import'') w1"
  have s: "same isMilestone ?w2 (final (importFetch e t ref archive local ?w2))"
    by (rule sT_importFetch) simp
  then have s3: "same isMilestone ?w2 w3" using fet by simp
  show "datasets w3 = datasets w" "readonly w3 = readonly w" "lxc w3 = lxc w"
    using s3 pre by (simp_all add: same_def)
  show "filter isMilestone (trace w3) = filter isMilestone (trace w) @ [EvLock ref ''import'']"
    using s3 pre by (auto simp: same_def)
  have nx: "\<not> LxcInstanceExists w name" "\<not> LxcInstanceExists ?w2 ref"
    using nolxc pre by (simp_all add: LxcInstanceExists_def All_def)
  show "LxcImport (Suc (Suc n)) e name token aux w =
           map_option (deferred (emit (EvUnlock ref ''import'')))
             (bindO (if parent \<noteq> ref' \<and> \<not> IsTemplate w3 parent \<and> \<not> stringInList parent aux
                     then LxcImport (Suc n) e parent token (aux @ [parent, ref'])
                            (log_Info (''Parent template required: '' @ parent) w3)
                     else Some (Return () w3))
                (\<lambda>_ w. importInstall (Suc n) e t ref' dir archive local w))"
    using root nx res fet by (simp add: call_def free)
qed


section \<open>An exit under the import lock\<close>

text \<open>
  C9, where the code leaves the spec.  \<open>LxcImport\<close> takes the lock of the reference
  and defers its release; \<open>log.Error\<close>, \<open>log.Fatal\<close> and \<open>log.Check\<close> at these levels
  end the process, and a deferred call does not run then.  Take an import that passes
  the two guards, computes its reference \<open>ref\<close>, finds the lock free and no instance
  registered, and whose fetch step (cache check, download, extraction, the check
  that the template is not there yet) ends the process in the state \<open>w3\<close>.  Then the
  import ends the process in that very state, and of the milestones of an import its
  trace has gained the acquisition of the lock and nothing after it: the release is
  missing.
\<close>

theorem import_exit_keeps_lock:
  assumes root: "fs_DatasetExists w []"
    and noexch: "\<not> (LxcInstanceExists w name \<and> name = Management \<and> length token > 1)"
    and res: "importResolve e name w = Return (t, ref, archive, local) w1"
    and free: "failure e (trace w1) (EvLock ref ''import'') = None"
    and fresh: "\<not> LxcInstanceExists w ref"
    and fails: "importFetch e t ref archive local (emit (EvLock ref ''import'') w1) = Exit m w3"
  shows "LxcImport (Suc (Suc fuel)) e name token aux w = Some (Exit m w3) \<and>
         filter isMilestone (trace w3) = filter isMilestone (trace w) @ [EvLock ref ''import'']"
proof -
  from importResolve_trace[OF res] obtain pre where
    pre: "trace w1 = trace w @ pre @ [EvInfo (''Importing '' @ Name t)]"
         "pre = [] \<or> (\<exists>url. pre = [EvHttpGet url])"
         "datasets w1 = datasets w" "readonly w1 = readonly w" "lxc w1 = lxc w"
    by blast
  let ?w2 = "emit (EvLock ref ''import'') w1"
  have "same isMilestone ?w2 (final (importFetch e t ref archive local ?w2))"
    by (rule sT_importFetch) simp
  then have s3: "same isMilestone ?w2 w3" using fails by simp
  have m: "filter isMilestone (trace w3) = filter isMilestone (trace w) @ [EvLock ref ''import'']"
    using s3 pre by (auto simp: same_def)
  have nx: "\<not> LxcInstanceExists ?w2 ref"
    using fresh pre by (simp add: LxcInstanceExists_def All_def)
  have "LxcImport (Suc (Suc fuel)) e name token aux w = Some (Exit m w3)"
    using root noexch res fails nx by (simp add: call_def free)
  with m show ?thesis by simp
qed

theorem import_exit_keeps_lock_witness:
  "LxcImport 2 brokenArchiveEnv ''base'' [] [] cachedWorld =
     Some (Exit ''Extracting tgz, unexpected EOF''
       (cachedWorld\<lparr>trace :=
          [EvHttpGet ''cdn/template?name=base&version=latest'', EvInfo ''Importing base'',
           EvLock ''base:pub:1.0.0'' ''import'', EvInfo ''Unpacking template base'',
           EvDecompress ''/cache/id1'' ''/cache/base:pub:1.0.0'']\<rparr>)) \<and>
   filter isMilestone (trace (cachedWorld\<lparr>trace :=
          [EvHttpGet ''cdn/template?name=base&version=latest'', EvInfo ''Importing base'',
           EvLock ''base:pub:1.0.0'' ''import'', EvInfo ''Unpacking template base'',
           EvDecompress ''/cache/id1'' ''/cache/base:pub:1.0.0'']\<rparr>)) =
     filter isMilestone (trace cachedWorld) @ [EvLock ''base:pub:1.0.0'' ''import'']"
proof -
  let ?w1 = "log_Info ''Importing base''
               (emit (EvHttpGet ''cdn/template?name=base&version=latest'') cachedWorld)"
  have g: "fs_DatasetExists cachedWorld []"
    "\<not> (LxcInstanceExists cachedWorld ''base'' \<and> ''base'' = Management \<and> length ([]::string) > 1)"
    "\<not> LxcInstanceExists cachedWorld ''base:pub:1.0.0''"
    by (simp_all add: cachedWorld_def world0_def fs_DatasetExists_def LxcInstanceExists_def All_def)
  have r: "importResolve brokenArchiveEnv ''base'' cachedWorld =
     Return (tmpl0, ''base:pub:1.0.0'', ''/cache/id1'', False) ?w1"
    by (simp add: importResolve_def Let_def base_resolves' base_ref fs_FileExists_def
        cachedWorld_def world0_def)
       (simp add: tmpl0_def brokenArchiveEnv_def baseEnv_def env0_def cfg0_def pathJoin_def)
  have free: "failure brokenArchiveEnv (trace ?w1) (EvLock ''base:pub:1.0.0'' ''import'') = None"
    by (simp add: brokenArchiveEnv_def)
  have f: "importFetch brokenArchiveEnv tmpl0 ''base:pub:1.0.0'' ''/cache/id1'' False
             (emit (EvLock ''base:pub:1.0.0'' ''import'') ?w1) =
       Exit ''Extracting tgz, unexpected EOF''
         (cachedWorld\<lparr>trace :=
          [EvHttpGet ''cdn/template?name=base&version=latest'', EvInfo ''Importing base'',
           EvLock ''base:pub:1.0.0'' ''import'', EvInfo ''Unpacking template base'',
           EvDecompress ''/cache/id1'' ''/cache/base:pub:1.0.0'']\<rparr>)"
    by (simp add: importFetch_def Let_def fs_FileExists_def cachedWorld_def world0_def
        verifyChecksum_def sha256_def fs_Sha256Sum_def Sha256DigestMethod_def tmpl0_def
        brokenArchiveEnv_def baseEnv_def env0_def cfg0_def pathJoin_def fs_Decompress_def
        call_def log_Fatal_def emit_def log_Info_def)
  show ?thesis
    using import_exit_keeps_lock[OF g(1,2) r free g(3) f, of 0 "[]"]
    by (simp add: numeral_2_eq_2)
qed


section \<open>A chain of parents\<close>



lemma import_level_done:
  assumes calm: "\<And>tr ev. \<not> isDatasetCall ev \<Longrightarrow> failure e tr ev = None"
    and root: "fs_DatasetExists w []"
    and nolxc: "lxc w = []"
    and res: "importResolve e name w = Return (t, ref, archive, local) w1"
    and fet: "importFetch e t ref archive local (emit (EvLock ref ''import'') w1) =
                Return (ref', dir, parent) w3"
    and par: "(if parent \<noteq> ref' \<and> \<not> IsTemplate w3 parent \<and> \<not> stringInList parent aux
               then LxcImport (Suc n) e parent token (aux @ [parent, ref'])
                      (log_Info (''Parent template required: '' @ parent) w3)
               else Some (Return () w3)) = Some (Return () w4)"
  shows "\<exists>w5. importInstall (Suc n) e t ref' dir archive local w4 = Some (Return () w5) \<and>
           LxcImport (Suc (Suc n)) e name token aux w =
             Some (Return () (emit (EvUnlock ref ''import'') w5)) \<and>
           filter isMilestone (trace (emit (EvUnlock ref ''import'') w5)) =
             filter isMilestone (trace w4) @ [EvCreateDataset ref', EvUnlock ref ''import'']"
proof -
  have free: "\<And>tr n. failure e tr (EvLock n ''import'') = None"
    by (simp add: calm)
  note lv = import_level(1)[OF free root nolxc res fet, where n = n and token = token and aux = aux]
  obtain w5 where i: "importInstall (Suc n) e t ref' dir archive local w4 = Some (Return () w5)"
    using importInstall_returns[OF calm] by blast
  from importInstall_milestone[OF i]
  have m: "filter isMilestone (trace w5) = filter isMilestone (trace w4) @ [EvCreateDataset ref']"
    by simp
  have "LxcImport (Suc (Suc n)) e name token aux w =
      Some (Return () (emit (EvUnlock ref ''import'') w5))"
    unfolding lv par using i by simp
  with m i show ?thesis by simp
qed


lemma chain_items_a:
  "configItem (scanLines (chainConfig ''a'' ''a'')) ''subutai.template'' = Some ''a''"
  "configItem (scanLines (chainConfig ''a'' ''a'')) ''subutai.template.owner'' = Some ''pub''"
  "configItem (scanLines (chainConfig ''a'' ''a'')) ''subutai.template.version'' = Some ''1.0.0''"
  "configItem (scanLines (chainConfig ''a'' ''a'')) ''subutai.parent'' = Some ''a''"
  "configItem (scanLines (chainConfig ''a'' ''a'')) ''subutai.parent.owner'' = Some ''pub''"
  "configItem (scanLines (chainConfig ''a'' ''a'')) ''subutai.parent.version'' = Some ''1.0.0''"
  by code_simp+

lemma chain_names:
  "splitStr ''id:'' ''c'' = [''c'']"
  "splitStr ''id:'' ''b:pub:1.0.0'' = [''b:pub:1.0.0'']"
  "splitStr ''id:'' ''a:pub:1.0.0'' = [''a:pub:1.0.0'']"
  "chainRef ''c'' = None"
  "chainName ''c'' = Some ''c''"
  "chainRef ''b:pub:1.0.0'' = Some (''b'', ''pub'', ''1.0.0'')"
  "chainRef ''a:pub:1.0.0'' = Some (''a'', ''pub'', ''1.0.0'')"
  by code_simp+

lemma chain_resolve_a:
  assumes calm: "\<And>tr ev. \<not> isDatasetCall ev \<Longrightarrow> fl tr ev = None"
    and nofile: "files w ''a:pub:1.0.0'' = None"
  shows "importResolve (chainHost fl) ''a:pub:1.0.0'' w =
           Return (chainTemplate ''a'', ''a:pub:1.0.0'', ''/cache/id-a'', False)
             (log_Info ''Importing a''
                (emit (EvHttpGet ''cdn/template?name=a&owner=pub&version=1.0.0'') w))"
  using nofile
  by (simp add: importResolve_def Let_def fs_FileExists_def getTemplateInfo_def chain_names
      getTemplateInfoByName_def fetchTemplateInfo_def call_def calm log_Check_cases
      chainHost_def env0_def cfg0_def chainBody_def chainTemplate_def emptyTemplate_def
      pathJoin_def)

lemma IsTemplate_frame [simp]:
  "IsTemplate (w\<lparr>files := x\<rparr>) n = IsTemplate w n"
  "IsTemplate (emit ev w) n = IsTemplate w n"
  "IsTemplate (log_Info m w) n = IsTemplate w n"
  by (simp_all add: IsTemplate_def fs_DatasetExists_def fs_IsDatasetReadOnly_def)

lemma chain_host:
  "failure (chainHost fl) = fl" "CacheDir (cfg (chainHost fl)) = ''/cache''"
  "sha256_fn (chainHost fl) = (\<lambda>c. c)" "untar (chainHost fl) = chainUntar"
  "Name (chainTemplate n) = n" "DigestMethod (chainTemplate n) = ''sha256''"
  "DigestHash (chainTemplate n) = ''archive of '' @ n"
  by (simp_all add: chainHost_def env0_def cfg0_def chainTemplate_def)

lemma chain_fetch_a:
  assumes calm: "\<And>tr ev. \<not> isDatasetCall ev \<Longrightarrow> fl tr ev = None"
    and inv: "chainFiles (files w)"
    and fresh: "\<not> IsTemplate w ''a:pub:1.0.0''"
  shows "\<exists>w'. importFetch (chainHost fl) (chainTemplate ''a'') ''a:pub:1.0.0'' ''/cache/id-a'' False w =
           Return (''a:pub:1.0.0'', ''/cache/a:pub:1.0.0'', ''a:pub:1.0.0'') w' \<and>
           chainFiles (files w')"
  using inv fresh
  by (simp add: importFetch_def Let_def fs_FileExists_def chainFiles_def verifyChecksum_def
      sha256_def fs_Sha256Sum_def Sha256DigestMethod_def chain_host chainUntar_def
      fs_Decompress_def call_def calm log_Check_cases getItem_def GetConfigItem_def pathJoin_def
      chain_items_a map_add_def)

lemma chain_items_b:
  "configItem (scanLines (chainConfig ''b'' ''a'')) ''subutai.template'' = Some ''b''"
  "configItem (scanLines (chainConfig ''b'' ''a'')) ''subutai.template.owner'' = Some ''pub''"
  "configItem (scanLines (chainConfig ''b'' ''a'')) ''subutai.template.version'' = Some ''1.0.0''"
  "configItem (scanLines (chainConfig ''b'' ''a'')) ''subutai.parent'' = Some ''a''"
  "configItem (scanLines (chainConfig ''b'' ''a'')) ''subutai.parent.owner'' = Some ''pub''"
  "configItem (scanLines (chainConfig ''b'' ''a'')) ''subutai.parent.version'' = Some ''1.0.0''"
  by code_simp+

lemma chain_items_c:
  "configItem (scanLines (chainConfig ''c'' ''b'')) ''subutai.template'' = Some ''c''"
  "configItem (scanLines (chainConfig ''c'' ''b'')) ''subutai.template.owner'' = Some ''pub''"
  "configItem (scanLines (chainConfig ''c'' ''b'')) ''subutai.template.version'' = Some ''1.0.0''"
  "configItem (scanLines (chainConfig ''c'' ''b'')) ''subutai.parent'' = Some ''b''"
  "configItem (scanLines (chainConfig ''c'' ''b'')) ''subutai.parent.owner'' = Some ''pub''"
  "configItem (scanLines (chainConfig ''c'' ''b'')) ''subutai.parent.version'' = Some ''1.0.0''"
  by code_simp+

lemma chain_resolve_b:
  assumes calm: "\<And>tr ev. \<not> isDatasetCall ev \<Longrightarrow> fl tr ev = None"
    and nofile: "files w ''b:pub:1.0.0'' = None"
  shows "importResolve (chainHost fl) ''b:pub:1.0.0'' w =
           Return (chainTemplate ''b'', ''b:pub:1.0.0'', ''/cache/id-b'', False)
             (log_Info ''Importing b''
                (emit (EvHttpGet ''cdn/template?name=b&owner=pub&version=1.0.0'') w))"
  using nofile
  by (simp add: importResolve_def Let_def fs_FileExists_def getTemplateInfo_def chain_names
      getTemplateInfoByName_def fetchTemplateInfo_def call_def calm log_Check_cases
      chainHost_def env0_def cfg0_def chainBody_def chainTemplate_def emptyTemplate_def
      pathJoin_def)

lemma chain_resolve_c:
  assumes calm: "\<And>tr ev. \<not> isDatasetCall ev \<Longrightarrow> fl tr ev = None"
    and nofile: "files w ''c'' = None"
  shows "importResolve (chainHost fl) ''c'' w =
           Return (chainTemplate ''c'', ''c:pub:1.0.0'', ''/cache/id-c'', False)
             (log_Info ''Importing c''
                (emit (EvHttpGet ''cdn/template?name=c&version=latest'') w))"
  using nofile
  by (simp add: importResolve_def Let_def fs_FileExists_def getTemplateInfo_def chain_names
      getTemplateInfoByName_def fetchTemplateInfo_def call_def calm log_Check_cases
      chainHost_def env0_def cfg0_def chainBody_def chainTemplate_def emptyTemplate_def
      pathJoin_def)

lemma chain_fetch_b:
  assumes calm: "\<And>tr ev. \<not> isDatasetCall ev \<Longrightarrow> fl tr ev = None"
    and inv: "chainFiles (files w)"
    and fresh: "\<not> IsTemplate w ''b:pub:1.0.0''"
  shows "\<exists>w'. importFetch (chainHost fl) (chainTemplate ''b'') ''b:pub:1.0.0'' ''/cache/id-b'' False w =
           Return (''b:pub:1.0.0'', ''/cache/b:pub:1.0.0'', ''a:pub:1.0.0'') w' \<and>
           chainFiles (files w')"
  using inv fresh
  by (simp add: importFetch_def Let_def fs_FileExists_def chainFiles_def verifyChecksum_def
      sha256_def fs_Sha256Sum_def Sha256DigestMethod_def chain_host chainUntar_def
      fs_Decompress_def call_def calm log_Check_cases getItem_def GetConfigItem_def pathJoin_def
      chain_items_b map_add_def)

lemma chain_fetch_c:
  assumes calm: "\<And>tr ev. \<not> isDatasetCall ev \<Longrightarrow> fl tr ev = None"
    and inv: "chainFiles (files w)"
    and fresh: "\<not> IsTemplate w ''c:pub:1.0.0''"
  shows "\<exists>w'. importFetch (chainHost fl) (chainTemplate ''c'') ''c:pub:1.0.0'' ''/cache/id-c'' False w =
           Return (''c:pub:1.0.0'', ''/cache/c:pub:1.0.0'', ''b:pub:1.0.0'') w' \<and>
           chainFiles (files w')"
  using inv fresh
  by (simp add: importFetch_def Let_def fs_FileExists_def chainFiles_def verifyChecksum_def
      sha256_def fs_Sha256Sum_def Sha256DigestMethod_def chain_host chainUntar_def
      fs_Decompress_def call_def calm log_Check_cases getItem_def GetConfigItem_def pathJoin_def
      chain_items_c map_add_def)

lemma chainWorld_facts:
  "fs_DatasetExists chainWorld []" "lxc chainWorld = []" "chainFiles (files chainWorld)"
  "\<not> IsTemplate chainWorld ''a:pub:1.0.0''" "\<not> IsTemplate chainWorld ''b:pub:1.0.0''"
  "\<not> IsTemplate chainWorld ''c:pub:1.0.0''"
  by (simp_all add: chainWorld_def world0_def fs_DatasetExists_def chainFiles_def IsTemplate_def)



section \<open>An existing dataset under the reference\<close>

lemma remove_stuck:
  assumes stuck: "\<And>tr ev. isDatasetCall ev \<Longrightarrow> failure e tr ev \<noteq> None"
  shows "datasets (snd (fs_RemoveDataset e d rc w)) = datasets w"
  using stuck[of "EvRemoveDataset d rc" "trace w"]
  by (auto simp: fs_RemoveDataset_def call_def)

lemma destroySnapshots_stuck:
  assumes stuck: "\<And>tr ev. isDatasetCall ev \<Longrightarrow> failure e tr ev \<noteq> None"
  shows "datasets (snd (destroySnapshots e silent ls err w)) = datasets w"
proof (induction ls arbitrary: err w)
  case Nil
  then show ?case by simp
next
  case (Cons l ls)
  let ?s = "TrimSpace (TrimPrefix l (Dataset (cfg e)))"
  obtain x1 x2 where r: "fs_RemoveDataset e ?s False w = (x1, x2)" by (metis prod.exhaust)
  then have g: "datasets x2 = datasets w"
    using remove_stuck[OF stuck, of ?s False w] by simp
  with r Cons.IH[of err w] Cons.IH[of x1 x2] show ?case by (simp add: Let_def)
qed

lemma destroyChildren_stuck:
  assumes stuck: "\<And>tr ev. isDatasetCall ev \<Longrightarrow> failure e tr ev \<noteq> None"
  shows "datasets (snd (destroyChildren e silent name ds err w)) = datasets w"
proof (induction ds arbitrary: err w)
  case Nil
  then show ?case by simp
next
  case (Cons d ds)
  let ?s = "pathJoin [name, d]"
  obtain x1 x2 where r: "fs_RemoveDataset e ?s False w = (x1, x2)" by (metis prod.exhaust)
  then have g: "datasets x2 = datasets w"
    using remove_stuck[OF stuck, of ?s False w] by simp
  with r Cons.IH[of err w] Cons.IH[of x1 x2] show ?case by (simp add: Let_def)
qed

lemma destroyLocked_stuck:
  assumes stuck: "\<And>tr ev. isDatasetCall ev \<Longrightarrow> failure e tr ev \<noteq> None"
  shows "datasets (snd (destroyLocked e name silent w)) = datasets w"
proof -
  obtain out err w1 where l: "fs_ListSnapshotNamesOnly e name w = ((out, err), w1)"
    by (metis prod.exhaust)
  then have t1: "datasets w1 = datasets w"
    by (auto simp: fs_ListSnapshotNamesOnly_def call_def split: option.splits)
  obtain e2 f2 w2 where s: "destroySnapshots e silent (splitLines out) err w1 = ((e2, f2), w2)"
    by (metis prod.exhaust)
  have t2: "datasets w2 = datasets w"
    using destroySnapshots_stuck[OF stuck, of silent "splitLines out" err w1] s t1 by simp
  obtain e3 f3 w3 where c: "destroyChildren e silent name ChildDatasets e2 w2 = ((e3, f3), w3)"
    by (metis prod.exhaust)
  have t3: "datasets w3 = datasets w"
    using destroyChildren_stuck[OF stuck, of silent name ChildDatasets e2 w2] c t2 by simp
  have t4: "datasets (snd (fs_RemoveDataset e name False w3)) = datasets w"
    using remove_stuck[OF stuck, of name False w3] t3 by simp
  show ?thesis
    using l s c t1 t2 t3 t4 by (cases f2; cases f3) (simp_all add: destroyLocked_def)
qed

lemma lockLoop_datasets:
  "lockLoop n e name operation w = Some w2 \<Longrightarrow> datasets w2 = datasets w"
  using lockLoop_trace by blast

lemma Destroy_stuck:
  assumes stuck: "\<And>tr ev. isDatasetCall ev \<Longrightarrow> failure e tr ev \<noteq> None"
    and d: "Destroy fuel e name silent w = Some (err, w1)"
  shows "datasets w1 = datasets w"
proof -
  from d obtain w0 where l: "lockLoop fuel e ''lxc'' ''destroy'' w = Some w0"
    by (auto simp: Destroy_def split: option.splits)
  from d l have "w1 = emit (EvUnlock ''lxc'' ''destroy'') (snd (destroyLocked e name silent w0))"
    by (auto simp: Destroy_def split: prod.splits)
  then show ?thesis
    using lockLoop_datasets[OF l] destroyLocked_stuck[OF stuck, of name silent w0] by simp
qed

lemma install_stuck:
  assumes stuck: "\<And>tr ev. isDatasetCall ev \<Longrightarrow> failure e tr ev \<noteq> None"
  shows "datasets (snd (install e n w)) = datasets w"
  using stuck[of "EvCreateDataset n" "trace w"]
  by (auto simp: install_def Let_def fs_CreateDataset_def call_def)

lemma importInstall_stuck:
  assumes stuck: "\<And>tr ev. isDatasetCall ev \<Longrightarrow> failure e tr ev \<noteq> None"
    and run: "importInstall fuel e t ref dir archive local w = Some r"
  shows "datasets (final r) = datasets w"
proof -
  from importInstall_run[OF run] obtain w1 where
    d: "if fs_DatasetExists w ref
        then (\<exists>derr. Destroy fuel e ref True
                        (log_Info (''Installing template '' @ Name t) w) = Some (derr, w1))
        else w1 = log_Info (''Installing template '' @ Name t) w"
    and s: "same isMilestone (snd (install e ref w1)) (final r)"
    by blast
  have "datasets w1 = datasets w"
  proof (cases "fs_DatasetExists w ref")
    case True
    with d obtain derr where
      "Destroy fuel e ref True (log_Info (''Installing template '' @ Name t) w) = Some (derr, w1)"
      by auto
    from Destroy_stuck[OF stuck this] show ?thesis by simp
  next
    case False
    with d show ?thesis by simp
  qed
  with s install_stuck[OF stuck, of ref w1] show ?thesis by (simp add: same_def)
qed


lemma leftover_facts:
  "fs_DatasetExists leftoverWorld []" "lxc leftoverWorld = []"
  "chainFiles (files leftoverWorld)" "\<not> IsTemplate leftoverWorld ''a:pub:1.0.0''"
  "fs_DatasetExists leftoverWorld ''a:pub:1.0.0''"
  "datasets leftoverWorld = [[], ''a:pub:1.0.0'', ''a:pub:1.0.0/rootfs'']"
  "trace leftoverWorld = []" "files leftoverWorld ''a:pub:1.0.0'' = None"
  by (simp_all add: leftoverWorld_def chainWorld_def world0_def fs_DatasetExists_def
      chainFiles_def IsTemplate_def fs_IsDatasetReadOnly_def)



end
